(* ===== verification/CamPrelude.thy ===== *)
theory CamPrelude
  imports Main "HOL-Library.State_Monad"
begin

text \<open>
  Shared vocabulary of the development: the integer and pointer types of the C++ code, the
  Android status codes its operations return, the fact collections the component proofs use,
  and a small kit of lemmas on the state monad of the library (stateful C++ methods are
  written in it, so that a method reads as the sequence of statements it models).
\<close>

section \<open>Types and status codes\<close>

text \<open>
  An address is a number and \<open>NULL\<close> is 0. A C++ \<^verbatim>\<open>int32_t\<close> that is only stored, passed on and
  compared is an \<open>int\<close>; where a component does arithmetic on a machine word it uses words.
\<close>

type_synonym ptr = nat
type_synonym int32 = int

abbreviation NULL :: ptr where "NULL \<equiv> 0"

text \<open>The status codes of Android's \<^verbatim>\<open>utils/Errors.h\<close> that the code names.\<close>

definition NO_ERROR :: int32 where "NO_ERROR = 0"
definition UNKNOWN_ERROR :: int32 where "UNKNOWN_ERROR = - 2147483648"
definition NO_MEMORY :: int32 where "NO_MEMORY = - 12"
definition INVALID_OPERATION :: int32 where "INVALID_OPERATION = - 38"
definition BAD_VALUE :: int32 where "BAD_VALUE = - 22"
definition NO_INIT :: int32 where "NO_INIT = - 19"
definition DEAD_OBJECT :: int32 where "DEAD_OBJECT = - 32"

lemmas status_defs = NO_ERROR_def UNKNOWN_ERROR_def NO_MEMORY_def INVALID_OPERATION_def
  BAD_VALUE_def NO_INIT_def DEAD_OBJECT_def

lemma status_distinct [simp]:
  "INVALID_OPERATION \<noteq> NO_ERROR" "BAD_VALUE \<noteq> NO_ERROR" "NO_MEMORY \<noteq> NO_ERROR"
  "UNKNOWN_ERROR \<noteq> NO_ERROR" "NO_INIT \<noteq> NO_ERROR" "DEAD_OBJECT \<noteq> NO_ERROR"
  by (simp_all add: status_defs)

lemmas status_distinct' [simp] = status_distinct [symmetric]

section \<open>Fact collections\<close>

named_theorems sm_body "definitions of the case bodies the state handlers share"

section \<open>The state monad\<close>

definition only_if :: "bool \<Rightarrow> ('s, unit) state \<Rightarrow> ('s, unit) state" where
  "only_if b m = (if b then m else State_Monad.return ())"

lemma run_state_only_if [simp]:
  "run_state (only_if b m) s = (if b then run_state m s else ((), s))"
  by (simp add: only_if_def)

section \<open>Operations that return\<close>

text \<open>\<open>None\<close> is an operation that does not come back.\<close>

definition returns :: "'a option \<Rightarrow> ('a \<Rightarrow> bool) \<Rightarrow> bool" where
  "returns m Q \<longleftrightarrow> (case m of None \<Rightarrow> False | Some x \<Rightarrow> Q x)"

lemma returns_Some [simp]: "returns (Some x) Q = Q x"
  by (simp add: returns_def)

lemma returns_None [simp]: "\<not> returns None Q"
  by (simp add: returns_def)

lemma returns_bind: "returns (m \<bind> f) Q = returns m (\<lambda>x. returns (f x) Q)"
  by (cases m) simp_all

lemma returns_mono: "returns m Q \<Longrightarrow> (\<And>x. Q x \<Longrightarrow> R x) \<Longrightarrow> returns m R"
  by (cases m) simp_all

lemma returnsD: "returns m Q \<Longrightarrow> m = Some x \<Longrightarrow> Q x"
  by simp

lemma returnsE: "returns m Q \<Longrightarrow> (\<And>x. m = Some x \<Longrightarrow> Q x \<Longrightarrow> thesis) \<Longrightarrow> thesis"
  by (cases m) simp_all

lemma returns_iff: "returns m Q \<longleftrightarrow> (\<exists>x. m = Some x \<and> Q x)"
  by (cases m) simp_all

lemma returns_bindI: "returns m P \<Longrightarrow> (\<And>x. P x \<Longrightarrow> returns (f x) Q) \<Longrightarrow> returns (m \<bind> f) Q"
  by (cases m) simp_all

lemma returns_mapI: "returns m (\<lambda>x. P (f x)) \<Longrightarrow> returns (map_option f m) P"
  by (cases m) simp_all

section \<open>Lists\<close>

lemma take_length_append [simp]: "take (length xs) (xs @ ys) = xs"
  by simp

lemma drop_length_append [simp]: "drop (length xs) (xs @ ys) = ys"
  by simp

end
