(* ===== verification/SmTypes.thy ===== *)
theory SmTypes
  imports CamPrelude
begin

text \<open>
  The data of the camera state machine (\<^verbatim>\<open>camera/QCamera2/HAL/QCameraStateMachine.h\<close>): the
  event, state and result types of the header, the calls the handlers make on their parent
  (the hardware interface object \<^verbatim>\<open>m_parent\<close>), and the statements the handlers share.
\<close>

section \<open>Enumerations and payloads of the header\<close>

datatype (plugins only: code size) qcamera_sm_evt_enum_t =
    QCAMERA_SM_EVT_SET_PREVIEW_WINDOW | QCAMERA_SM_EVT_SET_CALLBACKS
  | QCAMERA_SM_EVT_ENABLE_MSG_TYPE | QCAMERA_SM_EVT_DISABLE_MSG_TYPE
  | QCAMERA_SM_EVT_MSG_TYPE_ENABLED | QCAMERA_SM_EVT_SET_PARAMS
  | QCAMERA_SM_EVT_GET_PARAMS | QCAMERA_SM_EVT_PUT_PARAMS
  | QCAMERA_SM_EVT_START_PREVIEW | QCAMERA_SM_EVT_START_NODISPLAY_PREVIEW
  | QCAMERA_SM_EVT_STOP_PREVIEW | QCAMERA_SM_EVT_PREVIEW_ENABLED
  | QCAMERA_SM_EVT_STORE_METADATA_IN_BUFS | QCAMERA_SM_EVT_START_RECORDING
  | QCAMERA_SM_EVT_STOP_RECORDING | QCAMERA_SM_EVT_RECORDING_ENABLED
  | QCAMERA_SM_EVT_RELEASE_RECORIDNG_FRAME | QCAMERA_SM_EVT_PREPARE_SNAPSHOT
  | QCAMERA_SM_EVT_TAKE_PICTURE | QCAMERA_SM_EVT_CANCEL_PICTURE
  | QCAMERA_SM_EVT_START_AUTO_FOCUS | QCAMERA_SM_EVT_STOP_AUTO_FOCUS
  | QCAMERA_SM_EVT_SEND_COMMAND | QCAMERA_SM_EVT_RELEASE
  | QCAMERA_SM_EVT_DUMP | QCAMERA_SM_EVT_REG_FACE_IMAGE
  | QCAMERA_SM_EVT_EVT_INTERNAL | QCAMERA_SM_EVT_EVT_NOTIFY
  | QCAMERA_SM_EVT_JPEG_EVT_NOTIFY | QCAMERA_SM_EVT_SNAPSHOT_DONE
  | QCAMERA_SM_EVT_THERMAL_NOTIFY | QCAMERA_SM_EVT_STOP_CAPTURE_CHANNEL
  | QCAMERA_SM_EVT_RESTART_PERVIEW | QCAMERA_SM_EVT_MAX

text \<open>The value of an enumerator: the first one is 1 in the header.\<close>

fun evt_value :: "qcamera_sm_evt_enum_t \<Rightarrow> int32" where
  "evt_value QCAMERA_SM_EVT_SET_PREVIEW_WINDOW = 1"
| "evt_value QCAMERA_SM_EVT_SET_CALLBACKS = 2"
| "evt_value QCAMERA_SM_EVT_ENABLE_MSG_TYPE = 3"
| "evt_value QCAMERA_SM_EVT_DISABLE_MSG_TYPE = 4"
| "evt_value QCAMERA_SM_EVT_MSG_TYPE_ENABLED = 5"
| "evt_value QCAMERA_SM_EVT_SET_PARAMS = 6"
| "evt_value QCAMERA_SM_EVT_GET_PARAMS = 7"
| "evt_value QCAMERA_SM_EVT_PUT_PARAMS = 8"
| "evt_value QCAMERA_SM_EVT_START_PREVIEW = 9"
| "evt_value QCAMERA_SM_EVT_START_NODISPLAY_PREVIEW = 10"
| "evt_value QCAMERA_SM_EVT_STOP_PREVIEW = 11"
| "evt_value QCAMERA_SM_EVT_PREVIEW_ENABLED = 12"
| "evt_value QCAMERA_SM_EVT_STORE_METADATA_IN_BUFS = 13"
| "evt_value QCAMERA_SM_EVT_START_RECORDING = 14"
| "evt_value QCAMERA_SM_EVT_STOP_RECORDING = 15"
| "evt_value QCAMERA_SM_EVT_RECORDING_ENABLED = 16"
| "evt_value QCAMERA_SM_EVT_RELEASE_RECORIDNG_FRAME = 17"
| "evt_value QCAMERA_SM_EVT_PREPARE_SNAPSHOT = 18"
| "evt_value QCAMERA_SM_EVT_TAKE_PICTURE = 19"
| "evt_value QCAMERA_SM_EVT_CANCEL_PICTURE = 20"
| "evt_value QCAMERA_SM_EVT_START_AUTO_FOCUS = 21"
| "evt_value QCAMERA_SM_EVT_STOP_AUTO_FOCUS = 22"
| "evt_value QCAMERA_SM_EVT_SEND_COMMAND = 23"
| "evt_value QCAMERA_SM_EVT_RELEASE = 24"
| "evt_value QCAMERA_SM_EVT_DUMP = 25"
| "evt_value QCAMERA_SM_EVT_REG_FACE_IMAGE = 26"
| "evt_value QCAMERA_SM_EVT_EVT_INTERNAL = 27"
| "evt_value QCAMERA_SM_EVT_EVT_NOTIFY = 28"
| "evt_value QCAMERA_SM_EVT_JPEG_EVT_NOTIFY = 29"
| "evt_value QCAMERA_SM_EVT_SNAPSHOT_DONE = 30"
| "evt_value QCAMERA_SM_EVT_THERMAL_NOTIFY = 31"
| "evt_value QCAMERA_SM_EVT_STOP_CAPTURE_CHANNEL = 32"
| "evt_value QCAMERA_SM_EVT_RESTART_PERVIEW = 33"
| "evt_value QCAMERA_SM_EVT_MAX = 34"

datatype qcamera_api_result_type_t =
    QCAMERA_API_RESULT_TYPE_DEF | QCAMERA_API_RESULT_TYPE_ENABLE_FLAG
  | QCAMERA_API_RESULT_TYPE_PARAMS | QCAMERA_API_RESULT_TYPE_HANDLE

text \<open>
  The result union (\<^verbatim>\<open>enabled\<close>, \<^verbatim>\<open>params\<close>, \<^verbatim>\<open>handle\<close>) is one slot, zero after the \<^verbatim>\<open>memset\<close> that
  starts every handler.
\<close>

record qcamera_api_result_t =
  status :: int32
  request_api :: qcamera_sm_evt_enum_t
  result_type :: qcamera_api_result_type_t
  slot :: int

record qcamera_sm_evt_setcb_payload_t =
  notify_cb :: ptr
  data_cb :: ptr
  data_cb_timestamp :: ptr
  get_memory :: ptr
  user :: ptr

record qcamera_sm_evt_command_payload_t =
  cmd :: int32
  arg1 :: int32
  arg2 :: int32

record qcamera_sm_evt_reg_face_payload_t =
  img_ptr :: ptr
  config :: ptr

text \<open>
  The internal event payload is a union tagged by \<^verbatim>\<open>evt_type\<close>; the data of each member is passed
  to the parent untouched and is an address here.
\<close>

datatype qcamera_sm_internal_evt_payload_t =
    QCAMERA_INTERNAL_EVT_FOCUS_UPDATE ptr
  | QCAMERA_INTERNAL_EVT_PREP_SNAPSHOT_DONE ptr
  | QCAMERA_INTERNAL_EVT_FACE_DETECT_RESULT ptr
  | QCAMERA_INTERNAL_EVT_HISTOGRAM_STATS ptr
  | QCAMERA_INTERNAL_EVT_CROP_INFO ptr
  | QCAMERA_INTERNAL_EVT_ASD_UPDATE ptr
  | QCAMERA_INTERNAL_EVT_AWB_UPDATE ptr
  | QCAMERA_INTERNAL_EVT_AE_UPDATE ptr
  | QCAMERA_INTERNAL_EVT_FOCUS_POS_UPDATE ptr
  | QCAMERA_INTERNAL_EVT_MAX

datatype cam_event_type_t =
    CAM_EVENT_TYPE_MAP_UNMAP_DONE | CAM_EVENT_TYPE_AUTO_FOCUS_DONE
  | CAM_EVENT_TYPE_ZOOM_DONE | CAM_EVENT_TYPE_REPROCESS_STAGE_DONE
  | CAM_EVENT_TYPE_DAEMON_DIED | CAM_EVENT_TYPE_INT_TAKE_PIC | CAM_EVENT_TYPE_MAX

datatype qcamera_state_enum_t =
    QCAMERA_SM_STATE_PREVIEW_STOPPED | QCAMERA_SM_STATE_PREVIEW_READY
  | QCAMERA_SM_STATE_PREVIEWING | QCAMERA_SM_STATE_PREPARE_SNAPSHOT
  | QCAMERA_SM_STATE_PIC_TAKING | QCAMERA_SM_STATE_RECORDING
  | QCAMERA_SM_STATE_VIDEO_PIC_TAKING | QCAMERA_SM_STATE_PREVIEW_PIC_TAKING

datatype qcamera_ch_type_enum_t =
    QCAMERA_CH_TYPE_ZSL | QCAMERA_CH_TYPE_CAPTURE | QCAMERA_CH_TYPE_PREVIEW
  | QCAMERA_CH_TYPE_VIDEO | QCAMERA_CH_TYPE_SNAPSHOT | QCAMERA_CH_TYPE_RAW
  | QCAMERA_CH_TYPE_METADATA

text \<open>
  An event with its payload. The code passes the payload as \<^verbatim>\<open>void *\<close> and each handler casts it to
  the type its event carries; here the constructor of the event carries that type.
\<close>

datatype (plugins only: code size) sm_event =
    SET_PREVIEW_WINDOW ptr
  | SET_CALLBACKS qcamera_sm_evt_setcb_payload_t
  | ENABLE_MSG_TYPE int32
  | DISABLE_MSG_TYPE int32
  | MSG_TYPE_ENABLED int32
  | SET_PARAMS ptr
  | GET_PARAMS
  | PUT_PARAMS ptr
  | START_PREVIEW
  | START_NODISPLAY_PREVIEW
  | STOP_PREVIEW
  | PREVIEW_ENABLED
  | STORE_METADATA_IN_BUFS int32
  | START_RECORDING
  | STOP_RECORDING
  | RECORDING_ENABLED
  | RELEASE_RECORIDNG_FRAME ptr
  | PREPARE_SNAPSHOT
  | TAKE_PICTURE
  | CANCEL_PICTURE
  | START_AUTO_FOCUS
  | STOP_AUTO_FOCUS
  | SEND_COMMAND qcamera_sm_evt_command_payload_t
  | RELEASE
  | DUMP int32
  | REG_FACE_IMAGE qcamera_sm_evt_reg_face_payload_t
  | EVT_INTERNAL qcamera_sm_internal_evt_payload_t
  | EVT_NOTIFY cam_event_type_t
  | JPEG_EVT_NOTIFY ptr
  | SNAPSHOT_DONE
  | THERMAL_NOTIFY int32
  | STOP_CAPTURE_CHANNEL
  | RESTART_PERVIEW
  | EVT_MAX

fun evt_code :: "sm_event \<Rightarrow> qcamera_sm_evt_enum_t" where
  "evt_code (SET_PREVIEW_WINDOW w) = QCAMERA_SM_EVT_SET_PREVIEW_WINDOW"
| "evt_code (SET_CALLBACKS cb) = QCAMERA_SM_EVT_SET_CALLBACKS"
| "evt_code (ENABLE_MSG_TYPE n) = QCAMERA_SM_EVT_ENABLE_MSG_TYPE"
| "evt_code (DISABLE_MSG_TYPE n) = QCAMERA_SM_EVT_DISABLE_MSG_TYPE"
| "evt_code (MSG_TYPE_ENABLED n) = QCAMERA_SM_EVT_MSG_TYPE_ENABLED"
| "evt_code (SET_PARAMS p) = QCAMERA_SM_EVT_SET_PARAMS"
| "evt_code GET_PARAMS = QCAMERA_SM_EVT_GET_PARAMS"
| "evt_code (PUT_PARAMS p) = QCAMERA_SM_EVT_PUT_PARAMS"
| "evt_code START_PREVIEW = QCAMERA_SM_EVT_START_PREVIEW"
| "evt_code START_NODISPLAY_PREVIEW = QCAMERA_SM_EVT_START_NODISPLAY_PREVIEW"
| "evt_code STOP_PREVIEW = QCAMERA_SM_EVT_STOP_PREVIEW"
| "evt_code PREVIEW_ENABLED = QCAMERA_SM_EVT_PREVIEW_ENABLED"
| "evt_code (STORE_METADATA_IN_BUFS n) = QCAMERA_SM_EVT_STORE_METADATA_IN_BUFS"
| "evt_code START_RECORDING = QCAMERA_SM_EVT_START_RECORDING"
| "evt_code STOP_RECORDING = QCAMERA_SM_EVT_STOP_RECORDING"
| "evt_code RECORDING_ENABLED = QCAMERA_SM_EVT_RECORDING_ENABLED"
| "evt_code (RELEASE_RECORIDNG_FRAME p) = QCAMERA_SM_EVT_RELEASE_RECORIDNG_FRAME"
| "evt_code PREPARE_SNAPSHOT = QCAMERA_SM_EVT_PREPARE_SNAPSHOT"
| "evt_code TAKE_PICTURE = QCAMERA_SM_EVT_TAKE_PICTURE"
| "evt_code CANCEL_PICTURE = QCAMERA_SM_EVT_CANCEL_PICTURE"
| "evt_code START_AUTO_FOCUS = QCAMERA_SM_EVT_START_AUTO_FOCUS"
| "evt_code STOP_AUTO_FOCUS = QCAMERA_SM_EVT_STOP_AUTO_FOCUS"
| "evt_code (SEND_COMMAND c) = QCAMERA_SM_EVT_SEND_COMMAND"
| "evt_code RELEASE = QCAMERA_SM_EVT_RELEASE"
| "evt_code (DUMP n) = QCAMERA_SM_EVT_DUMP"
| "evt_code (REG_FACE_IMAGE r) = QCAMERA_SM_EVT_REG_FACE_IMAGE"
| "evt_code (EVT_INTERNAL i) = QCAMERA_SM_EVT_EVT_INTERNAL"
| "evt_code (EVT_NOTIFY t) = QCAMERA_SM_EVT_EVT_NOTIFY"
| "evt_code (JPEG_EVT_NOTIFY p) = QCAMERA_SM_EVT_JPEG_EVT_NOTIFY"
| "evt_code SNAPSHOT_DONE = QCAMERA_SM_EVT_SNAPSHOT_DONE"
| "evt_code (THERMAL_NOTIFY n) = QCAMERA_SM_EVT_THERMAL_NOTIFY"
| "evt_code STOP_CAPTURE_CHANNEL = QCAMERA_SM_EVT_STOP_CAPTURE_CHANNEL"
| "evt_code RESTART_PERVIEW = QCAMERA_SM_EVT_RESTART_PERVIEW"
| "evt_code EVT_MAX = QCAMERA_SM_EVT_MAX"

section \<open>Calls on the parent\<close>

text \<open>
  One constructor per member of \<^verbatim>\<open>QCamera2HardwareInterface\<close> the handlers call, read or write, and
  what such a call returns: a status, a flag, an integer and an address (each call uses the part
  its C++ type has; an \<^verbatim>\<open>int32_t &\<close> or \<^verbatim>\<open>bool &\<close> argument comes back in \<open>r_out\<close> or \<open>r_flag\<close>).
\<close>

datatype (plugins only: code size) pcall =
    P_setPreviewWindow ptr | P_setCallBacks qcamera_sm_evt_setcb_payload_t
  | P_enableMsgType int32 | P_disableMsgType int32 | P_msgTypeEnabled int32
  | P_updateParameters ptr | P_memoryPool_clear | P_commitParameterChanges
  | P_getParameters | P_putParameters ptr | P_mPreviewWindow
  | P_preparePreview | P_startPreview | P_unpreparePreview | P_stopPreview
  | P_release | P_storeMetaDataInBuffers int32 | P_dump int32
  | P_sendCommand int32 int32 int32 | P_closeNativeHandle ptr
  | P_autoFocus | P_cancelAutoFocus | P_registerFaceImage ptr ptr
  | P_updateThermalLevel int32 | P_sendEvtNotify int32 int32 int32
  | P_signalAPIResult qcamera_api_result_t | P_signalEvtResult qcamera_api_result_t
  | P_startRecording | P_stopRecording | P_prepareHardwareForSnapshot bool
  | P_getRecordingHintValue | P_updateRecordingHintValue bool
  | P_isZSLMode | P_isLongshotEnabled | P_takePicture | P_longShot | P_cancelPicture
  | P_takeLiveSnapshot | P_cancelLiveSnapshot | P_releaseRecordingFrame ptr
  | P_stopChannel qcamera_ch_type_enum_t
  | P_processAutoFocusEvent ptr | P_processPrepSnapshotDoneEvent ptr
  | P_processFaceDetectionResult ptr | P_processHistogramStats ptr | P_processZoomEvent ptr
  | P_processASDUpdate ptr | P_processAWBUpdate ptr | P_processAEInfo ptr
  | P_processFocusPositionInfo ptr | P_processJpegNotify ptr
  | P_isPreviewRestartEnabled | P_stopCaptureChannel bool | P_unconfigureAdvancedCapture
  | P_set_m_bPreviewStarted bool | P_getMultipleStages | P_setMultipleStages bool
  | P_playShutter

record reply =
  r_rc :: int32
  r_flag :: bool
  r_out :: int32
  r_addr :: ptr

text \<open>
  What the state machine runs against: how the parent answers a call in its own state, the build
  flag \<^verbatim>\<open>VANILLA_HAL\<close>, and the constants of Android's \<^verbatim>\<open>system/camera.h\<close> it compares with or passes on.
\<close>

record 'h penv =
  p_call :: "pcall \<Rightarrow> 'h \<Rightarrow> reply \<times> 'h"
  VANILLA_HAL :: bool
  CAMERA_CMD_LONGSHOT_ON :: int32
  CAMERA_CMD_LONGSHOT_OFF :: int32
  CAMERA_MSG_ERROR :: int32
  CAMERA_ERROR_SERVER_DIED :: int32

text \<open>
  The state of the machine: \<^verbatim>\<open>m_state\<close>, the parent, and the history of the calls made on the parent
  with their replies, oldest first. The history is a ghost variable: no handler reads it.
\<close>

record 'h sm =
  m_state :: qcamera_state_enum_t
  m_parent :: 'h
  hist :: "(pcall \<times> reply) list"

type_synonym ('h, 'a) sm_prog = "('h sm, 'a) state"

section \<open>Statements of the handlers\<close>

definition parent :: "'h penv \<Rightarrow> pcall \<Rightarrow> ('h, reply) sm_prog" where
  "parent E c = State (\<lambda>s. case p_call E c (m_parent s) of
     (r, h) \<Rightarrow> (r, s\<lparr>m_parent := h, hist := hist s @ [(c, r)]\<rparr>))"

definition set_m_state :: "qcamera_state_enum_t \<Rightarrow> ('h, unit) sm_prog" where
  "set_m_state q = State (\<lambda>s. ((), s\<lparr>m_state := q\<rparr>))"

definition call :: "'h penv \<Rightarrow> pcall \<Rightarrow> ('h, unit) sm_prog" where
  "call E c = do { _ \<leftarrow> parent E c; State_Monad.return () }"

definition call_rc :: "'h penv \<Rightarrow> pcall \<Rightarrow> ('h, int32) sm_prog" where
  "call_rc E c = do { r \<leftarrow> parent E c; State_Monad.return (r_rc r) }"

definition call_flag :: "'h penv \<Rightarrow> pcall \<Rightarrow> ('h, bool) sm_prog" where
  "call_flag E c = do { r \<leftarrow> parent E c; State_Monad.return (r_flag r) }"

definition call_addr :: "'h penv \<Rightarrow> pcall \<Rightarrow> ('h, ptr) sm_prog" where
  "call_addr E c = do { r \<leftarrow> parent E c; State_Monad.return (r_addr r) }"

definition api_result ::
    "int32 \<Rightarrow> qcamera_sm_evt_enum_t \<Rightarrow> qcamera_api_result_type_t \<Rightarrow> int \<Rightarrow> qcamera_api_result_t"
  where "api_result st evt ty v =
    \<lparr>status = st, request_api = evt, result_type = ty, slot = v\<rparr>"

text \<open>
  The four lines that end most cases: fill \<^verbatim>\<open>result\<close> and signal it. They return the status the
  handler returns.
\<close>

definition signal_def :: "'h penv \<Rightarrow> qcamera_sm_evt_enum_t \<Rightarrow> int32 \<Rightarrow> ('h, int32) sm_prog" where
  [sm_body]: "signal_def E evt rc = do {
     call E (P_signalAPIResult (api_result rc evt QCAMERA_API_RESULT_TYPE_DEF 0));
     State_Monad.return rc }"

definition signal_evt :: "'h penv \<Rightarrow> qcamera_sm_evt_enum_t \<Rightarrow> int32 \<Rightarrow> ('h, int32) sm_prog" where
  [sm_body]: "signal_evt E evt rc = do {
     call E (P_signalEvtResult (api_result rc evt QCAMERA_API_RESULT_TYPE_DEF 0));
     State_Monad.return rc }"

definition signal_enabled :: "'h penv \<Rightarrow> qcamera_sm_evt_enum_t \<Rightarrow> int \<Rightarrow> ('h, int32) sm_prog" where
  [sm_body]: "signal_enabled E evt v = do {
     call E (P_signalAPIResult (api_result NO_ERROR evt QCAMERA_API_RESULT_TYPE_ENABLE_FLAG v));
     State_Monad.return NO_ERROR }"

definition call_and_signal :: "'h penv \<Rightarrow> qcamera_sm_evt_enum_t \<Rightarrow> pcall \<Rightarrow> ('h, int32) sm_prog"
  where [sm_body]: "call_and_signal E evt c = do { rc \<leftarrow> call_rc E c; signal_def E evt rc }"

definition do_msgTypeEnabled :: "'h penv \<Rightarrow> int32 \<Rightarrow> ('h, int32) sm_prog" where
  [sm_body]: "do_msgTypeEnabled E n = do {
     r \<leftarrow> parent E (P_msgTypeEnabled n);
     signal_enabled E QCAMERA_SM_EVT_MSG_TYPE_ENABLED (r_out r) }"

definition do_getParameters :: "'h penv \<Rightarrow> ('h, int32) sm_prog" where
  [sm_body]: "do_getParameters E = do {
     p \<leftarrow> call_addr E P_getParameters;
     call E (P_signalAPIResult (api_result NO_ERROR QCAMERA_SM_EVT_GET_PARAMS
       QCAMERA_API_RESULT_TYPE_PARAMS (int p)));
     State_Monad.return NO_ERROR }"

definition do_registerFaceImage ::
    "'h penv \<Rightarrow> qcamera_sm_evt_reg_face_payload_t \<Rightarrow> ('h, int32) sm_prog" where
  [sm_body]: "do_registerFaceImage E p = do {
     r \<leftarrow> parent E (P_registerFaceImage (img_ptr p) (config p));
     call E (P_signalAPIResult (api_result (r_rc r) QCAMERA_SM_EVT_REG_FACE_IMAGE
       QCAMERA_API_RESULT_TYPE_HANDLE (r_out r)));
     State_Monad.return (r_rc r) }"

definition do_sendCommand ::
    "'h penv \<Rightarrow> qcamera_sm_evt_command_payload_t \<Rightarrow> ('h, int32) sm_prog" where
  [sm_body]: "do_sendCommand E c =
     call_and_signal E QCAMERA_SM_EVT_SEND_COMMAND (P_sendCommand (cmd c) (arg1 c) (arg2 c))"

definition invalid_operation :: "'h penv \<Rightarrow> qcamera_sm_evt_enum_t \<Rightarrow> ('h, int32) sm_prog" where
  [sm_body]: "invalid_operation E evt = signal_def E evt INVALID_OPERATION"

text \<open>Starting preview again after it was stopped; a failed start is rolled back.\<close>

definition prepare_and_start :: "'h penv \<Rightarrow> ('h, int32) sm_prog" where
  [sm_body]: "prepare_and_start E = do {
     rc \<leftarrow> call_rc E P_preparePreview;
     if rc = NO_ERROR then do {
       rc \<leftarrow> call_rc E P_startPreview;
       only_if (rc \<noteq> NO_ERROR) (call E P_unpreparePreview);
       State_Monad.return rc }
     else State_Monad.return rc }"

definition notify_server_died :: "'h penv \<Rightarrow> ('h, unit) sm_prog" where
  [sm_body]: "notify_server_died E =
     call E (P_sendEvtNotify (CAMERA_MSG_ERROR E) (CAMERA_ERROR_SERVER_DIED E) 0)"

lemma run_state_parent [simp]:
  "run_state (parent E c) s = (case p_call E c (m_parent s) of
     (r, h) \<Rightarrow> (r, s\<lparr>m_parent := h, hist := hist s @ [(c, r)]\<rparr>))"
  by (simp add: parent_def)

lemma run_state_set_m_state [simp]:
  "run_state (set_m_state q) s = ((), s\<lparr>m_state := q\<rparr>)"
  by (simp add: set_m_state_def)

lemma run_state_call [simp]:
  "run_state (call E c) s = (case p_call E c (m_parent s) of
     (r, h) \<Rightarrow> ((), s\<lparr>m_parent := h, hist := hist s @ [(c, r)]\<rparr>))"
  by (simp add: call_def split: prod.splits)

lemma run_state_call_rc [simp]:
  "run_state (call_rc E c) s = (case p_call E c (m_parent s) of
     (r, h) \<Rightarrow> (r_rc r, s\<lparr>m_parent := h, hist := hist s @ [(c, r)]\<rparr>))"
  by (simp add: call_rc_def split: prod.splits)

lemma run_state_call_flag [simp]:
  "run_state (call_flag E c) s = (case p_call E c (m_parent s) of
     (r, h) \<Rightarrow> (r_flag r, s\<lparr>m_parent := h, hist := hist s @ [(c, r)]\<rparr>))"
  by (simp add: call_flag_def split: prod.splits)

lemma run_state_call_addr [simp]:
  "run_state (call_addr E c) s = (case p_call E c (m_parent s) of
     (r, h) \<Rightarrow> (r_addr r, s\<lparr>m_parent := h, hist := hist s @ [(c, r)]\<rparr>))"
  by (simp add: call_addr_def split: prod.splits)

end
