(* ===== verification/SmPreview.thy ===== *)
theory SmPreview
  imports SmTypes
begin

text \<open>
  The handlers of the state machine in the states before and during preview:
  \<^verbatim>\<open>procEvtPreviewStoppedState\<close>, \<^verbatim>\<open>procEvtPreviewReadyState\<close> and \<^verbatim>\<open>procEvtPreviewingState\<close> of
  \<^verbatim>\<open>QCameraStateMachine.cpp\<close>. Each C++ function is one \<^verbatim>\<open>switch\<close>; it is a chain of functions here,
  each holding a run of consecutive cases and passing the other events on to the next. A case's
  body is written with the statements of \<open>SmTypes\<close>; the value returned is the \<^verbatim>\<open>rc\<close> of the function.
\<close>

section \<open>QCAMERA_SM_STATE_PREVIEW_STOPPED\<close>

fun previewStopped_events :: "'h penv \<Rightarrow> sm_event \<Rightarrow> ('h, int32) sm_prog" where
  "previewStopped_events E (REG_FACE_IMAGE p) = do_registerFaceImage E p"
| "previewStopped_events E (THERMAL_NOTIFY l) =
     call_and_signal E QCAMERA_SM_EVT_THERMAL_NOTIFY (P_updateThermalLevel l)"
| "previewStopped_events E (EVT_NOTIFY t) = do {
     only_if (t = CAM_EVENT_TYPE_DAEMON_DIED) (notify_server_died E);
     State_Monad.return NO_ERROR }"
| "previewStopped_events E SNAPSHOT_DONE = signal_evt E QCAMERA_SM_EVT_SNAPSHOT_DONE NO_ERROR"
| "previewStopped_events E e = State_Monad.return NO_ERROR"

fun previewStopped_control :: "'h penv \<Rightarrow> sm_event \<Rightarrow> ('h, int32) sm_prog" where
  "previewStopped_control E STOP_PREVIEW = signal_def E QCAMERA_SM_EVT_STOP_PREVIEW NO_ERROR"
| "previewStopped_control E PREVIEW_ENABLED = signal_enabled E QCAMERA_SM_EVT_PREVIEW_ENABLED 0"
| "previewStopped_control E RECORDING_ENABLED = signal_enabled E QCAMERA_SM_EVT_RECORDING_ENABLED 0"
| "previewStopped_control E RELEASE = call_and_signal E QCAMERA_SM_EVT_RELEASE P_release"
| "previewStopped_control E (STORE_METADATA_IN_BUFS n) =
     call_and_signal E QCAMERA_SM_EVT_STORE_METADATA_IN_BUFS (P_storeMetaDataInBuffers n)"
| "previewStopped_control E (DUMP n) = call_and_signal E QCAMERA_SM_EVT_DUMP (P_dump n)"
| "previewStopped_control E (SEND_COMMAND c) = do_sendCommand E c"
| "previewStopped_control E (RELEASE_RECORIDNG_FRAME p) = do {
     call E (P_closeNativeHandle p);
     invalid_operation E QCAMERA_SM_EVT_RELEASE_RECORIDNG_FRAME }"
| "previewStopped_control E START_RECORDING = invalid_operation E QCAMERA_SM_EVT_START_RECORDING"
| "previewStopped_control E STOP_RECORDING = invalid_operation E QCAMERA_SM_EVT_STOP_RECORDING"
| "previewStopped_control E PREPARE_SNAPSHOT = invalid_operation E QCAMERA_SM_EVT_PREPARE_SNAPSHOT"
| "previewStopped_control E TAKE_PICTURE = invalid_operation E QCAMERA_SM_EVT_TAKE_PICTURE"
| "previewStopped_control E START_AUTO_FOCUS = signal_def E QCAMERA_SM_EVT_START_AUTO_FOCUS NO_ERROR"
| "previewStopped_control E CANCEL_PICTURE = signal_def E QCAMERA_SM_EVT_CANCEL_PICTURE NO_ERROR"
| "previewStopped_control E STOP_AUTO_FOCUS =
     call_and_signal E QCAMERA_SM_EVT_STOP_AUTO_FOCUS P_cancelAutoFocus"
| "previewStopped_control E e = previewStopped_events E e"

fun procEvtPreviewStoppedState :: "'h penv \<Rightarrow> sm_event \<Rightarrow> ('h, int32) sm_prog" where
  "procEvtPreviewStoppedState E (SET_PREVIEW_WINDOW w) =
     call_and_signal E QCAMERA_SM_EVT_SET_PREVIEW_WINDOW (P_setPreviewWindow w)"
| "procEvtPreviewStoppedState E (SET_CALLBACKS cb) =
     call_and_signal E QCAMERA_SM_EVT_SET_CALLBACKS (P_setCallBacks cb)"
| "procEvtPreviewStoppedState E (ENABLE_MSG_TYPE n) =
     call_and_signal E QCAMERA_SM_EVT_ENABLE_MSG_TYPE (P_enableMsgType n)"
| "procEvtPreviewStoppedState E (DISABLE_MSG_TYPE n) =
     call_and_signal E QCAMERA_SM_EVT_DISABLE_MSG_TYPE (P_disableMsgType n)"
| "procEvtPreviewStoppedState E (MSG_TYPE_ENABLED n) = do_msgTypeEnabled E n"
| "procEvtPreviewStoppedState E (SET_PARAMS p) = do {
     r \<leftarrow> parent E (P_updateParameters p);
     only_if (r_flag r) (call E P_memoryPool_clear);
     rc \<leftarrow> (if r_rc r = NO_ERROR then call_rc E P_commitParameterChanges
           else State_Monad.return (r_rc r));
     signal_def E QCAMERA_SM_EVT_SET_PARAMS rc }"
| "procEvtPreviewStoppedState E GET_PARAMS = do_getParameters E"
| "procEvtPreviewStoppedState E (PUT_PARAMS p) =
     call_and_signal E QCAMERA_SM_EVT_PUT_PARAMS (P_putParameters p)"
| "procEvtPreviewStoppedState E START_PREVIEW = do {
     w \<leftarrow> call_addr E P_mPreviewWindow;
     rc \<leftarrow> (if w = NULL then do {
              rc \<leftarrow> call_rc E P_preparePreview;
              only_if (rc = NO_ERROR) (set_m_state QCAMERA_SM_STATE_PREVIEW_READY);
              State_Monad.return rc }
            else do {
              rc \<leftarrow> prepare_and_start E;
              only_if (rc = NO_ERROR) (set_m_state QCAMERA_SM_STATE_PREVIEWING);
              State_Monad.return rc });
     signal_def E QCAMERA_SM_EVT_START_PREVIEW rc }"
| "procEvtPreviewStoppedState E START_NODISPLAY_PREVIEW = do {
     rc \<leftarrow> prepare_and_start E;
     only_if (rc = NO_ERROR) (set_m_state QCAMERA_SM_STATE_PREVIEWING);
     signal_def E QCAMERA_SM_EVT_START_NODISPLAY_PREVIEW rc }"
| "procEvtPreviewStoppedState E e = previewStopped_control E e"

section \<open>QCAMERA_SM_STATE_PREVIEW_READY\<close>

fun previewReady_events :: "'h penv \<Rightarrow> sm_event \<Rightarrow> ('h, int32) sm_prog" where
  "previewReady_events E (RELEASE_RECORIDNG_FRAME p) = do {
     call E (P_closeNativeHandle p);
     invalid_operation E QCAMERA_SM_EVT_RELEASE_RECORIDNG_FRAME }"
| "previewReady_events E START_NODISPLAY_PREVIEW =
     invalid_operation E QCAMERA_SM_EVT_START_NODISPLAY_PREVIEW"
| "previewReady_events E START_RECORDING = invalid_operation E QCAMERA_SM_EVT_START_RECORDING"
| "previewReady_events E STOP_RECORDING = invalid_operation E QCAMERA_SM_EVT_STOP_RECORDING"
| "previewReady_events E PREPARE_SNAPSHOT = invalid_operation E QCAMERA_SM_EVT_PREPARE_SNAPSHOT"
| "previewReady_events E TAKE_PICTURE = invalid_operation E QCAMERA_SM_EVT_TAKE_PICTURE"
| "previewReady_events E CANCEL_PICTURE = invalid_operation E QCAMERA_SM_EVT_CANCEL_PICTURE"
| "previewReady_events E RELEASE = invalid_operation E QCAMERA_SM_EVT_RELEASE"
| "previewReady_events E (EVT_NOTIFY t) = do {
     only_if (t = CAM_EVENT_TYPE_DAEMON_DIED) (notify_server_died E);
     State_Monad.return NO_ERROR }"
| "previewReady_events E SNAPSHOT_DONE = signal_evt E QCAMERA_SM_EVT_SNAPSHOT_DONE NO_ERROR"
| "previewReady_events E (THERMAL_NOTIFY l) =
     call_and_signal E QCAMERA_SM_EVT_THERMAL_NOTIFY (P_updateThermalLevel l)"
| "previewReady_events E e = State_Monad.return NO_ERROR"

fun previewReady_control :: "'h penv \<Rightarrow> sm_event \<Rightarrow> ('h, int32) sm_prog" where
  "previewReady_control E START_PREVIEW = signal_def E QCAMERA_SM_EVT_START_PREVIEW NO_ERROR"
| "previewReady_control E STOP_PREVIEW = do {
     call E P_unpreparePreview;
     set_m_state QCAMERA_SM_STATE_PREVIEW_STOPPED;
     signal_def E QCAMERA_SM_EVT_STOP_PREVIEW 0 }"
| "previewReady_control E PREVIEW_ENABLED = signal_enabled E QCAMERA_SM_EVT_PREVIEW_ENABLED 1"
| "previewReady_control E RECORDING_ENABLED = signal_enabled E QCAMERA_SM_EVT_RECORDING_ENABLED 0"
| "previewReady_control E (STORE_METADATA_IN_BUFS n) =
     call_and_signal E QCAMERA_SM_EVT_STORE_METADATA_IN_BUFS (P_storeMetaDataInBuffers n)"
| "previewReady_control E (DUMP n) = call_and_signal E QCAMERA_SM_EVT_DUMP (P_dump n)"
| "previewReady_control E START_AUTO_FOCUS =
     call_and_signal E QCAMERA_SM_EVT_START_AUTO_FOCUS P_autoFocus"
| "previewReady_control E STOP_AUTO_FOCUS =
     call_and_signal E QCAMERA_SM_EVT_STOP_AUTO_FOCUS P_cancelAutoFocus"
| "previewReady_control E (SEND_COMMAND c) = do_sendCommand E c"
| "previewReady_control E (REG_FACE_IMAGE p) = do_registerFaceImage E p"
| "previewReady_control E e = previewReady_events E e"

fun procEvtPreviewReadyState :: "'h penv \<Rightarrow> sm_event \<Rightarrow> ('h, int32) sm_prog" where
  "procEvtPreviewReadyState E (SET_PREVIEW_WINDOW w) = do {
     call E (P_setPreviewWindow w);
     w' \<leftarrow> call_addr E P_mPreviewWindow;
     rc \<leftarrow> (if w' \<noteq> NULL then do {
              rc \<leftarrow> call_rc E P_startPreview;
              (if rc \<noteq> NO_ERROR then do {
                 call E P_unpreparePreview;
                 set_m_state QCAMERA_SM_STATE_PREVIEW_STOPPED }
               else set_m_state QCAMERA_SM_STATE_PREVIEWING);
              State_Monad.return rc }
            else State_Monad.return NO_ERROR);
     signal_def E QCAMERA_SM_EVT_SET_PREVIEW_WINDOW rc }"
| "procEvtPreviewReadyState E (SET_CALLBACKS cb) =
     call_and_signal E QCAMERA_SM_EVT_SET_CALLBACKS (P_setCallBacks cb)"
| "procEvtPreviewReadyState E (ENABLE_MSG_TYPE n) =
     call_and_signal E QCAMERA_SM_EVT_ENABLE_MSG_TYPE (P_enableMsgType n)"
| "procEvtPreviewReadyState E (DISABLE_MSG_TYPE n) =
     call_and_signal E QCAMERA_SM_EVT_DISABLE_MSG_TYPE (P_disableMsgType n)"
| "procEvtPreviewReadyState E (MSG_TYPE_ENABLED n) = do_msgTypeEnabled E n"
| "procEvtPreviewReadyState E (SET_PARAMS p) = do {
     r \<leftarrow> parent E (P_updateParameters p);
     rc \<leftarrow> (if r_rc r = NO_ERROR then
              (if r_flag r then do {
                 call E P_unpreparePreview;
                 call E P_memoryPool_clear;
                 call E P_commitParameterChanges;
                 rc \<leftarrow> call_rc E P_preparePreview;
                 only_if (rc \<noteq> NO_ERROR) (set_m_state QCAMERA_SM_STATE_PREVIEW_STOPPED);
                 State_Monad.return rc }
               else call_rc E P_commitParameterChanges)
            else State_Monad.return (r_rc r));
     signal_def E QCAMERA_SM_EVT_SET_PARAMS rc }"
| "procEvtPreviewReadyState E GET_PARAMS = do_getParameters E"
| "procEvtPreviewReadyState E (PUT_PARAMS p) =
     call_and_signal E QCAMERA_SM_EVT_PUT_PARAMS (P_putParameters p)"
| "procEvtPreviewReadyState E e = previewReady_control E e"

section \<open>QCAMERA_SM_STATE_PREVIEWING\<close>

fun previewing_internal :: "'h penv \<Rightarrow> qcamera_sm_internal_evt_payload_t \<Rightarrow> ('h, int32) sm_prog"
where
  "previewing_internal E (QCAMERA_INTERNAL_EVT_FOCUS_UPDATE d) = call_rc E (P_processAutoFocusEvent d)"
| "previewing_internal E (QCAMERA_INTERNAL_EVT_PREP_SNAPSHOT_DONE d) = State_Monad.return NO_ERROR"
| "previewing_internal E (QCAMERA_INTERNAL_EVT_FACE_DETECT_RESULT d) =
     call_rc E (P_processFaceDetectionResult d)"
| "previewing_internal E (QCAMERA_INTERNAL_EVT_HISTOGRAM_STATS d) =
     call_rc E (P_processHistogramStats d)"
| "previewing_internal E (QCAMERA_INTERNAL_EVT_CROP_INFO d) = call_rc E (P_processZoomEvent d)"
| "previewing_internal E (QCAMERA_INTERNAL_EVT_ASD_UPDATE d) = call_rc E (P_processASDUpdate d)"
| "previewing_internal E (QCAMERA_INTERNAL_EVT_AWB_UPDATE d) = call_rc E (P_processAWBUpdate d)"
| "previewing_internal E (QCAMERA_INTERNAL_EVT_AE_UPDATE d) = call_rc E (P_processAEInfo d)"
| "previewing_internal E (QCAMERA_INTERNAL_EVT_FOCUS_POS_UPDATE d) =
     call_rc E (P_processFocusPositionInfo d)"
| "previewing_internal E QCAMERA_INTERNAL_EVT_MAX = State_Monad.return NO_ERROR"

fun previewing_events :: "'h penv \<Rightarrow> sm_event \<Rightarrow> ('h, int32) sm_prog" where
  "previewing_events E (REG_FACE_IMAGE p) = do_registerFaceImage E p"
| "previewing_events E (RELEASE_RECORIDNG_FRAME p) = do {
     call E (P_closeNativeHandle p);
     invalid_operation E QCAMERA_SM_EVT_RELEASE_RECORIDNG_FRAME }"
| "previewing_events E RELEASE = invalid_operation E QCAMERA_SM_EVT_RELEASE"
| "previewing_events E CANCEL_PICTURE = signal_def E QCAMERA_SM_EVT_CANCEL_PICTURE NO_ERROR"
| "previewing_events E STOP_RECORDING = signal_def E QCAMERA_SM_EVT_STOP_RECORDING NO_ERROR"
| "previewing_events E (EVT_INTERNAL i) = previewing_internal E i"
| "previewing_events E (EVT_NOTIFY t) = do {
     only_if (t = CAM_EVENT_TYPE_DAEMON_DIED) (notify_server_died E);
     State_Monad.return NO_ERROR }"
| "previewing_events E (THERMAL_NOTIFY l) =
     call_and_signal E QCAMERA_SM_EVT_THERMAL_NOTIFY (P_updateThermalLevel l)"
| "previewing_events E SNAPSHOT_DONE = signal_evt E QCAMERA_SM_EVT_SNAPSHOT_DONE NO_ERROR"
| "previewing_events E e = State_Monad.return NO_ERROR"

text \<open>\<^verbatim>\<open>isZSLMode() || isLongshotEnabled()\<close>, the second call made only when the first says no.\<close>

definition zsl_or_longshot :: "'h penv \<Rightarrow> ('h, bool) sm_prog" where
  [sm_body]: "zsl_or_longshot E = do {
     zsl \<leftarrow> call_flag E P_isZSLMode;
     if zsl then State_Monad.return True else call_flag E P_isLongshotEnabled }"

text \<open>
  \<^verbatim>\<open>TAKE_PICTURE\<close>: the result of the restart that drops the recording hint is overwritten by
  \<^verbatim>\<open>takePicture\<close>. \<^verbatim>\<open>SEND_COMMAND\<close>: \<^verbatim>\<open>sendCommand\<close> takes \<^verbatim>\<open>arg1\<close> by reference, so the test after it
  reads the value the call left there.
\<close>

definition previewing_takePicture :: "'h penv \<Rightarrow> ('h, int32) sm_prog" where
  [sm_body]: "previewing_takePicture E = do {
     hint \<leftarrow> call_flag E P_getRecordingHintValue;
     only_if hint (do {
       call E P_stopPreview;
       call E (P_updateRecordingHintValue False);
       _ \<leftarrow> prepare_and_start E;
       State_Monad.return () });
     b \<leftarrow> zsl_or_longshot E;
     rc \<leftarrow> (if b then do {
              set_m_state QCAMERA_SM_STATE_PREVIEW_PIC_TAKING;
              rc \<leftarrow> call_rc E P_takePicture;
              only_if (rc \<noteq> NO_ERROR) (set_m_state QCAMERA_SM_STATE_PREVIEWING);
              State_Monad.return rc }
            else do {
              set_m_state QCAMERA_SM_STATE_PIC_TAKING;
              rc \<leftarrow> call_rc E P_takePicture;
              only_if (rc \<noteq> NO_ERROR) (set_m_state QCAMERA_SM_STATE_PREVIEW_STOPPED);
              State_Monad.return rc });
     signal_def E QCAMERA_SM_EVT_TAKE_PICTURE rc }"

definition previewing_sendCommand ::
    "'h penv \<Rightarrow> qcamera_sm_evt_command_payload_t \<Rightarrow> ('h, int32) sm_prog" where
  [sm_body]: "previewing_sendCommand E c = do {
     r \<leftarrow> parent E (P_sendCommand (cmd c) (arg1 c) (arg2 c));
     rc \<leftarrow> (if \<not> VANILLA_HAL E \<and> cmd c = CAMERA_CMD_LONGSHOT_ON E
              \<and> r_out r = evt_value QCAMERA_SM_EVT_RESTART_PERVIEW
            then do {
              call E P_stopPreview;
              call E P_memoryPool_clear;
              prepare_and_start E }
            else State_Monad.return (r_rc r));
     signal_def E QCAMERA_SM_EVT_SEND_COMMAND rc }"

fun previewing_control :: "'h penv \<Rightarrow> sm_event \<Rightarrow> ('h, int32) sm_prog" where
  "previewing_control E STOP_PREVIEW = do {
     rc \<leftarrow> call_rc E P_stopPreview;
     set_m_state QCAMERA_SM_STATE_PREVIEW_STOPPED;
     signal_def E QCAMERA_SM_EVT_STOP_PREVIEW rc }"
| "previewing_control E PREVIEW_ENABLED = signal_enabled E QCAMERA_SM_EVT_PREVIEW_ENABLED 1"
| "previewing_control E RECORDING_ENABLED = signal_enabled E QCAMERA_SM_EVT_RECORDING_ENABLED 0"
| "previewing_control E (STORE_METADATA_IN_BUFS n) =
     call_and_signal E QCAMERA_SM_EVT_STORE_METADATA_IN_BUFS (P_storeMetaDataInBuffers n)"
| "previewing_control E (DUMP n) = call_and_signal E QCAMERA_SM_EVT_DUMP (P_dump n)"
| "previewing_control E START_AUTO_FOCUS =
     call_and_signal E QCAMERA_SM_EVT_START_AUTO_FOCUS P_autoFocus"
| "previewing_control E STOP_AUTO_FOCUS =
     call_and_signal E QCAMERA_SM_EVT_STOP_AUTO_FOCUS P_cancelAutoFocus"
| "previewing_control E START_RECORDING = do {
     rc \<leftarrow> call_rc E P_startRecording;
     only_if (rc = NO_ERROR) (set_m_state QCAMERA_SM_STATE_RECORDING);
     signal_def E QCAMERA_SM_EVT_START_RECORDING rc }"
| "previewing_control E PREPARE_SNAPSHOT = do {
     rc \<leftarrow> call_rc E (P_prepareHardwareForSnapshot False);
     if rc = NO_ERROR then do {
       set_m_state QCAMERA_SM_STATE_PREPARE_SNAPSHOT;
       State_Monad.return rc }
     else signal_def E QCAMERA_SM_EVT_PREPARE_SNAPSHOT rc }"
| "previewing_control E TAKE_PICTURE = previewing_takePicture E"
| "previewing_control E (SEND_COMMAND c) = previewing_sendCommand E c"
| "previewing_control E e = previewing_events E e"

text \<open>The restart of the preview when new parameters need one, in the states that preview.\<close>

definition setParams_with_restart ::
    "'h penv \<Rightarrow> qcamera_state_enum_t \<Rightarrow> ptr \<Rightarrow> ('h, int32) sm_prog" where
  [sm_body]: "setParams_with_restart E q p = do {
     r \<leftarrow> parent E (P_updateParameters p);
     rc \<leftarrow> (if r_rc r = NO_ERROR then
              (if r_flag r then do {
                 call E P_stopPreview;
                 call E P_memoryPool_clear;
                 call E P_commitParameterChanges;
                 rc \<leftarrow> prepare_and_start E;
                 only_if (rc \<noteq> NO_ERROR) (set_m_state q);
                 State_Monad.return rc }
               else call_rc E P_commitParameterChanges)
            else State_Monad.return (r_rc r));
     signal_def E QCAMERA_SM_EVT_SET_PARAMS rc }"

fun procEvtPreviewingState :: "'h penv \<Rightarrow> sm_event \<Rightarrow> ('h, int32) sm_prog" where
  "procEvtPreviewingState E (SET_PREVIEW_WINDOW w) =
     invalid_operation E QCAMERA_SM_EVT_SET_PREVIEW_WINDOW"
| "procEvtPreviewingState E (SET_CALLBACKS cb) =
     call_and_signal E QCAMERA_SM_EVT_SET_CALLBACKS (P_setCallBacks cb)"
| "procEvtPreviewingState E (ENABLE_MSG_TYPE n) =
     call_and_signal E QCAMERA_SM_EVT_ENABLE_MSG_TYPE (P_enableMsgType n)"
| "procEvtPreviewingState E (DISABLE_MSG_TYPE n) =
     call_and_signal E QCAMERA_SM_EVT_DISABLE_MSG_TYPE (P_disableMsgType n)"
| "procEvtPreviewingState E (MSG_TYPE_ENABLED n) = do_msgTypeEnabled E n"
| "procEvtPreviewingState E (SET_PARAMS p) =
     setParams_with_restart E QCAMERA_SM_STATE_PREVIEW_STOPPED p"
| "procEvtPreviewingState E GET_PARAMS = do_getParameters E"
| "procEvtPreviewingState E (PUT_PARAMS p) =
     call_and_signal E QCAMERA_SM_EVT_PUT_PARAMS (P_putParameters p)"
| "procEvtPreviewingState E START_PREVIEW = signal_def E QCAMERA_SM_EVT_START_PREVIEW NO_ERROR"
| "procEvtPreviewingState E START_NODISPLAY_PREVIEW =
     signal_def E QCAMERA_SM_EVT_START_NODISPLAY_PREVIEW NO_ERROR"
| "procEvtPreviewingState E e = previewing_control E e"

end
