(* ===== verification/SmCapture.thy ===== *)
theory SmCapture
  imports SmPreview
begin

text \<open>
  The handlers of the state machine while a picture is prepared or taken:
  \<^verbatim>\<open>procEvtPrepareSnapshotState\<close> and \<^verbatim>\<open>procEvtPicTakingState\<close> of
  \<^verbatim>\<open>QCameraStateMachine.cpp\<close>,
  in the style of \<open>SmPreview\<close>.
\<close>

section \<open>QCAMERA_SM_STATE_PREPARE_SNAPSHOT\<close>

fun prepareSnapshot_internal :: "'h penv \<Rightarrow> qcamera_sm_internal_evt_payload_t \<Rightarrow> ('h, int32) sm_prog"
where
  "prepareSnapshot_internal E (QCAMERA_INTERNAL_EVT_FOCUS_UPDATE d) =
     call_rc E (P_processAutoFocusEvent d)"
| "prepareSnapshot_internal E (QCAMERA_INTERNAL_EVT_PREP_SNAPSHOT_DONE d) = do {
     call E (P_processPrepSnapshotDoneEvent d);
     set_m_state QCAMERA_SM_STATE_PREVIEWING;
     signal_def E QCAMERA_SM_EVT_PREPARE_SNAPSHOT NO_ERROR }"
| "prepareSnapshot_internal E (QCAMERA_INTERNAL_EVT_FACE_DETECT_RESULT d) =
     call_rc E (P_processFaceDetectionResult d)"
| "prepareSnapshot_internal E (QCAMERA_INTERNAL_EVT_HISTOGRAM_STATS d) =
     call_rc E (P_processHistogramStats d)"
| "prepareSnapshot_internal E (QCAMERA_INTERNAL_EVT_CROP_INFO d) = call_rc E (P_processZoomEvent d)"
| "prepareSnapshot_internal E (QCAMERA_INTERNAL_EVT_ASD_UPDATE d) = call_rc E (P_processASDUpdate d)"
| "prepareSnapshot_internal E (QCAMERA_INTERNAL_EVT_AWB_UPDATE d) = call_rc E (P_processAWBUpdate d)"
| "prepareSnapshot_internal E (QCAMERA_INTERNAL_EVT_AE_UPDATE d) = call_rc E (P_processAEInfo d)"
| "prepareSnapshot_internal E (QCAMERA_INTERNAL_EVT_FOCUS_POS_UPDATE d) =
     call_rc E (P_processFocusPositionInfo d)"
| "prepareSnapshot_internal E QCAMERA_INTERNAL_EVT_MAX = State_Monad.return NO_ERROR"

fun prepareSnapshot_events :: "'h penv \<Rightarrow> sm_event \<Rightarrow> ('h, int32) sm_prog" where
  "prepareSnapshot_events E (EVT_INTERNAL i) = prepareSnapshot_internal E i"
| "prepareSnapshot_events E (EVT_NOTIFY t) = do {
     only_if (t = CAM_EVENT_TYPE_DAEMON_DIED) (notify_server_died E);
     State_Monad.return NO_ERROR }"
| "prepareSnapshot_events E SNAPSHOT_DONE = signal_evt E QCAMERA_SM_EVT_SNAPSHOT_DONE NO_ERROR"
| "prepareSnapshot_events E (THERMAL_NOTIFY l) =
     call_and_signal E QCAMERA_SM_EVT_THERMAL_NOTIFY (P_updateThermalLevel l)"
| "prepareSnapshot_events E e = State_Monad.return NO_ERROR"

text \<open>
  The API events this state rejects. The list of the source has no
  \<^verbatim>\<open>QCAMERA_SM_EVT_REG_FACE_IMAGE\<close>: that event reaches the default case.
\<close>

fun prepareSnapshot_rejects :: "sm_event \<Rightarrow> bool" where
  "prepareSnapshot_rejects (REG_FACE_IMAGE p) = False"
| "prepareSnapshot_rejects (EVT_INTERNAL i) = False"
| "prepareSnapshot_rejects (EVT_NOTIFY t) = False"
| "prepareSnapshot_rejects (JPEG_EVT_NOTIFY j) = False"
| "prepareSnapshot_rejects SNAPSHOT_DONE = False"
| "prepareSnapshot_rejects (THERMAL_NOTIFY l) = False"
| "prepareSnapshot_rejects STOP_CAPTURE_CHANNEL = False"
| "prepareSnapshot_rejects RESTART_PERVIEW = False"
| "prepareSnapshot_rejects EVT_MAX = False"
| "prepareSnapshot_rejects e = True"

definition procEvtPrepareSnapshotState :: "'h penv \<Rightarrow> sm_event \<Rightarrow> ('h, int32) sm_prog" where
  "procEvtPrepareSnapshotState E e =
     (if prepareSnapshot_rejects e then invalid_operation E (evt_code e)
      else prepareSnapshot_events E e)"

section \<open>QCAMERA_SM_STATE_PIC_TAKING\<close>

fun picTaking_internal :: "'h penv \<Rightarrow> qcamera_sm_internal_evt_payload_t \<Rightarrow> ('h, int32) sm_prog"
where
  "picTaking_internal E (QCAMERA_INTERNAL_EVT_FOCUS_UPDATE d) = call_rc E (P_processAutoFocusEvent d)"
| "picTaking_internal E (QCAMERA_INTERNAL_EVT_CROP_INFO d) = call_rc E (P_processZoomEvent d)"
| "picTaking_internal E (QCAMERA_INTERNAL_EVT_ASD_UPDATE d) = call_rc E (P_processASDUpdate d)"
| "picTaking_internal E (QCAMERA_INTERNAL_EVT_AWB_UPDATE d) = call_rc E (P_processAWBUpdate d)"
| "picTaking_internal E (QCAMERA_INTERNAL_EVT_AE_UPDATE d) = call_rc E (P_processAEInfo d)"
| "picTaking_internal E (QCAMERA_INTERNAL_EVT_FOCUS_POS_UPDATE d) =
     call_rc E (P_processFocusPositionInfo d)"
| "picTaking_internal E i = State_Monad.return NO_ERROR"

text \<open>A reprocessing stage finished during a longshot.\<close>

definition reprocess_stage_done :: "'h penv \<Rightarrow> ('h, unit) sm_prog" where
  [sm_body]: "reprocess_stage_done E = do {
     longshot \<leftarrow> call_flag E P_isLongshotEnabled;
     only_if longshot (do {
       stages \<leftarrow> call_flag E P_getMultipleStages;
       only_if (\<not> stages) (call E (P_setMultipleStages True));
       call E P_playShutter }) }"

definition notify_capture :: "'h penv \<Rightarrow> cam_event_type_t \<Rightarrow> ('h, int32) sm_prog" where
  [sm_body]: "notify_capture E t = do {
     (if t = CAM_EVENT_TYPE_REPROCESS_STAGE_DONE then reprocess_stage_done E
      else only_if (t = CAM_EVENT_TYPE_DAEMON_DIED) (notify_server_died E));
     State_Monad.return NO_ERROR }"

fun picTaking_events :: "'h penv \<Rightarrow> sm_event \<Rightarrow> ('h, int32) sm_prog" where
  "picTaking_events E (EVT_INTERNAL i) = picTaking_internal E i"
| "picTaking_events E (EVT_NOTIFY t) = notify_capture E t"
| "picTaking_events E (JPEG_EVT_NOTIFY j) = call_rc E (P_processJpegNotify j)"
| "picTaking_events E STOP_CAPTURE_CHANNEL = do {
     restartPreview \<leftarrow> call_flag E P_isPreviewRestartEnabled;
     rc \<leftarrow> call_rc E (P_stopCaptureChannel restartPreview);
     if restartPreview \<and> rc = NO_ERROR then do {
       call E P_unconfigureAdvancedCapture;
       rc \<leftarrow> call_rc E P_preparePreview;
       if rc = NO_ERROR then do {
         call E (P_set_m_bPreviewStarted True);
         call_rc E P_startPreview }
       else State_Monad.return rc }
     else State_Monad.return rc }"
| "picTaking_events E SNAPSHOT_DONE = do {
     rc \<leftarrow> call_rc E P_cancelPicture;
     restartPreview \<leftarrow> call_flag E P_isPreviewRestartEnabled;
     set_m_state (if restartPreview then QCAMERA_SM_STATE_PREVIEWING
                  else QCAMERA_SM_STATE_PREVIEW_STOPPED);
     signal_evt E QCAMERA_SM_EVT_SNAPSHOT_DONE rc }"
| "picTaking_events E (THERMAL_NOTIFY l) =
     call_and_signal E QCAMERA_SM_EVT_THERMAL_NOTIFY (P_updateThermalLevel l)"
| "picTaking_events E e = State_Monad.return NO_ERROR"

definition longShot_or_invalid :: "'h penv \<Rightarrow> ('h, int32) sm_prog" where
  [sm_body]: "longShot_or_invalid E = do {
     longshot \<leftarrow> call_flag E P_isLongshotEnabled;
     rc \<leftarrow> (if longshot then call_rc E P_longShot else State_Monad.return INVALID_OPERATION);
     signal_def E QCAMERA_SM_EVT_TAKE_PICTURE rc }"

text \<open>Leaving longshot from a capture state moves to previewing whatever \<^verbatim>\<open>sendCommand\<close> returned.\<close>

definition sendCommand_longshot_off ::
    "'h penv \<Rightarrow> qcamera_sm_evt_command_payload_t \<Rightarrow> ('h, int32) sm_prog" where
  [sm_body]: "sendCommand_longshot_off E c = do {
     rc \<leftarrow> call_rc E (P_sendCommand (cmd c) (arg1 c) (arg2 c));
     only_if (\<not> VANILLA_HAL E \<and> cmd c = CAMERA_CMD_LONGSHOT_OFF E)
       (set_m_state QCAMERA_SM_STATE_PREVIEWING);
     signal_def E QCAMERA_SM_EVT_SEND_COMMAND rc }"

fun picTaking_control :: "'h penv \<Rightarrow> sm_event \<Rightarrow> ('h, int32) sm_prog" where
  "picTaking_control E (STORE_METADATA_IN_BUFS n) =
     call_and_signal E QCAMERA_SM_EVT_STORE_METADATA_IN_BUFS (P_storeMetaDataInBuffers n)"
| "picTaking_control E (DUMP n) = call_and_signal E QCAMERA_SM_EVT_DUMP (P_dump n)"
| "picTaking_control E START_AUTO_FOCUS =
     call_and_signal E QCAMERA_SM_EVT_START_AUTO_FOCUS P_autoFocus"
| "picTaking_control E STOP_AUTO_FOCUS =
     call_and_signal E QCAMERA_SM_EVT_STOP_AUTO_FOCUS P_cancelAutoFocus"
| "picTaking_control E (SEND_COMMAND c) = sendCommand_longshot_off E c"
| "picTaking_control E CANCEL_PICTURE = do {
     rc \<leftarrow> call_rc E P_cancelPicture;
     set_m_state QCAMERA_SM_STATE_PREVIEW_STOPPED;
     signal_def E QCAMERA_SM_EVT_CANCEL_PICTURE rc }"
| "picTaking_control E (REG_FACE_IMAGE p) = do_registerFaceImage E p"
| "picTaking_control E TAKE_PICTURE = longShot_or_invalid E"
| "picTaking_control E PREPARE_SNAPSHOT = invalid_operation E QCAMERA_SM_EVT_PREPARE_SNAPSHOT"
| "picTaking_control E START_RECORDING = invalid_operation E QCAMERA_SM_EVT_START_RECORDING"
| "picTaking_control E STOP_RECORDING = invalid_operation E QCAMERA_SM_EVT_STOP_RECORDING"
| "picTaking_control E (RELEASE_RECORIDNG_FRAME p) =
     invalid_operation E QCAMERA_SM_EVT_RELEASE_RECORIDNG_FRAME"
| "picTaking_control E START_PREVIEW = invalid_operation E QCAMERA_SM_EVT_START_PREVIEW"
| "picTaking_control E START_NODISPLAY_PREVIEW =
     invalid_operation E QCAMERA_SM_EVT_START_NODISPLAY_PREVIEW"
| "picTaking_control E RELEASE = invalid_operation E QCAMERA_SM_EVT_RELEASE"
| "picTaking_control E e = picTaking_events E e"

fun procEvtPicTakingState :: "'h penv \<Rightarrow> sm_event \<Rightarrow> ('h, int32) sm_prog" where
  "procEvtPicTakingState E (SET_PREVIEW_WINDOW w) =
     invalid_operation E QCAMERA_SM_EVT_SET_PREVIEW_WINDOW"
| "procEvtPicTakingState E (SET_CALLBACKS cb) =
     call_and_signal E QCAMERA_SM_EVT_SET_CALLBACKS (P_setCallBacks cb)"
| "procEvtPicTakingState E (ENABLE_MSG_TYPE n) =
     call_and_signal E QCAMERA_SM_EVT_ENABLE_MSG_TYPE (P_enableMsgType n)"
| "procEvtPicTakingState E (DISABLE_MSG_TYPE n) =
     call_and_signal E QCAMERA_SM_EVT_DISABLE_MSG_TYPE (P_disableMsgType n)"
| "procEvtPicTakingState E (MSG_TYPE_ENABLED n) = do_msgTypeEnabled E n"
| "procEvtPicTakingState E (SET_PARAMS p) = do {
     rc \<leftarrow> call_rc E (P_updateParameters p);
     rc \<leftarrow> (if rc = NO_ERROR then call_rc E P_commitParameterChanges
            else State_Monad.return rc);
     signal_def E QCAMERA_SM_EVT_SET_PARAMS rc }"
| "procEvtPicTakingState E GET_PARAMS = do_getParameters E"
| "procEvtPicTakingState E (PUT_PARAMS p) =
     call_and_signal E QCAMERA_SM_EVT_PUT_PARAMS (P_putParameters p)"
| "procEvtPicTakingState E STOP_PREVIEW = do {
     rc \<leftarrow> call_rc E P_cancelPicture;
     set_m_state QCAMERA_SM_STATE_PREVIEW_STOPPED;
     signal_def E QCAMERA_SM_EVT_STOP_PREVIEW rc }"
| "procEvtPicTakingState E PREVIEW_ENABLED = signal_enabled E QCAMERA_SM_EVT_PREVIEW_ENABLED 0"
| "procEvtPicTakingState E RECORDING_ENABLED = signal_enabled E QCAMERA_SM_EVT_RECORDING_ENABLED 0"
| "procEvtPicTakingState E e = picTaking_control E e"

end
