(* ===== verification/SmRecording.thy ===== *)
theory SmRecording
  imports SmCapture
begin

text \<open>
  The handlers of the state machine while a video is recorded or a picture is taken without
  stopping the preview: \<^verbatim>\<open>procEvtRecordingState\<close>, \<^verbatim>\<open>procEvtVideoPicTakingState\<close> and
  \<^verbatim>\<open>procEvtPreviewPicTakingState\<close> of \<^verbatim>\<open>QCameraStateMachine.cpp\<close>, in the style of \<open>SmPreview\<close>.
  The internal events are handled in these three states as in \<^verbatim>\<open>procEvtPreviewingState\<close>.
\<close>

section \<open>QCAMERA_SM_STATE_RECORDING\<close>

fun recording_events :: "'h penv \<Rightarrow> sm_event \<Rightarrow> ('h, int32) sm_prog" where
  "recording_events E (REG_FACE_IMAGE p) = do_registerFaceImage E p"
| "recording_events E PREPARE_SNAPSHOT = signal_def E QCAMERA_SM_EVT_PREPARE_SNAPSHOT NO_ERROR"
| "recording_events E CANCEL_PICTURE = invalid_operation E QCAMERA_SM_EVT_CANCEL_PICTURE"
| "recording_events E START_NODISPLAY_PREVIEW =
     invalid_operation E QCAMERA_SM_EVT_START_NODISPLAY_PREVIEW"
| "recording_events E RELEASE = invalid_operation E QCAMERA_SM_EVT_RELEASE"
| "recording_events E (EVT_INTERNAL i) = previewing_internal E i"
| "recording_events E (EVT_NOTIFY t) = do {
     only_if (t = CAM_EVENT_TYPE_DAEMON_DIED) (notify_server_died E);
     State_Monad.return NO_ERROR }"
| "recording_events E (THERMAL_NOTIFY l) =
     call_and_signal E QCAMERA_SM_EVT_THERMAL_NOTIFY (P_updateThermalLevel l)"
| "recording_events E SNAPSHOT_DONE = signal_evt E QCAMERA_SM_EVT_SNAPSHOT_DONE NO_ERROR"
| "recording_events E e = State_Monad.return NO_ERROR"

fun recording_control :: "'h penv \<Rightarrow> sm_event \<Rightarrow> ('h, int32) sm_prog" where
  "recording_control E (DUMP n) = call_and_signal E QCAMERA_SM_EVT_DUMP (P_dump n)"
| "recording_control E START_AUTO_FOCUS =
     call_and_signal E QCAMERA_SM_EVT_START_AUTO_FOCUS P_autoFocus"
| "recording_control E STOP_AUTO_FOCUS =
     call_and_signal E QCAMERA_SM_EVT_STOP_AUTO_FOCUS P_cancelAutoFocus"
| "recording_control E (SEND_COMMAND c) = do_sendCommand E c"
| "recording_control E TAKE_PICTURE = do {
     set_m_state QCAMERA_SM_STATE_VIDEO_PIC_TAKING;
     rc \<leftarrow> call_rc E P_takeLiveSnapshot;
     only_if (rc \<noteq> NO_ERROR) (set_m_state QCAMERA_SM_STATE_RECORDING);
     signal_def E QCAMERA_SM_EVT_TAKE_PICTURE rc }"
| "recording_control E START_RECORDING = signal_def E QCAMERA_SM_EVT_START_RECORDING 0"
| "recording_control E STOP_RECORDING = do {
     rc \<leftarrow> call_rc E P_stopRecording;
     set_m_state QCAMERA_SM_STATE_PREVIEWING;
     signal_def E QCAMERA_SM_EVT_STOP_RECORDING rc }"
| "recording_control E STOP_PREVIEW = do {
     call E P_stopRecording;
     set_m_state QCAMERA_SM_STATE_PREVIEWING;
     rc \<leftarrow> call_rc E P_stopPreview;
     set_m_state QCAMERA_SM_STATE_PREVIEW_STOPPED;
     signal_def E QCAMERA_SM_EVT_STOP_PREVIEW rc }"
| "recording_control E (RELEASE_RECORIDNG_FRAME p) =
     call_and_signal E QCAMERA_SM_EVT_RELEASE_RECORIDNG_FRAME (P_releaseRecordingFrame p)"
| "recording_control E e = recording_events E e"

text \<open>Parameters that need a restart are refused while recording.\<close>

definition setParams_no_restart :: "'h penv \<Rightarrow> ptr \<Rightarrow> ('h, int32) sm_prog" where
  [sm_body]: "setParams_no_restart E p = do {
     r \<leftarrow> parent E (P_updateParameters p);
     rc \<leftarrow> (if r_rc r = NO_ERROR then
              (if r_flag r then State_Monad.return BAD_VALUE
               else call_rc E P_commitParameterChanges)
            else State_Monad.return (r_rc r));
     signal_def E QCAMERA_SM_EVT_SET_PARAMS rc }"

fun procEvtRecordingState :: "'h penv \<Rightarrow> sm_event \<Rightarrow> ('h, int32) sm_prog" where
  "procEvtRecordingState E START_PREVIEW = signal_def E QCAMERA_SM_EVT_START_PREVIEW NO_ERROR"
| "procEvtRecordingState E (SET_PREVIEW_WINDOW w) =
     signal_def E QCAMERA_SM_EVT_SET_PREVIEW_WINDOW NO_ERROR"
| "procEvtRecordingState E (SET_CALLBACKS cb) =
     call_and_signal E QCAMERA_SM_EVT_SET_CALLBACKS (P_setCallBacks cb)"
| "procEvtRecordingState E (ENABLE_MSG_TYPE n) =
     call_and_signal E QCAMERA_SM_EVT_ENABLE_MSG_TYPE (P_enableMsgType n)"
| "procEvtRecordingState E (DISABLE_MSG_TYPE n) =
     call_and_signal E QCAMERA_SM_EVT_DISABLE_MSG_TYPE (P_disableMsgType n)"
| "procEvtRecordingState E (MSG_TYPE_ENABLED n) = do_msgTypeEnabled E n"
| "procEvtRecordingState E (SET_PARAMS p) = setParams_no_restart E p"
| "procEvtRecordingState E GET_PARAMS = do_getParameters E"
| "procEvtRecordingState E (PUT_PARAMS p) =
     call_and_signal E QCAMERA_SM_EVT_PUT_PARAMS (P_putParameters p)"
| "procEvtRecordingState E PREVIEW_ENABLED = signal_enabled E QCAMERA_SM_EVT_PREVIEW_ENABLED 0"
| "procEvtRecordingState E RECORDING_ENABLED = signal_enabled E QCAMERA_SM_EVT_RECORDING_ENABLED 1"
| "procEvtRecordingState E (STORE_METADATA_IN_BUFS n) =
     call_and_signal E QCAMERA_SM_EVT_STORE_METADATA_IN_BUFS (P_storeMetaDataInBuffers n)"
| "procEvtRecordingState E e = recording_control E e"

section \<open>QCAMERA_SM_STATE_VIDEO_PIC_TAKING\<close>

fun videoPicTaking_events :: "'h penv \<Rightarrow> sm_event \<Rightarrow> ('h, int32) sm_prog" where
  "videoPicTaking_events E START_RECORDING = invalid_operation E QCAMERA_SM_EVT_START_RECORDING"
| "videoPicTaking_events E START_PREVIEW = invalid_operation E QCAMERA_SM_EVT_START_PREVIEW"
| "videoPicTaking_events E START_NODISPLAY_PREVIEW =
     invalid_operation E QCAMERA_SM_EVT_START_NODISPLAY_PREVIEW"
| "videoPicTaking_events E PREPARE_SNAPSHOT = invalid_operation E QCAMERA_SM_EVT_PREPARE_SNAPSHOT"
| "videoPicTaking_events E TAKE_PICTURE = invalid_operation E QCAMERA_SM_EVT_TAKE_PICTURE"
| "videoPicTaking_events E RELEASE = invalid_operation E QCAMERA_SM_EVT_RELEASE"
| "videoPicTaking_events E (EVT_INTERNAL i) = previewing_internal E i"
| "videoPicTaking_events E (EVT_NOTIFY t) = do {
     only_if (t = CAM_EVENT_TYPE_DAEMON_DIED) (notify_server_died E);
     State_Monad.return NO_ERROR }"
| "videoPicTaking_events E (JPEG_EVT_NOTIFY j) = call_rc E (P_processJpegNotify j)"
| "videoPicTaking_events E SNAPSHOT_DONE = do {
     rc \<leftarrow> call_rc E P_cancelLiveSnapshot;
     set_m_state QCAMERA_SM_STATE_RECORDING;
     signal_evt E QCAMERA_SM_EVT_SNAPSHOT_DONE rc }"
| "videoPicTaking_events E (THERMAL_NOTIFY l) =
     call_and_signal E QCAMERA_SM_EVT_THERMAL_NOTIFY (P_updateThermalLevel l)"
| "videoPicTaking_events E e = State_Monad.return NO_ERROR"

fun videoPicTaking_control :: "'h penv \<Rightarrow> sm_event \<Rightarrow> ('h, int32) sm_prog" where
  "videoPicTaking_control E (DUMP n) = call_and_signal E QCAMERA_SM_EVT_DUMP (P_dump n)"
| "videoPicTaking_control E START_AUTO_FOCUS =
     call_and_signal E QCAMERA_SM_EVT_START_AUTO_FOCUS P_autoFocus"
| "videoPicTaking_control E STOP_AUTO_FOCUS =
     call_and_signal E QCAMERA_SM_EVT_STOP_AUTO_FOCUS P_cancelAutoFocus"
| "videoPicTaking_control E (SEND_COMMAND c) = do_sendCommand E c"
| "videoPicTaking_control E STOP_RECORDING = do {
     call E P_cancelLiveSnapshot;
     set_m_state QCAMERA_SM_STATE_RECORDING;
     rc \<leftarrow> call_rc E P_stopRecording;
     set_m_state QCAMERA_SM_STATE_PREVIEWING;
     signal_def E QCAMERA_SM_EVT_STOP_RECORDING rc }"
| "videoPicTaking_control E (RELEASE_RECORIDNG_FRAME p) =
     call_and_signal E QCAMERA_SM_EVT_RELEASE_RECORIDNG_FRAME (P_releaseRecordingFrame p)"
| "videoPicTaking_control E CANCEL_PICTURE = do {
     rc \<leftarrow> call_rc E P_cancelLiveSnapshot;
     set_m_state QCAMERA_SM_STATE_RECORDING;
     signal_def E QCAMERA_SM_EVT_CANCEL_PICTURE rc }"
| "videoPicTaking_control E (REG_FACE_IMAGE p) = do_registerFaceImage E p"
| "videoPicTaking_control E STOP_PREVIEW = do {
     call E P_cancelLiveSnapshot;
     set_m_state QCAMERA_SM_STATE_RECORDING;
     call E P_stopRecording;
     set_m_state QCAMERA_SM_STATE_PREVIEWING;
     rc \<leftarrow> call_rc E P_stopPreview;
     set_m_state QCAMERA_SM_STATE_PREVIEW_STOPPED;
     signal_def E QCAMERA_SM_EVT_STOP_PREVIEW rc }"
| "videoPicTaking_control E e = videoPicTaking_events E e"

fun procEvtVideoPicTakingState :: "'h penv \<Rightarrow> sm_event \<Rightarrow> ('h, int32) sm_prog" where
  "procEvtVideoPicTakingState E (SET_PREVIEW_WINDOW w) =
     invalid_operation E QCAMERA_SM_EVT_SET_PREVIEW_WINDOW"
| "procEvtVideoPicTakingState E (SET_CALLBACKS cb) =
     call_and_signal E QCAMERA_SM_EVT_SET_CALLBACKS (P_setCallBacks cb)"
| "procEvtVideoPicTakingState E (ENABLE_MSG_TYPE n) =
     call_and_signal E QCAMERA_SM_EVT_ENABLE_MSG_TYPE (P_enableMsgType n)"
| "procEvtVideoPicTakingState E (DISABLE_MSG_TYPE n) =
     call_and_signal E QCAMERA_SM_EVT_DISABLE_MSG_TYPE (P_disableMsgType n)"
| "procEvtVideoPicTakingState E (MSG_TYPE_ENABLED n) = do_msgTypeEnabled E n"
| "procEvtVideoPicTakingState E (SET_PARAMS p) = setParams_no_restart E p"
| "procEvtVideoPicTakingState E GET_PARAMS = do_getParameters E"
| "procEvtVideoPicTakingState E (PUT_PARAMS p) =
     call_and_signal E QCAMERA_SM_EVT_PUT_PARAMS (P_putParameters p)"
| "procEvtVideoPicTakingState E PREVIEW_ENABLED = signal_enabled E QCAMERA_SM_EVT_PREVIEW_ENABLED 1"
| "procEvtVideoPicTakingState E RECORDING_ENABLED =
     signal_enabled E QCAMERA_SM_EVT_RECORDING_ENABLED 1"
| "procEvtVideoPicTakingState E (STORE_METADATA_IN_BUFS n) =
     call_and_signal E QCAMERA_SM_EVT_STORE_METADATA_IN_BUFS (P_storeMetaDataInBuffers n)"
| "procEvtVideoPicTakingState E e = videoPicTaking_control E e"

section \<open>QCAMERA_SM_STATE_PREVIEW_PIC_TAKING\<close>

definition previewPicTaking_cancel :: "'h penv \<Rightarrow> ('h, int32) sm_prog" where
  [sm_body]: "previewPicTaking_cancel E = do {
     b \<leftarrow> zsl_or_longshot E;
     if b then call_rc E P_cancelPicture else call_rc E P_cancelLiveSnapshot }"

fun previewPicTaking_events :: "'h penv \<Rightarrow> sm_event \<Rightarrow> ('h, int32) sm_prog" where
  "previewPicTaking_events E PREPARE_SNAPSHOT = invalid_operation E QCAMERA_SM_EVT_PREPARE_SNAPSHOT"
| "previewPicTaking_events E STOP_RECORDING = invalid_operation E QCAMERA_SM_EVT_STOP_RECORDING"
| "previewPicTaking_events E START_PREVIEW = invalid_operation E QCAMERA_SM_EVT_START_PREVIEW"
| "previewPicTaking_events E START_NODISPLAY_PREVIEW =
     invalid_operation E QCAMERA_SM_EVT_START_NODISPLAY_PREVIEW"
| "previewPicTaking_events E (SET_PREVIEW_WINDOW w) =
     invalid_operation E QCAMERA_SM_EVT_SET_PREVIEW_WINDOW"
| "previewPicTaking_events E RELEASE = invalid_operation E QCAMERA_SM_EVT_RELEASE"
| "previewPicTaking_events E (EVT_INTERNAL i) = previewing_internal E i"
| "previewPicTaking_events E (EVT_NOTIFY t) = notify_capture E t"
| "previewPicTaking_events E (JPEG_EVT_NOTIFY j) = call_rc E (P_processJpegNotify j)"
| "previewPicTaking_events E SNAPSHOT_DONE = do {
     rc \<leftarrow> previewPicTaking_cancel E;
     set_m_state QCAMERA_SM_STATE_PREVIEWING;
     signal_evt E QCAMERA_SM_EVT_SNAPSHOT_DONE rc }"
| "previewPicTaking_events E (THERMAL_NOTIFY l) =
     call_and_signal E QCAMERA_SM_EVT_THERMAL_NOTIFY (P_updateThermalLevel l)"
| "previewPicTaking_events E e = State_Monad.return NO_ERROR"

fun previewPicTaking_control :: "'h penv \<Rightarrow> sm_event \<Rightarrow> ('h, int32) sm_prog" where
  "previewPicTaking_control E (SEND_COMMAND c) = sendCommand_longshot_off E c"
| "previewPicTaking_control E (RELEASE_RECORIDNG_FRAME p) =
     call_and_signal E QCAMERA_SM_EVT_RELEASE_RECORIDNG_FRAME (P_releaseRecordingFrame p)"
| "previewPicTaking_control E CANCEL_PICTURE = do {
     rc \<leftarrow> previewPicTaking_cancel E;
     set_m_state QCAMERA_SM_STATE_PREVIEWING;
     signal_def E QCAMERA_SM_EVT_CANCEL_PICTURE rc }"
| "previewPicTaking_control E STOP_PREVIEW = do {
     zsl \<leftarrow> call_flag E P_isZSLMode;
     rc \<leftarrow> (if zsl then do {
              rc \<leftarrow> call_rc E P_cancelPicture;
              call E (P_stopChannel QCAMERA_CH_TYPE_ZSL);
              State_Monad.return rc }
            else do {
              longshot \<leftarrow> call_flag E P_isLongshotEnabled;
              if longshot then call_rc E P_cancelPicture
              else do {
                rc \<leftarrow> call_rc E P_cancelLiveSnapshot;
                call E (P_stopChannel QCAMERA_CH_TYPE_PREVIEW);
                State_Monad.return rc } });
     call E P_unpreparePreview;
     set_m_state QCAMERA_SM_STATE_PREVIEW_STOPPED;
     signal_def E QCAMERA_SM_EVT_STOP_PREVIEW rc }"
| "previewPicTaking_control E START_RECORDING = do {
     b \<leftarrow> zsl_or_longshot E;
     rc \<leftarrow> (if b then State_Monad.return INVALID_OPERATION
            else do {
              rc \<leftarrow> call_rc E P_startRecording;
              only_if (rc = NO_ERROR) (set_m_state QCAMERA_SM_STATE_VIDEO_PIC_TAKING);
              State_Monad.return rc });
     signal_def E QCAMERA_SM_EVT_START_RECORDING rc }"
| "previewPicTaking_control E (REG_FACE_IMAGE p) = do_registerFaceImage E p"
| "previewPicTaking_control E TAKE_PICTURE = longShot_or_invalid E"
| "previewPicTaking_control E e = previewPicTaking_events E e"

fun procEvtPreviewPicTakingState :: "'h penv \<Rightarrow> sm_event \<Rightarrow> ('h, int32) sm_prog" where
  "procEvtPreviewPicTakingState E (SET_CALLBACKS cb) =
     call_and_signal E QCAMERA_SM_EVT_SET_CALLBACKS (P_setCallBacks cb)"
| "procEvtPreviewPicTakingState E (ENABLE_MSG_TYPE n) =
     call_and_signal E QCAMERA_SM_EVT_ENABLE_MSG_TYPE (P_enableMsgType n)"
| "procEvtPreviewPicTakingState E (DISABLE_MSG_TYPE n) =
     call_and_signal E QCAMERA_SM_EVT_DISABLE_MSG_TYPE (P_disableMsgType n)"
| "procEvtPreviewPicTakingState E (MSG_TYPE_ENABLED n) = do_msgTypeEnabled E n"
| "procEvtPreviewPicTakingState E (SET_PARAMS p) =
     setParams_with_restart E QCAMERA_SM_STATE_PIC_TAKING p"
| "procEvtPreviewPicTakingState E GET_PARAMS = do_getParameters E"
| "procEvtPreviewPicTakingState E (PUT_PARAMS p) =
     call_and_signal E QCAMERA_SM_EVT_PUT_PARAMS (P_putParameters p)"
| "procEvtPreviewPicTakingState E PREVIEW_ENABLED =
     signal_enabled E QCAMERA_SM_EVT_PREVIEW_ENABLED 1"
| "procEvtPreviewPicTakingState E RECORDING_ENABLED =
     signal_enabled E QCAMERA_SM_EVT_RECORDING_ENABLED 0"
| "procEvtPreviewPicTakingState E (STORE_METADATA_IN_BUFS n) =
     call_and_signal E QCAMERA_SM_EVT_STORE_METADATA_IN_BUFS (P_storeMetaDataInBuffers n)"
| "procEvtPreviewPicTakingState E (DUMP n) = call_and_signal E QCAMERA_SM_EVT_DUMP (P_dump n)"
| "procEvtPreviewPicTakingState E START_AUTO_FOCUS =
     call_and_signal E QCAMERA_SM_EVT_START_AUTO_FOCUS P_autoFocus"
| "procEvtPreviewPicTakingState E STOP_AUTO_FOCUS =
     call_and_signal E QCAMERA_SM_EVT_STOP_AUTO_FOCUS P_cancelAutoFocus"
| "procEvtPreviewPicTakingState E e = previewPicTaking_control E e"

section \<open>The entry of the machine and its queries\<close>

definition stateMachine :: "'h penv \<Rightarrow> sm_event \<Rightarrow> ('h, int32) sm_prog" where
  "stateMachine E e = do {
     s \<leftarrow> State_Monad.get;
     (case m_state s of
        QCAMERA_SM_STATE_PREVIEW_STOPPED \<Rightarrow> procEvtPreviewStoppedState E e
      | QCAMERA_SM_STATE_PREVIEW_READY \<Rightarrow> procEvtPreviewReadyState E e
      | QCAMERA_SM_STATE_PREVIEWING \<Rightarrow> procEvtPreviewingState E e
      | QCAMERA_SM_STATE_PREPARE_SNAPSHOT \<Rightarrow> procEvtPrepareSnapshotState E e
      | QCAMERA_SM_STATE_PIC_TAKING \<Rightarrow> procEvtPicTakingState E e
      | QCAMERA_SM_STATE_RECORDING \<Rightarrow> procEvtRecordingState E e
      | QCAMERA_SM_STATE_VIDEO_PIC_TAKING \<Rightarrow> procEvtVideoPicTakingState E e
      | QCAMERA_SM_STATE_PREVIEW_PIC_TAKING \<Rightarrow> procEvtPreviewPicTakingState E e) }"

fun isPreviewRunning :: "qcamera_state_enum_t \<Rightarrow> bool" where
  "isPreviewRunning QCAMERA_SM_STATE_PREVIEWING = True"
| "isPreviewRunning QCAMERA_SM_STATE_RECORDING = True"
| "isPreviewRunning QCAMERA_SM_STATE_VIDEO_PIC_TAKING = True"
| "isPreviewRunning QCAMERA_SM_STATE_PREVIEW_PIC_TAKING = True"
| "isPreviewRunning QCAMERA_SM_STATE_PREPARE_SNAPSHOT = True"
| "isPreviewRunning QCAMERA_SM_STATE_PREVIEW_READY = True"
| "isPreviewRunning q = False"

fun isPreviewReady :: "qcamera_state_enum_t \<Rightarrow> bool" where
  "isPreviewReady QCAMERA_SM_STATE_PREVIEW_READY = True"
| "isPreviewReady q = False"

fun isCaptureRunning :: "qcamera_state_enum_t \<Rightarrow> bool" where
  "isCaptureRunning QCAMERA_SM_STATE_PIC_TAKING = True"
| "isCaptureRunning QCAMERA_SM_STATE_VIDEO_PIC_TAKING = True"
| "isCaptureRunning QCAMERA_SM_STATE_PREVIEW_PIC_TAKING = True"
| "isCaptureRunning q = False"

fun isNonZSLCaptureRunning :: "qcamera_state_enum_t \<Rightarrow> bool" where
  "isNonZSLCaptureRunning QCAMERA_SM_STATE_PIC_TAKING = True"
| "isNonZSLCaptureRunning q = False"

lemma run_state_stateMachine:
  "run_state (stateMachine E e) s =
     run_state (case m_state s of
        QCAMERA_SM_STATE_PREVIEW_STOPPED \<Rightarrow> procEvtPreviewStoppedState E e
      | QCAMERA_SM_STATE_PREVIEW_READY \<Rightarrow> procEvtPreviewReadyState E e
      | QCAMERA_SM_STATE_PREVIEWING \<Rightarrow> procEvtPreviewingState E e
      | QCAMERA_SM_STATE_PREPARE_SNAPSHOT \<Rightarrow> procEvtPrepareSnapshotState E e
      | QCAMERA_SM_STATE_PIC_TAKING \<Rightarrow> procEvtPicTakingState E e
      | QCAMERA_SM_STATE_RECORDING \<Rightarrow> procEvtRecordingState E e
      | QCAMERA_SM_STATE_VIDEO_PIC_TAKING \<Rightarrow> procEvtVideoPicTakingState E e
      | QCAMERA_SM_STATE_PREVIEW_PIC_TAKING \<Rightarrow> procEvtPreviewPicTakingState E e) s"
  by (simp add: stateMachine_def)

end
