(* ===== verification/SmContract.thy ===== *)
theory SmContract
  imports SmRecording
begin

text \<open>
  The contract of the camera state machine and the proof that every handler keeps it. The first
  sections say, as executable tables, what a step may do: the state it goes to, the answers it
  signals, the calls it may make on the parent; \<open>step_ok\<close> puts them together over the calls a
  step adds to the history, and \<open>stateMachine_step\<close> shows that each step of the model of
  \<^verbatim>\<open>QCameraStateMachine::stateMachine\<close> satisfies it, one lemma per handler.
\<close>

section \<open>What a run of the machine did to its parent\<close>

fun api_results :: "(pcall \<times> reply) list \<Rightarrow> qcamera_api_result_t list" where
  "api_results [] = []"
| "api_results ((P_signalAPIResult r, y) # xs) = r # api_results xs"
| "api_results (x # xs) = api_results xs"

fun evt_results :: "(pcall \<times> reply) list \<Rightarrow> qcamera_api_result_t list" where
  "evt_results [] = []"
| "evt_results ((P_signalEvtResult r, y) # xs) = r # evt_results xs"
| "evt_results (x # xs) = evt_results xs"

definition answers :: "qcamera_api_result_t list \<Rightarrow> (qcamera_sm_evt_enum_t \<times> int32) list" where
  "answers rs = map (\<lambda>r. (request_api r, status r)) rs"

text \<open>Recording as the parent sees it: on after a successful start, off after a stop.\<close>

fun recording_on :: "bool \<Rightarrow> (pcall \<times> reply) list \<Rightarrow> bool" where
  "recording_on b [] = b"
| "recording_on b ((P_startRecording, r) # xs) = recording_on (b \<or> r_rc r = NO_ERROR) xs"
| "recording_on b ((P_stopRecording, r) # xs) = recording_on False xs"
| "recording_on b (x # xs) = recording_on b xs"

text \<open>Each failed start of the preview is undone by the very next call.\<close>

fun rolled_back :: "(pcall \<times> reply) list \<Rightarrow> bool" where
  "rolled_back [] = True"
| "rolled_back ((P_startPreview, r) # xs) =
     ((r_rc r \<noteq> NO_ERROR \<longrightarrow> (\<exists>y ys. xs = (P_unpreparePreview, y) # ys)) \<and> rolled_back xs)"
| "rolled_back (x # xs) = rolled_back xs"

fun recording_state :: "qcamera_state_enum_t \<Rightarrow> bool" where
  "recording_state QCAMERA_SM_STATE_RECORDING = True"
| "recording_state QCAMERA_SM_STATE_VIDEO_PIC_TAKING = True"
| "recording_state q = False"

section \<open>The tables of the contract\<close>

text \<open>The states in which a call with a precondition of its own is made.\<close>

fun permitted :: "qcamera_state_enum_t \<Rightarrow> pcall \<Rightarrow> bool" where
  "permitted q P_release = (q = QCAMERA_SM_STATE_PREVIEW_STOPPED)"
| "permitted q P_takePicture = (q = QCAMERA_SM_STATE_PREVIEWING)"
| "permitted q P_takeLiveSnapshot = (q = QCAMERA_SM_STATE_RECORDING)"
| "permitted q P_startRecording =
     (q = QCAMERA_SM_STATE_PREVIEWING \<or> q = QCAMERA_SM_STATE_PREVIEW_PIC_TAKING)"
| "permitted q P_stopRecording = recording_state q"
| "permitted q P_longShot =
     (q = QCAMERA_SM_STATE_PIC_TAKING \<or> q = QCAMERA_SM_STATE_PREVIEW_PIC_TAKING)"
| "permitted q P_memoryPool_clear =
     (q \<in> {QCAMERA_SM_STATE_PREVIEW_STOPPED, QCAMERA_SM_STATE_PREVIEW_READY,
           QCAMERA_SM_STATE_PREVIEWING, QCAMERA_SM_STATE_PREVIEW_PIC_TAKING})"
| "permitted q (P_setPreviewWindow w) =
     (q = QCAMERA_SM_STATE_PREVIEW_STOPPED \<or> q = QCAMERA_SM_STATE_PREVIEW_READY)"
| "permitted q (P_releaseRecordingFrame p) =
     (recording_state q \<or> q = QCAMERA_SM_STATE_PREVIEW_PIC_TAKING)"
| "permitted q P_stopPreview =
     (q = QCAMERA_SM_STATE_PREVIEWING \<or> q = QCAMERA_SM_STATE_PREVIEW_PIC_TAKING \<or> recording_state q)"
| "permitted q c = True"

text \<open>
  The events that answer an API caller. \<^verbatim>\<open>THERMAL_NOTIFY\<close> is among them: its handler signals an API
  result in every state.
\<close>

fun is_api_evt :: "sm_event \<Rightarrow> bool" where
  "is_api_evt (EVT_INTERNAL i) = False"
| "is_api_evt (EVT_NOTIFY t) = False"
| "is_api_evt (JPEG_EVT_NOTIFY j) = False"
| "is_api_evt SNAPSHOT_DONE = False"
| "is_api_evt STOP_CAPTURE_CHANNEL = False"
| "is_api_evt RESTART_PERVIEW = False"
| "is_api_evt EVT_MAX = False"
| "is_api_evt e = True"

fun prep_snapshot_done :: "sm_event \<Rightarrow> bool" where
  "prep_snapshot_done (EVT_INTERNAL (QCAMERA_INTERNAL_EVT_PREP_SNAPSHOT_DONE d)) = True"
| "prep_snapshot_done e = False"

fun is_reg_face :: "sm_event \<Rightarrow> bool" where
  "is_reg_face (REG_FACE_IMAGE p) = True"
| "is_reg_face e = False"

text \<open>
  The answers of a step: one per API event, with the event as the request and the returned value
  as the status. A \<^verbatim>\<open>PREPARE_SNAPSHOT\<close> that previewing accepts is answered only when its done event
  comes; a \<^verbatim>\<open>REG_FACE_IMAGE\<close> is not answered in the state between the two.
\<close>

definition spec_answers ::
    "qcamera_state_enum_t \<Rightarrow> sm_event \<Rightarrow> int32 \<Rightarrow> (qcamera_sm_evt_enum_t \<times> int32) list" where
  "spec_answers q e rc =
     (if q = QCAMERA_SM_STATE_PREVIEWING \<and> e = PREPARE_SNAPSHOT \<and> rc = NO_ERROR then []
      else if q = QCAMERA_SM_STATE_PREPARE_SNAPSHOT \<and> prep_snapshot_done e
        then [(QCAMERA_SM_EVT_PREPARE_SNAPSHOT, rc)]
      else if q = QCAMERA_SM_STATE_PREPARE_SNAPSHOT \<and> is_reg_face e then []
      else if is_api_evt e then [(evt_code e, rc)] else [])"

text \<open>
  The state diagram: for a state, an event and whether the step returned \<^verbatim>\<open>NO_ERROR\<close>, the states
  the machine may be in afterwards.
\<close>

fun stopped_next :: "sm_event \<Rightarrow> bool \<Rightarrow> qcamera_state_enum_t list" where
  "stopped_next START_PREVIEW ok =
     (if ok then [QCAMERA_SM_STATE_PREVIEW_READY, QCAMERA_SM_STATE_PREVIEWING]
      else [QCAMERA_SM_STATE_PREVIEW_STOPPED])"
| "stopped_next START_NODISPLAY_PREVIEW ok =
     [if ok then QCAMERA_SM_STATE_PREVIEWING else QCAMERA_SM_STATE_PREVIEW_STOPPED]"
| "stopped_next e ok = [QCAMERA_SM_STATE_PREVIEW_STOPPED]"

fun ready_next :: "sm_event \<Rightarrow> bool \<Rightarrow> qcamera_state_enum_t list" where
  "ready_next (SET_PREVIEW_WINDOW w) ok =
     (if ok then [QCAMERA_SM_STATE_PREVIEW_READY, QCAMERA_SM_STATE_PREVIEWING]
      else [QCAMERA_SM_STATE_PREVIEW_STOPPED])"
| "ready_next (SET_PARAMS p) ok =
     (if ok then [QCAMERA_SM_STATE_PREVIEW_READY]
      else [QCAMERA_SM_STATE_PREVIEW_READY, QCAMERA_SM_STATE_PREVIEW_STOPPED])"
| "ready_next STOP_PREVIEW ok =
     (if ok then [QCAMERA_SM_STATE_PREVIEW_STOPPED] else [])"
| "ready_next e ok = [QCAMERA_SM_STATE_PREVIEW_READY]"

fun previewing_next :: "sm_event \<Rightarrow> bool \<Rightarrow> qcamera_state_enum_t list" where
  "previewing_next (SET_PARAMS p) ok =
     (if ok then [QCAMERA_SM_STATE_PREVIEWING]
      else [QCAMERA_SM_STATE_PREVIEWING, QCAMERA_SM_STATE_PREVIEW_STOPPED])"
| "previewing_next STOP_PREVIEW ok = [QCAMERA_SM_STATE_PREVIEW_STOPPED]"
| "previewing_next START_RECORDING ok =
     [if ok then QCAMERA_SM_STATE_RECORDING else QCAMERA_SM_STATE_PREVIEWING]"
| "previewing_next PREPARE_SNAPSHOT ok =
     [if ok then QCAMERA_SM_STATE_PREPARE_SNAPSHOT else QCAMERA_SM_STATE_PREVIEWING]"
| "previewing_next TAKE_PICTURE ok =
     (if ok then [QCAMERA_SM_STATE_PREVIEW_PIC_TAKING, QCAMERA_SM_STATE_PIC_TAKING]
      else [QCAMERA_SM_STATE_PREVIEWING, QCAMERA_SM_STATE_PREVIEW_STOPPED])"
| "previewing_next e ok = [QCAMERA_SM_STATE_PREVIEWING]"

fun prepare_next :: "sm_event \<Rightarrow> bool \<Rightarrow> qcamera_state_enum_t list" where
  "prepare_next (EVT_INTERNAL (QCAMERA_INTERNAL_EVT_PREP_SNAPSHOT_DONE d)) ok =
     (if ok then [QCAMERA_SM_STATE_PREVIEWING] else [])"
| "prepare_next e ok = [QCAMERA_SM_STATE_PREPARE_SNAPSHOT]"

fun picTaking_next :: "sm_event \<Rightarrow> bool \<Rightarrow> qcamera_state_enum_t list" where
  "picTaking_next STOP_PREVIEW ok = [QCAMERA_SM_STATE_PREVIEW_STOPPED]"
| "picTaking_next CANCEL_PICTURE ok = [QCAMERA_SM_STATE_PREVIEW_STOPPED]"
| "picTaking_next (SEND_COMMAND c) ok =
     [QCAMERA_SM_STATE_PIC_TAKING, QCAMERA_SM_STATE_PREVIEWING]"
| "picTaking_next SNAPSHOT_DONE ok =
     [QCAMERA_SM_STATE_PREVIEWING, QCAMERA_SM_STATE_PREVIEW_STOPPED]"
| "picTaking_next e ok = [QCAMERA_SM_STATE_PIC_TAKING]"

fun recording_next :: "sm_event \<Rightarrow> bool \<Rightarrow> qcamera_state_enum_t list" where
  "recording_next TAKE_PICTURE ok =
     [if ok then QCAMERA_SM_STATE_VIDEO_PIC_TAKING else QCAMERA_SM_STATE_RECORDING]"
| "recording_next STOP_RECORDING ok = [QCAMERA_SM_STATE_PREVIEWING]"
| "recording_next STOP_PREVIEW ok = [QCAMERA_SM_STATE_PREVIEW_STOPPED]"
| "recording_next e ok = [QCAMERA_SM_STATE_RECORDING]"

fun videoPic_next :: "sm_event \<Rightarrow> bool \<Rightarrow> qcamera_state_enum_t list" where
  "videoPic_next SNAPSHOT_DONE ok = [QCAMERA_SM_STATE_RECORDING]"
| "videoPic_next CANCEL_PICTURE ok = [QCAMERA_SM_STATE_RECORDING]"
| "videoPic_next STOP_RECORDING ok = [QCAMERA_SM_STATE_PREVIEWING]"
| "videoPic_next STOP_PREVIEW ok = [QCAMERA_SM_STATE_PREVIEW_STOPPED]"
| "videoPic_next e ok = [QCAMERA_SM_STATE_VIDEO_PIC_TAKING]"

fun previewPic_next :: "sm_event \<Rightarrow> bool \<Rightarrow> qcamera_state_enum_t list" where
  "previewPic_next (SET_PARAMS p) ok =
     (if ok then [QCAMERA_SM_STATE_PREVIEW_PIC_TAKING]
      else [QCAMERA_SM_STATE_PREVIEW_PIC_TAKING, QCAMERA_SM_STATE_PIC_TAKING])"
| "previewPic_next STOP_PREVIEW ok =
     [QCAMERA_SM_STATE_PREVIEW_STOPPED]"
| "previewPic_next CANCEL_PICTURE ok = [QCAMERA_SM_STATE_PREVIEWING]"
| "previewPic_next SNAPSHOT_DONE ok = [QCAMERA_SM_STATE_PREVIEWING]"
| "previewPic_next START_RECORDING ok =
     [if ok then QCAMERA_SM_STATE_VIDEO_PIC_TAKING else QCAMERA_SM_STATE_PREVIEW_PIC_TAKING]"
| "previewPic_next (SEND_COMMAND c) ok =
     [QCAMERA_SM_STATE_PREVIEW_PIC_TAKING, QCAMERA_SM_STATE_PREVIEWING]"
| "previewPic_next e ok = [QCAMERA_SM_STATE_PREVIEW_PIC_TAKING]"

fun spec_next :: "qcamera_state_enum_t \<Rightarrow> sm_event \<Rightarrow> bool \<Rightarrow> qcamera_state_enum_t list" where
  "spec_next QCAMERA_SM_STATE_PREVIEW_STOPPED = stopped_next"
| "spec_next QCAMERA_SM_STATE_PREVIEW_READY = ready_next"
| "spec_next QCAMERA_SM_STATE_PREVIEWING = previewing_next"
| "spec_next QCAMERA_SM_STATE_PREPARE_SNAPSHOT = prepare_next"
| "spec_next QCAMERA_SM_STATE_PIC_TAKING = picTaking_next"
| "spec_next QCAMERA_SM_STATE_RECORDING = recording_next"
| "spec_next QCAMERA_SM_STATE_VIDEO_PIC_TAKING = videoPic_next"
| "spec_next QCAMERA_SM_STATE_PREVIEW_PIC_TAKING = previewPic_next"

text \<open>What a step added to the history.\<close>

definition new_calls :: "'h sm \<Rightarrow> 'h sm \<Rightarrow> (pcall \<times> reply) list" where
  "new_calls s s' = drop (length (hist s)) (hist s')"


lemma results_append [simp]:
  "api_results (xs @ ys) = api_results xs @ api_results ys"
  "evt_results (xs @ ys) = evt_results xs @ evt_results ys"
  by (induction xs rule: api_results.induct; simp)
     (induction xs rule: evt_results.induct; simp)

section \<open>The contract and its proof\<close>

definition step_ok :: "'h sm \<Rightarrow> sm_event \<Rightarrow> int32 \<Rightarrow> 'h sm \<Rightarrow> bool" where
  "step_ok s e rc s' \<longleftrightarrow>
     (\<exists>new. hist s' = hist s @ new
        \<and> m_state s' \<in> set (spec_next (m_state s) e (rc = NO_ERROR))
        \<and> answers (api_results new) = spec_answers (m_state s) e rc
        \<and> answers (evt_results new) = (if e = SNAPSHOT_DONE then [(evt_code e, rc)] else [])
        \<and> (\<forall>c \<in> fst ` set new. permitted (m_state s) c)
        \<and> (e \<noteq> STOP_CAPTURE_CHANNEL \<longrightarrow> rolled_back new)
        \<and> (recording_on (recording_state (m_state s)) new = recording_state (m_state s')))"

lemmas step_defs = sm_body status_defs api_result_def step_ok_def answers_def spec_answers_def



text \<open>The internal events that only inform the parent leave no trace the contract speaks of.\<close>

definition quiet :: "'h sm \<Rightarrow> 'h sm \<Rightarrow> bool" where
  "quiet s s' \<longleftrightarrow> (\<exists>new. hist s' = hist s @ new \<and> m_state s' = m_state s
    \<and> api_results new = [] \<and> evt_results new = [] \<and> rolled_back new
    \<and> (\<forall>c \<in> fst ` set new. \<forall>q. permitted q c) \<and> (\<forall>b. recording_on b new = b))"

lemma internal_quiet:
  "run_state (previewing_internal E i) s = (rc, s') \<Longrightarrow> quiet s s'"
  "run_state (picTaking_internal E i) s = (rc, s') \<Longrightarrow> quiet s s'"
  by (cases i; auto simp: quiet_def split: prod.splits)+

lemma prepareSnapshot_internal_quiet:
  "run_state (prepareSnapshot_internal E i) s = (rc, s') \<Longrightarrow>
   \<not> prep_snapshot_done (EVT_INTERNAL i) \<Longrightarrow>
   quiet s s' \<and> prepare_next (EVT_INTERNAL i) ok = [QCAMERA_SM_STATE_PREPARE_SNAPSHOT]"
  by (cases i; auto simp: quiet_def split: prod.splits)

lemma quiet_step_ok:
  assumes "quiet s s'" and "spec_next (m_state s) e (rc = NO_ERROR) = [m_state s]"
    and "spec_answers (m_state s) e rc = []" and "e \<noteq> SNAPSHOT_DONE"
  shows "step_ok s e rc s'"
proof -
  obtain new where new: "hist s' = hist s @ new" "m_state s' = m_state s" "api_results new = []"
    "evt_results new = []" "rolled_back new" "\<forall>c \<in> fst ` set new. \<forall>q. permitted q c"
    "\<forall>b. recording_on b new = b"
    using assms(1) by (auto simp: quiet_def)
  show ?thesis
    unfolding step_ok_def using new assms(2-) by (intro exI [of _ new]) (simp add: answers_def)
qed

text \<open>One lemma per handler.\<close>

lemma stopped_step:
  assumes "run_state (procEvtPreviewStoppedState E e) s = (rc, s')"
    and "m_state s = QCAMERA_SM_STATE_PREVIEW_STOPPED"
  shows "step_ok s e rc s'"
  using assms by (cases e) (auto simp: step_defs split: prod.splits if_splits)

lemma ready_step:
  assumes "run_state (procEvtPreviewReadyState E e) s = (rc, s')"
    and "m_state s = QCAMERA_SM_STATE_PREVIEW_READY"
  shows "step_ok s e rc s'"
  using assms by (cases e) (auto simp: step_defs split: prod.splits if_splits)

lemma previewing_step:
  assumes "run_state (procEvtPreviewingState E e) s = (rc, s')"
    and "m_state s = QCAMERA_SM_STATE_PREVIEWING"
  shows "step_ok s e rc s'"
proof (cases "\<exists>i. e = EVT_INTERNAL i")
  case True
  then show ?thesis
    using assms by (auto simp: spec_answers_def intro!: quiet_step_ok dest: internal_quiet)
next
  case False
  with assms show ?thesis by (cases e) (auto simp: step_defs split: prod.splits if_splits)
qed

lemma prepareSnapshot_step:
  assumes run: "run_state (procEvtPrepareSnapshotState E e) s = (rc, s')"
    and q: "m_state s = QCAMERA_SM_STATE_PREPARE_SNAPSHOT"
  shows "step_ok s e rc s'"
proof -
  consider (finished) d where "e = EVT_INTERNAL (QCAMERA_INTERNAL_EVT_PREP_SNAPSHOT_DONE d)"
    | (internal) i where "e = EVT_INTERNAL i" "\<not> prep_snapshot_done e"
    | (other) "\<nexists>i. e = EVT_INTERNAL i"
    by (cases e rule: prep_snapshot_done.cases) auto
  then show ?thesis
  proof cases
    case finished
    with run q show ?thesis
      by (auto simp: step_defs procEvtPrepareSnapshotState_def split: prod.splits)
  next
    case internal
    with run q show ?thesis
      by (auto simp: spec_answers_def procEvtPrepareSnapshotState_def intro!: quiet_step_ok
          dest: prepareSnapshot_internal_quiet)
  next
    case other
    with run q show ?thesis
      by (cases e) (auto simp: step_defs procEvtPrepareSnapshotState_def split: prod.splits if_splits)
  qed
qed

lemma picTaking_step:
  assumes "run_state (procEvtPicTakingState E e) s = (rc, s')"
    and "m_state s = QCAMERA_SM_STATE_PIC_TAKING"
  shows "step_ok s e rc s'"
proof (cases "\<exists>i. e = EVT_INTERNAL i")
  case True
  then show ?thesis
    using assms by (auto simp: spec_answers_def intro!: quiet_step_ok dest: internal_quiet)
next
  case False
  with assms show ?thesis by (cases e) (auto simp: step_defs split: prod.splits if_splits)
qed

lemma recording_step:
  assumes "run_state (procEvtRecordingState E e) s = (rc, s')"
    and "m_state s = QCAMERA_SM_STATE_RECORDING"
  shows "step_ok s e rc s'"
proof (cases "\<exists>i. e = EVT_INTERNAL i")
  case True
  then show ?thesis
    using assms by (auto simp: spec_answers_def intro!: quiet_step_ok dest: internal_quiet)
next
  case False
  with assms show ?thesis by (cases e) (auto simp: step_defs split: prod.splits if_splits)
qed

lemma videoPicTaking_step:
  assumes "run_state (procEvtVideoPicTakingState E e) s = (rc, s')"
    and "m_state s = QCAMERA_SM_STATE_VIDEO_PIC_TAKING"
  shows "step_ok s e rc s'"
proof (cases "\<exists>i. e = EVT_INTERNAL i")
  case True
  then show ?thesis
    using assms by (auto simp: spec_answers_def intro!: quiet_step_ok dest: internal_quiet)
next
  case False
  with assms show ?thesis by (cases e) (auto simp: step_defs split: prod.splits if_splits)
qed

lemma previewPicTaking_step:
  assumes "run_state (procEvtPreviewPicTakingState E e) s = (rc, s')"
    and "m_state s = QCAMERA_SM_STATE_PREVIEW_PIC_TAKING"
  shows "step_ok s e rc s'"
proof (cases "\<exists>i. e = EVT_INTERNAL i")
  case True
  then show ?thesis
    using assms by (auto simp: spec_answers_def intro!: quiet_step_ok dest: internal_quiet)
next
  case False
  with assms show ?thesis by (cases e) (auto simp: step_defs split: prod.splits if_splits)
qed

lemmas handler_steps = stopped_step ready_step previewing_step prepareSnapshot_step picTaking_step
  recording_step videoPicTaking_step previewPicTaking_step

lemma stateMachine_step:
  assumes "run_state (stateMachine E e) s = (rc, s')"
  shows "step_ok s e rc s'"
  using assms
  by (cases "m_state s") (simp_all add: run_state_stateMachine handler_steps)

end
