(* ===== verification/SmRuns.thy ===== *)
theory SmRuns
  imports SmContract
begin

text \<open>
  Steps and runs of the machine over lists of events, with the lemmas that lift the contract of
  \<open>SmContract\<close> to runs: which requests have been answered, the use the machine makes of the preview
  channels, and a parent that steers an event to a chosen outcome.
\<close>

section \<open>Steps and runs\<close>

definition sm_rc :: "'h penv \<Rightarrow> sm_event \<Rightarrow> 'h sm \<Rightarrow> int32" where
  "sm_rc E e s = fst (run_state (stateMachine E e) s)"

definition sm_step :: "'h penv \<Rightarrow> sm_event \<Rightarrow> 'h sm \<Rightarrow> 'h sm" where
  "sm_step E e s = snd (run_state (stateMachine E e) s)"

definition sm_init :: "'h \<Rightarrow> 'h sm" where
  "sm_init h = \<lparr>m_state = QCAMERA_SM_STATE_PREVIEW_STOPPED, m_parent = h, hist = []\<rparr>"

definition sm_run :: "'h penv \<Rightarrow> sm_event list \<Rightarrow> 'h sm \<Rightarrow> 'h sm" where
  "sm_run E es s = fold (sm_step E) es s"

lemma sm_run_simps [simp]:
  "sm_run E [] s = s" "sm_run E (e # es) s = sm_run E es (sm_step E e s)"
  by (simp_all add: sm_run_def)

lemma sm_step_ok: "step_ok s e (sm_rc E e s) (sm_step E e s)"
  by (rule stateMachine_step) (simp add: sm_rc_def sm_step_def)

lemma new_calls_hist: "hist s' = hist s @ new \<Longrightarrow> new_calls s s' = new"
  by (simp add: new_calls_def)

lemma sm_contract:
  shows sm_hist: "hist (sm_step E e s) = hist s @ new_calls s (sm_step E e s)"
    and sm_next: "m_state (sm_step E e s) \<in> set (spec_next (m_state s) e (sm_rc E e s = NO_ERROR))"
    and sm_api: "answers (api_results (new_calls s (sm_step E e s))) =
      spec_answers (m_state s) e (sm_rc E e s)"
    and sm_evt: "answers (evt_results (new_calls s (sm_step E e s))) =
      (if e = SNAPSHOT_DONE then [(evt_code e, sm_rc E e s)] else [])"
    and sm_calls: "c \<in> fst ` set (new_calls s (sm_step E e s)) \<Longrightarrow> permitted (m_state s) c"
    and sm_rolled_back: "e \<noteq> STOP_CAPTURE_CHANNEL \<Longrightarrow> rolled_back (new_calls s (sm_step E e s))"
    and sm_recording: "recording_on (recording_state (m_state s)) (new_calls s (sm_step E e s)) =
      recording_state (m_state (sm_step E e s))"
  using sm_step_ok [of s e E] unfolding step_ok_def by (auto simp: new_calls_hist simp del: split_paired_All)

lemma recording_on_append [simp]:
  "recording_on b (xs @ ys) = recording_on (recording_on b xs) ys"
  by (induction b xs rule: recording_on.induct) auto

lemma recording_run:
  "recording_on b (hist s) = recording_state (m_state s) \<Longrightarrow>
   recording_on b (hist (sm_run E es s)) = recording_state (m_state (sm_run E es s))"
  by (induction es arbitrary: s) (auto simp: sm_hist sm_recording)

section \<open>Answered and pending requests\<close>

definition submitted :: "qcamera_sm_evt_enum_t \<Rightarrow> sm_event list \<Rightarrow> nat" where
  "submitted k es = length (filter (\<lambda>e. is_api_evt e \<and> evt_code e = k) es)"

definition answered :: "qcamera_sm_evt_enum_t \<Rightarrow> (pcall \<times> reply) list \<Rightarrow> nat" where
  "answered k h = length (filter (\<lambda>a. fst a = k) (answers (api_results h)))"

definition pending :: "qcamera_sm_evt_enum_t \<Rightarrow> qcamera_state_enum_t \<Rightarrow> nat" where
  "pending k q =
     (if k = QCAMERA_SM_EVT_PREPARE_SNAPSHOT \<and> q = QCAMERA_SM_STATE_PREPARE_SNAPSHOT then 1 else 0)"

lemma answered_append [simp]: "answered k (xs @ ys) = answered k xs + answered k ys"
  by (simp add: answered_def answers_def)

lemma is_reg_faceD: "is_reg_face e \<Longrightarrow> evt_code e = QCAMERA_SM_EVT_REG_FACE_IMAGE"
  by (cases e) auto

lemma prep_doneD:
  "prep_snapshot_done e \<Longrightarrow> \<exists>d. e = EVT_INTERNAL (QCAMERA_INTERNAL_EVT_PREP_SNAPSHOT_DONE d)"
  by (cases e rule: prep_snapshot_done.cases) auto

lemma spec_next_prepare:
  "q' \<in> set (spec_next q e ok) \<Longrightarrow> q' = QCAMERA_SM_STATE_PREPARE_SNAPSHOT \<longleftrightarrow>
    (q = QCAMERA_SM_STATE_PREPARE_SNAPSHOT \<and> \<not> prep_snapshot_done e
     \<or> q = QCAMERA_SM_STATE_PREVIEWING \<and> e = PREPARE_SNAPSHOT \<and> ok)"
  by (cases q; cases e rule: prep_snapshot_done.cases; simp split: if_splits; blast?)

lemma accounting_step:
  assumes "k \<noteq> QCAMERA_SM_EVT_REG_FACE_IMAGE"
  shows "submitted k [e] + pending k (m_state s) =
    answered k (new_calls s (sm_step E e s)) + pending k (m_state (sm_step E e s))"
proof -
  let ?s' = "sm_step E e s" and ?rc = "sm_rc E e s"
  have pend: "m_state ?s' = QCAMERA_SM_STATE_PREPARE_SNAPSHOT \<longleftrightarrow>
    (m_state s = QCAMERA_SM_STATE_PREPARE_SNAPSHOT \<and> \<not> prep_snapshot_done e
     \<or> m_state s = QCAMERA_SM_STATE_PREVIEWING \<and> e = PREPARE_SNAPSHOT \<and> ?rc = NO_ERROR)"
    by (rule spec_next_prepare [OF sm_next])
  show ?thesis
    unfolding answered_def sm_api spec_answers_def submitted_def pending_def pend
    using assms by (auto dest: is_reg_faceD prep_doneD)
qed

lemma accounting_run:
  assumes "k \<noteq> QCAMERA_SM_EVT_REG_FACE_IMAGE"
  shows "submitted k es + pending k (m_state s) + answered k (hist s) =
    answered k (hist (sm_run E es s)) + pending k (m_state (sm_run E es s))"
proof (induction es arbitrary: s)
  case Nil
  show ?case by (simp add: submitted_def)
next
  case (Cons e es)
  have "submitted k (e # es) = submitted k [e] + submitted k es"
    by (simp add: submitted_def)
  with Cons [of "sm_step E e s"] accounting_step [OF assms, of e s E] show ?case
    by (simp add: sm_hist)
qed

lemma prepare_stays:
  "\<forall>e \<in> set es. \<not> prep_snapshot_done e \<Longrightarrow> m_state s = QCAMERA_SM_STATE_PREPARE_SNAPSHOT \<Longrightarrow>
   m_state (sm_run E es s) = QCAMERA_SM_STATE_PREPARE_SNAPSHOT"
  using spec_next_prepare [OF sm_next] by (induction es arbitrary: s) auto

section \<open>A parent that answers as told\<close>

fun can_fail :: "pcall \<Rightarrow> bool" where
  "can_fail P_preparePreview = True"
| "can_fail P_startPreview = True"
| "can_fail P_stopPreview = True"
| "can_fail P_startRecording = True"
| "can_fail P_stopRecording = True"
| "can_fail P_takePicture = True"
| "can_fail P_cancelPicture = True"
| "can_fail P_cancelLiveSnapshot = True"
| "can_fail P_takeLiveSnapshot = True"
| "can_fail (P_prepareHardwareForSnapshot b) = True"
| "can_fail (P_sendCommand a b c) = True"
| "can_fail c = False"

fun command_of :: "sm_event \<Rightarrow> int32" where
  "command_of (SEND_COMMAND c) = cmd c"
| "command_of e = 0"

fun answers_yes :: "qcamera_state_enum_t \<Rightarrow> pcall \<Rightarrow> bool" where
  "answers_yes q (P_updateParameters p) = True"
| "answers_yes q P_isZSLMode = (q = QCAMERA_SM_STATE_PREVIEW_PIC_TAKING)"
| "answers_yes q P_isPreviewRestartEnabled = (q = QCAMERA_SM_STATE_PREVIEWING)"
| "answers_yes q c = False"

text \<open>The parent that steers an event to the given outcome and next state.\<close>

definition steering :: "sm_event \<Rightarrow> bool \<Rightarrow> qcamera_state_enum_t \<Rightarrow> unit penv" where
  "steering e ok q' =
     \<lparr>p_call = \<lambda>c h. (\<lparr>r_rc = if \<not> ok \<and> can_fail c then UNKNOWN_ERROR else NO_ERROR,
        r_flag = answers_yes q' c, r_out = 0,
        r_addr = if q' = QCAMERA_SM_STATE_PREVIEW_READY then NULL else 1\<rparr>, h),
      VANILLA_HAL = False, CAMERA_CMD_LONGSHOT_ON = command_of e + 1,
      CAMERA_CMD_LONGSHOT_OFF = command_of e, CAMERA_MSG_ERROR = 1,
      CAMERA_ERROR_SERVER_DIED = 100\<rparr>"

lemma edge_realised:
  assumes "q' \<in> set (spec_next q e ok)" and "q' \<noteq> q" and "m_state s = q"
  shows "m_state (sm_step (steering e ok q') e s) = q'
    \<and> (sm_rc (steering e ok q') e s = NO_ERROR) = ok"
  using assms
  by (cases q; cases e rule: prep_snapshot_done.cases)
    (auto simp: sm_step_def sm_rc_def run_state_stateMachine steering_def sm_body
      procEvtPrepareSnapshotState_def status_defs split: if_splits)

section \<open>The preview channels\<close>

text \<open>
  The preview channels as a resource: prepared once, started only when prepared, given back once.
  \<open>None\<close> is a misuse.
\<close>

fun preview_use :: "bool option \<Rightarrow> (pcall \<times> reply) list \<Rightarrow> bool option" where
  "preview_use None xs = None"
| "preview_use b [] = b"
| "preview_use (Some b) ((P_preparePreview, r) # xs) =
     preview_use (if b then None else Some (r_rc r = NO_ERROR)) xs"
| "preview_use (Some b) ((P_startPreview, r) # xs) = preview_use (if b then Some True else None) xs"
| "preview_use (Some b) ((P_unpreparePreview, r) # xs) =
     preview_use (if b then Some False else None) xs"
| "preview_use (Some b) ((P_stopPreview, r) # xs) = preview_use (if b then Some False else None) xs"
| "preview_use (Some b) (x # xs) = preview_use (Some b) xs"

lemma preview_use_append [simp]: "preview_use b (xs @ ys) = preview_use (preview_use b xs) ys"
  by (induction b xs rule: preview_use.induct) auto

definition holds_preview :: "qcamera_state_enum_t \<Rightarrow> bool" where
  "holds_preview q \<longleftrightarrow> q \<noteq> QCAMERA_SM_STATE_PREVIEW_STOPPED"

definition video_state :: "qcamera_state_enum_t \<Rightarrow> bool" where
  "video_state q \<longleftrightarrow> q \<in> {QCAMERA_SM_STATE_PREVIEW_STOPPED, QCAMERA_SM_STATE_PREVIEW_READY,
     QCAMERA_SM_STATE_PREVIEWING, QCAMERA_SM_STATE_PREPARE_SNAPSHOT, QCAMERA_SM_STATE_RECORDING,
     QCAMERA_SM_STATE_VIDEO_PIC_TAKING}"

definition preview_ok :: "'h sm \<Rightarrow> 'h sm \<Rightarrow> bool" where
  "preview_ok s s' \<longleftrightarrow> video_state (m_state s') \<and> (\<exists>new. hist s' = hist s @ new
     \<and> preview_use (Some (holds_preview (m_state s))) new = Some (holds_preview (m_state s')))"

lemmas preview_defs = sm_body api_result_def status_defs preview_ok_def holds_preview_def
  video_state_def

lemma preview_internal [simp]:
  "run_state (previewing_internal E i) s = (rc, s') \<Longrightarrow>
   m_state s \<noteq> QCAMERA_SM_STATE_PREVIEW_STOPPED \<Longrightarrow> video_state (m_state s) \<Longrightarrow> preview_ok s s'"
  "run_state (prepareSnapshot_internal E i) s = (rc, s') \<Longrightarrow>
   m_state s \<noteq> QCAMERA_SM_STATE_PREVIEW_STOPPED \<Longrightarrow> video_state (m_state s) \<Longrightarrow> preview_ok s s'"
  by (cases i; auto simp: preview_defs split: prod.splits)+

lemma preview_step:
  assumes "VANILLA_HAL E" and "video_state (m_state s)"
    and "e = TAKE_PICTURE \<Longrightarrow> m_state s = QCAMERA_SM_STATE_RECORDING"
    and "run_state (stateMachine E e) s = (rc, s')"
  shows "preview_ok s s'"
proof (cases "\<exists>i. e = EVT_INTERNAL i")
  case True
  with assms show ?thesis
    by (auto simp: run_state_stateMachine video_state_def procEvtPrepareSnapshotState_def)
     (auto simp: preview_defs)
next
  case False
  from assms(2) consider "m_state s = QCAMERA_SM_STATE_PREVIEW_STOPPED"
    | "m_state s = QCAMERA_SM_STATE_PREVIEW_READY" | "m_state s = QCAMERA_SM_STATE_PREVIEWING"
    | "m_state s = QCAMERA_SM_STATE_PREPARE_SNAPSHOT" | "m_state s = QCAMERA_SM_STATE_RECORDING"
    | "m_state s = QCAMERA_SM_STATE_VIDEO_PIC_TAKING"
    by (auto simp: video_state_def)
  then show ?thesis
    using assms False
    by cases (cases e; auto simp: preview_defs run_state_stateMachine procEvtPrepareSnapshotState_def
      split: prod.splits if_splits)+
qed

text \<open>A run in which pictures are taken only while recording.\<close>

fun shoots_only_recording :: "'h penv \<Rightarrow> sm_event list \<Rightarrow> 'h sm \<Rightarrow> bool" where
  "shoots_only_recording E [] s = True"
| "shoots_only_recording E (e # es) s =
     ((e = TAKE_PICTURE \<longrightarrow> m_state s = QCAMERA_SM_STATE_RECORDING)
      \<and> shoots_only_recording E es (sm_step E e s))"

lemma preview_run:
  assumes "VANILLA_HAL E"
  shows "shoots_only_recording E es s \<Longrightarrow> video_state (m_state s) \<Longrightarrow>
    preview_use b (hist s) = Some (holds_preview (m_state s)) \<Longrightarrow>
    preview_use b (hist (sm_run E es s)) = Some (holds_preview (m_state (sm_run E es s)))"
proof (induction es arbitrary: s)
  case (Cons e es)
  have "preview_ok s (sm_step E e s)"
    using Cons.prems by (intro preview_step [OF assms, of s e "sm_rc E e s"])
      (auto simp: sm_step_def sm_rc_def)
  then show ?case
    using Cons by (auto simp: preview_ok_def)
qed simp

end
