(* ===== verification/SmProps.thy ===== *)
theory SmProps
  imports SmRuns
begin

text \<open>
  The properties of the camera state machine. \<open>sm_step E e s\<close> is the state after the event \<open>e\<close>,
  \<open>sm_rc E e s\<close> the value the handler returns; the parent \<open>E\<close> may answer anything and keep any state.
\<close>

text \<open>A machine in a given state, for the examples.\<close>

definition sm_in :: "qcamera_state_enum_t \<Rightarrow> unit sm" where
  "sm_in q = \<lparr>m_state = q, m_parent = (), hist = []\<rparr>"

text \<open>
  C1. Every step follows the state diagram \<open>spec_next\<close>: from its state, for its event and for a
  returned value that is or is not \<^verbatim>\<open>NO_ERROR\<close>, the machine is afterwards in one of the listed
  states. In particular an event without an edge leaves \<^verbatim>\<open>m_state\<close> as it was, errors included.
\<close>

theorem sm_transition:
  "m_state (sm_step E e s) \<in> set (spec_next (m_state s) e (sm_rc E e s = NO_ERROR))"
  by (rule sm_next)

text \<open>
  C24. The diagram is exact: each of its edges to another state is taken against some parent, with
  the outcome the edge names. No edge is there that the code cannot take.
\<close>

theorem sm_transition_exact:
  assumes "q' \<in> set (spec_next (m_state s) e ok)" and "q' \<noteq> m_state s"
  shows "\<exists>E :: unit penv. m_state (sm_step E e s) = q' \<and> (sm_rc E e s = NO_ERROR) = ok"
  using edge_realised [OF assms refl] by blast

theorem sm_transition_exact_witness:
  "\<exists>E :: unit penv.
     m_state (sm_step E TAKE_PICTURE (sm_in QCAMERA_SM_STATE_PREVIEWING))
       = QCAMERA_SM_STATE_PREVIEW_STOPPED
     \<and> (sm_rc E TAKE_PICTURE (sm_in QCAMERA_SM_STATE_PREVIEWING) = NO_ERROR) = False"
  by (rule sm_transition_exact) (simp_all add: sm_in_def)




text \<open>
  C6. Over any run from the constructor, the machine is in a recording state exactly when the
  parent is recording: \<^verbatim>\<open>startRecording\<close> was called with success and \<^verbatim>\<open>stopRecording\<close> was not called
  since. So the machine never loses a recording, whatever the calls return.
\<close>

theorem sm_recording_invariant:
  "recording_on False (hist (sm_run E es (sm_init h))) =
   recording_state (m_state (sm_run E es (sm_init h)))"
  by (rule recording_run) (simp add: sm_init_def)

text \<open>
  C20. The calls with a precondition are made in the right states only: the table \<open>permitted\<close> holds of
  every call of every step. For one, \<^verbatim>\<open>release\<close> is called only when the preview is stopped,
  \<^verbatim>\<open>takePicture\<close> only when previewing and \<^verbatim>\<open>stopRecording\<close> only when recording.
\<close>

theorem sm_permitted_calls:
  "list_all (permitted (m_state s)) (map fst (new_calls s (sm_step E e s)))"
  using sm_calls [of _ s E e] by (auto simp: list_all_iff)


text \<open>A parent whose calls succeed, with a window, and the history it produces in a run.\<close>

definition vanilla :: "unit penv" where
  "vanilla = (steering START_PREVIEW True QCAMERA_SM_STATE_PREVIEWING)\<lparr>VANILLA_HAL := True\<rparr>"




text \<open>
  Every \<^verbatim>\<open>SNAPSHOT_DONE\<close> event signals exactly one event result, in every state, so the thread
  in \<^verbatim>\<open>processSyncEvt\<close> that waits for it is woken; no other event signals one.
\<close>

theorem sm_snapshot_done_result:
  "answers (evt_results (new_calls s (sm_step E e s))) =
    (if e = SNAPSHOT_DONE then [(QCAMERA_SM_EVT_SNAPSHOT_DONE, sm_rc E e s)] else [])"
  by (simp add: sm_evt)

text \<open>
  C40. In \<^verbatim>\<open>PREPARE_SNAPSHOT\<close> the machine only waits: whatever events come, it stays there until the
  internal done event, which moves it to \<^verbatim>\<open>PREVIEWING\<close> and answers the pending request with
  \<^verbatim>\<open>NO_ERROR\<close>.
\<close>

theorem sm_prepare_snapshot_waits:
  assumes "m_state s = QCAMERA_SM_STATE_PREPARE_SNAPSHOT"
    and "list_all (\<lambda>e. \<not> prep_snapshot_done e) es" and "prep_snapshot_done d"
  shows "m_state (sm_run E es s) = QCAMERA_SM_STATE_PREPARE_SNAPSHOT
    \<and> m_state (sm_run E (es @ [d]) s) = QCAMERA_SM_STATE_PREVIEWING
    \<and> answers (api_results (new_calls (sm_run E es s) (sm_run E (es @ [d]) s))) =
        [(QCAMERA_SM_EVT_PREPARE_SNAPSHOT, NO_ERROR)]"
proof -
  let ?t = "sm_run E es s"
  have wait: "m_state ?t = QCAMERA_SM_STATE_PREPARE_SNAPSHOT"
    using assms by (intro prepare_stays) (simp_all add: list_all_iff)
  have last: "sm_run E (es @ [d]) s = sm_step E d ?t"
    by (simp add: sm_run_def)
  have fin: "m_state (sm_step E d ?t) = QCAMERA_SM_STATE_PREVIEWING \<and> sm_rc E d ?t = NO_ERROR"
    using sm_next [of E d ?t] prep_doneD [OF assms(3)] by (auto simp: wait split: if_splits)
  with wait assms(3) show ?thesis
    by (simp add: last sm_api spec_answers_def)
qed

theorem sm_prepare_snapshot_waits_witness:
  "m_state (sm_run vanilla ([TAKE_PICTURE] @ [EVT_INTERNAL (QCAMERA_INTERNAL_EVT_PREP_SNAPSHOT_DONE 7)])
      (sm_in QCAMERA_SM_STATE_PREPARE_SNAPSHOT)) = QCAMERA_SM_STATE_PREVIEWING"
  using sm_prepare_snapshot_waits [of "sm_in QCAMERA_SM_STATE_PREPARE_SNAPSHOT" "[TAKE_PICTURE]"
      "EVT_INTERNAL (QCAMERA_INTERNAL_EVT_PREP_SNAPSHOT_DONE 7)" vanilla]
  by (simp add: sm_in_def)

text \<open>
  The two status queries change nothing and answer from \<^verbatim>\<open>m_state\<close> alone, in every state but
  \<^verbatim>\<open>PREPARE_SNAPSHOT\<close>: recording is enabled exactly in the recording states, and preview exactly
  when \<^verbatim>\<open>isPreviewRunning\<close> says so, except in \<^verbatim>\<open>RECORDING\<close>, where the answer is 0 although the
  preview runs.
\<close>

theorem sm_status_queries:
  assumes "m_state s \<noteq> QCAMERA_SM_STATE_PREPARE_SNAPSHOT"
  shows "map fst (new_calls s (sm_step E RECORDING_ENABLED s)) =
      [P_signalAPIResult (api_result NO_ERROR QCAMERA_SM_EVT_RECORDING_ENABLED
        QCAMERA_API_RESULT_TYPE_ENABLE_FLAG (of_bool (recording_state (m_state s))))]
    \<and> map fst (new_calls s (sm_step E PREVIEW_ENABLED s)) =
      [P_signalAPIResult (api_result NO_ERROR QCAMERA_SM_EVT_PREVIEW_ENABLED
        QCAMERA_API_RESULT_TYPE_ENABLE_FLAG
        (of_bool (isPreviewRunning (m_state s) \<and> m_state s \<noteq> QCAMERA_SM_STATE_RECORDING)))]"
  using assms
  by (cases "m_state s")
    (simp_all add: sm_step_def run_state_stateMachine sm_body new_calls_def split: prod.splits)

theorem sm_status_queries_witness:
  "map fst (new_calls (sm_init ()) (sm_step vanilla PREVIEW_ENABLED (sm_init ()))) =
    [P_signalAPIResult (api_result NO_ERROR QCAMERA_SM_EVT_PREVIEW_ENABLED
      QCAMERA_API_RESULT_TYPE_ENABLE_FLAG 0)]"
  using sm_status_queries [of "sm_init ()" vanilla] by (simp add: sm_init_def)

text \<open>
  While recording, parameters that need the preview restarted are refused: the answer is
  \<^verbatim>\<open>BAD_VALUE\<close>, they are not committed and the state is kept; parameters that need no restart are
  committed, and the answer is what \<^verbatim>\<open>commitParameterChanges\<close> returned.
\<close>

theorem sm_set_params_recording:
  assumes "recording_state (m_state s)" and "p_call E (P_updateParameters p) (m_parent s) = (r, h)"
    and "r_rc r = NO_ERROR"
  shows "m_state (sm_step E (SET_PARAMS p) s) = m_state s
    \<and> (r_flag r \<longrightarrow> sm_rc E (SET_PARAMS p) s = BAD_VALUE
        \<and> P_commitParameterChanges \<notin> fst ` set (new_calls s (sm_step E (SET_PARAMS p) s)))
    \<and> (\<not> r_flag r \<longrightarrow> sm_rc E (SET_PARAMS p) s = r_rc (fst (p_call E P_commitParameterChanges h)))"
  using assms
  by (cases "m_state s")
    (auto simp: sm_step_def sm_rc_def run_state_stateMachine sm_body new_calls_def split: prod.splits)

theorem sm_set_params_recording_witness:
  "sm_rc vanilla (SET_PARAMS 5) (sm_in QCAMERA_SM_STATE_RECORDING) = BAD_VALUE
    \<and> P_commitParameterChanges \<notin> fst ` set (new_calls (sm_in QCAMERA_SM_STATE_RECORDING)
        (sm_step vanilla (SET_PARAMS 5) (sm_in QCAMERA_SM_STATE_RECORDING)))"
  using sm_set_params_recording [of "sm_in QCAMERA_SM_STATE_RECORDING" vanilla 5]
  by (simp add: sm_in_def vanilla_def steering_def)

text \<open>
  A face image submitted while a snapshot is prepared is dropped: the step calls nothing on the
  parent, so the API result its caller waits for is never signalled, although the handler returns
  \<^verbatim>\<open>NO_ERROR\<close>.
\<close>

theorem sm_register_face_unanswered:
  assumes "m_state s = QCAMERA_SM_STATE_PREPARE_SNAPSHOT"
  shows "sm_step E (REG_FACE_IMAGE p) s = s \<and> sm_rc E (REG_FACE_IMAGE p) s = NO_ERROR"
  using assms
  by (simp add: sm_step_def sm_rc_def run_state_stateMachine procEvtPrepareSnapshotState_def)

theorem sm_register_face_unanswered_witness:
  "sm_step vanilla (REG_FACE_IMAGE \<lparr>img_ptr = 1, config = 2\<rparr>)
     (sm_in QCAMERA_SM_STATE_PREPARE_SNAPSHOT) = sm_in QCAMERA_SM_STATE_PREPARE_SNAPSHOT"
  using sm_register_face_unanswered [of "sm_in QCAMERA_SM_STATE_PREPARE_SNAPSHOT" vanilla
      "\<lparr>img_ptr = 1, config = 2\<rparr>"]
  by (simp add: sm_in_def)

text \<open>
  A longshot command whose preview restart fails leaves the machine in \<^verbatim>\<open>PREVIEWING\<close> without a
  preview: the run below ends there, with the failed start undone and the caller told of the error,
  and the channels are not held. (\<^verbatim>\<open>SET_PARAMS\<close> in the same situation moves to \<^verbatim>\<open>PREVIEW_STOPPED\<close>.)
\<close>

definition longshot_on :: qcamera_sm_evt_command_payload_t where
  "longshot_on = \<lparr>cmd = 9, arg1 = 0, arg2 = 0\<rparr>"

text \<open>The parent asks for a restart after the command and then fails to start the preview.\<close>

definition restart_fails :: "nat penv" where
  "restart_fails =
     \<lparr>p_call = \<lambda>c n. (\<lparr>r_rc = if c = P_startPreview \<and> 0 < n then UNKNOWN_ERROR else NO_ERROR,
        r_flag = False, r_out = evt_value QCAMERA_SM_EVT_RESTART_PERVIEW, r_addr = 1\<rparr>,
        if c = P_startPreview then n + 1 else n),
      VANILLA_HAL = False, CAMERA_CMD_LONGSHOT_ON = 9, CAMERA_CMD_LONGSHOT_OFF = 10,
      CAMERA_MSG_ERROR = 1, CAMERA_ERROR_SERVER_DIED = 100\<rparr>"

theorem sm_longshot_restart_failure:
  "let s = sm_run restart_fails [START_PREVIEW] (sm_init 0);
       t = sm_step restart_fails (SEND_COMMAND longshot_on) s
   in m_state s = QCAMERA_SM_STATE_PREVIEWING
      \<and> sm_rc restart_fails (SEND_COMMAND longshot_on) s = UNKNOWN_ERROR
      \<and> m_state t = QCAMERA_SM_STATE_PREVIEWING
      \<and> preview_use (Some False) (hist t) = Some False"
  by (simp add: sm_init_def sm_step_def sm_rc_def run_state_stateMachine sm_body restart_fails_def
      longshot_on_def status_defs Let_def)

end
