(* ===== verification/CamQueue.thy ===== *)
theory CamQueue
  imports CamPrelude
begin

text \<open>
  The queue of the camera HAL (\<^verbatim>\<open>util/QCameraQueue.cpp\<close>) on its intrusive doubly linked list
  (\<^verbatim>\<open>stack/common/cam_list.h\<close>), at the level of pointers: a heap of nodes, every read and write of a
  link written out, \<open>None\<close> for a fault. The refinement lemmas show that on a well-formed queue no
  operation faults and that each does to the list of stored data what its comment says.
  The mutex makes each operation atomic; it has no other effect here.
\<close>

section \<open>The linked list\<close>

text \<open>
  \<^verbatim>\<open>camera_q_node\<close>: the embedded \<^verbatim>\<open>cam_list\<close> is its first member, so a node and its link have the
  same address and \<^verbatim>\<open>member_of\<close> is the identity.
\<close>

record camera_q_node =
  nxt :: ptr
  prv :: ptr
  data :: ptr

type_synonym node_heap = "ptr \<rightharpoonup> camera_q_node"

definition wr_next :: "ptr \<Rightarrow> ptr \<Rightarrow> node_heap \<Rightarrow> node_heap option" where
  "wr_next a v m = (case m a of None \<Rightarrow> None | Some n \<Rightarrow> Some (m(a \<mapsto> n\<lparr>nxt := v\<rparr>)))"

definition wr_prev :: "ptr \<Rightarrow> ptr \<Rightarrow> node_heap \<Rightarrow> node_heap option" where
  "wr_prev a v m = (case m a of None \<Rightarrow> None | Some n \<Rightarrow> Some (m(a \<mapsto> n\<lparr>prv := v\<rparr>)))"

definition cam_list_init :: "ptr \<Rightarrow> node_heap \<Rightarrow> node_heap option" where
  "cam_list_init p m = do { m \<leftarrow> wr_next p p m; wr_prev p p m }"

definition cam_list_add_tail_node :: "ptr \<Rightarrow> ptr \<Rightarrow> node_heap \<Rightarrow> node_heap option" where
  "cam_list_add_tail_node item head m = do {
     h \<leftarrow> m head;
     let prev = prv h;
     m \<leftarrow> wr_prev head item m;
     m \<leftarrow> wr_next item head m;
     m \<leftarrow> wr_prev item prev m;
     wr_next prev item m }"

definition cam_list_insert_before_node :: "ptr \<Rightarrow> ptr \<Rightarrow> node_heap \<Rightarrow> node_heap option" where
  "cam_list_insert_before_node item node m = do {
     m \<leftarrow> wr_next item node m;
     n \<leftarrow> m node;
     m \<leftarrow> wr_prev item (prv n) m;
     i \<leftarrow> m item;
     m \<leftarrow> wr_next (prv i) item m;
     wr_prev node item m }"

definition cam_list_del_node :: "ptr \<Rightarrow> node_heap \<Rightarrow> node_heap option" where
  "cam_list_del_node p m = do {
     n \<leftarrow> m p;
     let prev = prv n;
     let next = nxt n;
     m \<leftarrow> wr_prev next (prv n) m;
     n \<leftarrow> m p;
     m \<leftarrow> wr_next prev (nxt n) m;
     m \<leftarrow> wr_next p p m;
     wr_prev p p m }"

section \<open>The queue\<close>

text \<open>
  The members of the object. \<^verbatim>\<open>m_dataFn\<close> is only tested and called, so the model keeps whether there
  is one; \<open>m_heap\<close> holds the nodes the queue has allocated and its dummy head, and \<open>m_log\<close> the
  calls of \<^verbatim>\<open>m_dataFn\<close> and of \<^verbatim>\<open>free\<close> on stored data, oldest first.
\<close>

datatype release_act = ReleaseData ptr | FreeData ptr

record QCameraQueue =
  m_head :: ptr
  m_size :: int
  m_dataFn :: bool
  m_heap :: node_heap
  m_log :: "release_act list"

definition new_QCameraQueue :: "ptr \<Rightarrow> bool \<Rightarrow> QCameraQueue option" where
  "new_QCameraQueue head fn = do {
     m \<leftarrow> cam_list_init head [head \<mapsto> \<lparr>nxt = NULL, prv = NULL, data = NULL\<rparr>];
     Some \<lparr>m_head = head, m_size = 0, m_dataFn = fn, m_heap = m, m_log = []\<rparr> }"

definition isEmpty :: "QCameraQueue \<Rightarrow> bool" where
  "isEmpty q \<longleftrightarrow> \<not> m_size q > 0"

text \<open>
  The first argument of the two insertions is what \<^verbatim>\<open>malloc\<close> returns: \<open>None\<close> for \<^verbatim>\<open>NULL\<close>.
\<close>

definition enqueue :: "ptr option \<Rightarrow> ptr \<Rightarrow> QCameraQueue \<Rightarrow> (bool \<times> QCameraQueue) option" where
  "enqueue mem d q = (case mem of
     None \<Rightarrow> Some (False, q)
   | Some node \<Rightarrow> do {
       m \<leftarrow> cam_list_add_tail_node node (m_head q)
             ((m_heap q)(node \<mapsto> \<lparr>nxt = NULL, prv = NULL, data = d\<rparr>));
       Some (True, q\<lparr>m_size := m_size q + 1, m_heap := m\<rparr>) })"

definition enqueueWithPriority ::
    "ptr option \<Rightarrow> ptr \<Rightarrow> QCameraQueue \<Rightarrow> (bool \<times> QCameraQueue) option" where
  "enqueueWithPriority mem d q = (case mem of
     None \<Rightarrow> Some (False, q)
   | Some node \<Rightarrow> do {
       let m = (m_heap q)(node \<mapsto> \<lparr>nxt = NULL, prv = NULL, data = d\<rparr>);
       h \<leftarrow> m (m_head q);
       let p_next = nxt h;
       m \<leftarrow> wr_next (m_head q) node m;
       m \<leftarrow> wr_prev p_next node m;
       m \<leftarrow> wr_next node p_next m;
       m \<leftarrow> wr_prev node (m_head q) m;
       Some (True, q\<lparr>m_size := m_size q + 1, m_heap := m\<rparr>) })"

definition dequeue :: "bool \<Rightarrow> QCameraQueue \<Rightarrow> (ptr \<times> QCameraQueue) option" where
  "dequeue bFromHead q = do {
     h \<leftarrow> m_heap q (m_head q);
     let pos = (if bFromHead then nxt h else prv h);
     if pos \<noteq> m_head q then do {
       m \<leftarrow> cam_list_del_node pos (m_heap q);
       n \<leftarrow> m pos;
       Some (data n, q\<lparr>m_size := m_size q - 1, m_heap := m(pos := None)\<rparr>) }
     else Some (NULL, q) }"

text \<open>Taking a node out while flushing: unlink it, release and free its data, free it.\<close>

definition release_acts :: "bool \<Rightarrow> ptr \<Rightarrow> release_act list" where
  "release_acts fn d =
     (if d \<noteq> NULL then (if fn then [ReleaseData d] else []) @ [FreeData d] else [])"

definition drop_node :: "ptr \<Rightarrow> QCameraQueue \<Rightarrow> QCameraQueue option" where
  "drop_node node q = do {
     m \<leftarrow> cam_list_del_node node (m_heap q);
     n \<leftarrow> m node;
     Some (q\<lparr>m_size := m_size q - 1, m_heap := m(node := None),
       m_log := m_log q @ release_acts (m_dataFn q) (data n)\<rparr>) }"

partial_function (option) flush_loop :: "ptr \<Rightarrow> QCameraQueue \<Rightarrow> QCameraQueue option" where
  "flush_loop pos q =
     (if pos \<noteq> m_head q then do {
        n \<leftarrow> m_heap q pos;
        q \<leftarrow> drop_node pos q;
        flush_loop (nxt n) q }
      else Some q)"

definition flush :: "QCameraQueue \<Rightarrow> QCameraQueue option" where
  "flush q = do {
     h \<leftarrow> m_heap q (m_head q);
     q \<leftarrow> flush_loop (nxt h) q;
     Some (q\<lparr>m_size := 0\<rparr>) }"

text \<open>
  The two overloads of \<^verbatim>\<open>flushNodes\<close> differ in the arguments they hand to the match function only;
  both are this function, with the arguments fixed. \<open>None\<close> is a null function pointer.
\<close>

partial_function (option) flushNodes_loop ::
    "(ptr \<Rightarrow> bool) \<Rightarrow> ptr \<Rightarrow> QCameraQueue \<Rightarrow> QCameraQueue option" where
  "flushNodes_loop match pos q =
     (if pos \<noteq> m_head q then do {
        n \<leftarrow> m_heap q pos;
        q \<leftarrow> (if match (data n) then drop_node pos q else Some q);
        flushNodes_loop match (nxt n) q }
      else Some q)"

definition flushNodes :: "(ptr \<Rightarrow> bool) option \<Rightarrow> QCameraQueue \<Rightarrow> QCameraQueue option" where
  "flushNodes match q = (case match of
     None \<Rightarrow> Some q
   | Some f \<Rightarrow> do {
       h \<leftarrow> m_heap q (m_head q);
       flushNodes_loop f (nxt h) q })"

section \<open>Rings of links\<close>

definition nx :: "node_heap \<Rightarrow> ptr \<Rightarrow> ptr" where
  "nx m a = (case m a of None \<Rightarrow> NULL | Some n \<Rightarrow> nxt n)"

definition pv :: "node_heap \<Rightarrow> ptr \<Rightarrow> ptr" where
  "pv m a = (case m a of None \<Rightarrow> NULL | Some n \<Rightarrow> prv n)"

definition dat :: "node_heap \<Rightarrow> ptr \<Rightarrow> ptr" where
  "dat m a = (case m a of None \<Rightarrow> NULL | Some n \<Rightarrow> data n)"

definition ring :: "(ptr \<Rightarrow> ptr) \<Rightarrow> (ptr \<Rightarrow> ptr) \<Rightarrow> ptr \<Rightarrow> ptr list \<Rightarrow> bool" where
  "ring f g h ns \<longleftrightarrow> successively (\<lambda>a b. f a = b \<and> g b = a) (h # ns @ [h])"

lemma successively_frame:
  assumes "successively P xs"
    and "\<And>a b. a \<in> set (butlast xs) \<Longrightarrow> b \<in> set (tl xs) \<Longrightarrow> P a b \<Longrightarrow> Q a b"
  shows "successively Q xs"
  using assms
proof (induction xs rule: induct_list012)
  case (3 x y zs)
  have "successively Q (y # zs)"
    using 3 by (cases zs) auto
  with 3 show ?case by auto
qed auto

lemma ring_split:
  "ring f g h (us @ vs) \<longleftrightarrow>
     successively (\<lambda>a b. f a = b \<and> g b = a) (h # us)
     \<and> successively (\<lambda>a b. f a = b \<and> g b = a) (vs @ [h])
     \<and> f (last (h # us)) = hd (vs @ [h]) \<and> g (hd (vs @ [h])) = last (h # us)"
proof -
  have "h # (us @ vs) @ [h] = (h # us) @ (vs @ [h])" by simp
  then show ?thesis
    unfolding ring_def by (simp only: successively_append_iff) auto
qed

lemma in_butlast_neq_last: "distinct xs \<Longrightarrow> a \<in> set (butlast xs) \<Longrightarrow> a \<noteq> last xs"
  by (induction xs) (auto split: if_splits)

lemma in_tl_neq_hd: "distinct xs \<Longrightarrow> a \<in> set (tl xs) \<Longrightarrow> a \<noteq> hd xs"
  by (cases xs) auto

text \<open>Writes to the two links of a place in the ring leave the links on both sides alone.\<close>

lemma ring_relink:
  assumes sl: "successively (\<lambda>a b. f a = b \<and> g b = a) (h # us)"
    and sr: "successively (\<lambda>a b. f a = b \<and> g b = a) (vs @ [h])"
    and d: "distinct (h # us @ vs)"
    and p: "p = last (h # us)" and n: "n = hd (vs @ [h])"
    and f: "\<And>a. a \<in> set (h # us @ vs) \<Longrightarrow> a \<noteq> p \<Longrightarrow> f' a = f a"
    and g: "\<And>b. b \<in> set (h # us @ vs) \<Longrightarrow> b \<noteq> n \<Longrightarrow> g' b = g b"
  shows "successively (\<lambda>a b. f' a = b \<and> g' b = a) (h # us)"
    and "successively (\<lambda>a b. f' a = b \<and> g' b = a) (vs @ [h])"
    and "p \<in> set (h # us)" and "n \<in> set (vs @ [h])"
proof -
  show inl: "p \<in> set (h # us)" unfolding p by (rule last_in_set) simp
  show inr: "n \<in> set (vs @ [h])" unfolding n by (rule hd_in_set) simp
  show "successively (\<lambda>a b. f' a = b \<and> g' b = a) (h # us)"
  proof (rule successively_frame [OF sl])
    fix a b assume a: "a \<in> set (butlast (h # us))" and b: "b \<in> set (tl (h # us))"
      and ab: "f a = b \<and> g b = a"
    have "a \<in> set (h # us)" using a by (rule in_set_butlastD)
    moreover have "a \<noteq> p" unfolding p using d a by (intro in_butlast_neq_last) auto
    moreover have "b \<in> set us" "b \<noteq> n" using b d inr by auto
    ultimately show "f' a = b \<and> g' b = a" using ab f [of a] g [of b] by auto
  qed
  show "successively (\<lambda>a b. f' a = b \<and> g' b = a) (vs @ [h])"
  proof (rule successively_frame [OF sr])
    fix a b assume a: "a \<in> set (butlast (vs @ [h]))" and b: "b \<in> set (tl (vs @ [h]))"
      and ab: "f a = b \<and> g b = a"
    have "a \<in> set vs" using a by simp
    moreover have "a \<noteq> p" using d \<open>a \<in> set vs\<close> inl by auto
    moreover have "b \<in> set (vs @ [h])" using b by (metis list.sel(2) list.set_sel(2))
    moreover have "b \<noteq> n" unfolding n using d b by (intro in_tl_neq_hd) auto
    ultimately show "f' a = b \<and> g' b = a" using ab f [of a] g [of b] by auto
  qed
qed

lemma ring_insert:
  assumes r: "ring f g h (us @ vs)" and d: "distinct (h # us @ vs)" and x: "x \<notin> set (h # us @ vs)"
    and p: "p = last (h # us)" and n: "n = hd (vs @ [h])"
    and f': "f' = f(p := x, x := n)" and g': "g' = g(n := x, x := p)"
  shows "ring f' g' h (us @ x # vs)"
proof -
  have sl: "successively (\<lambda>a b. f a = b \<and> g b = a) (h # us)"
    and sr: "successively (\<lambda>a b. f a = b \<and> g b = a) (vs @ [h])"
    using r by (simp_all add: ring_split)
  have f1: "f' a = f a" if "a \<in> set (h # us @ vs)" "a \<noteq> p" for a
    using that x by (auto simp: f')
  have g1: "g' a = g a" if "a \<in> set (h # us @ vs)" "a \<noteq> n" for a
    using that x by (auto simp: g')
  note new = ring_relink [OF sl sr d p n f1 g1]
  have "f' x = n" "g' x = p" "f' p = x" "g' n = x"
    using x new(3,4) by (auto simp: f' g')
  then show ?thesis
    unfolding ring_split [of f' g' h us "x # vs"] append_Cons list.sel p [symmetric]
      successively_Cons [of _ x] n [symmetric] using new(1,2) by blast
qed

lemma ring_delete:
  assumes r: "ring f g h (us @ x # vs)" and d: "distinct (h # us @ x # vs)"
    and p: "p = last (h # us)" and n: "n = hd (vs @ [h])"
    and f': "f' = f(p := n, x := k)" and g': "g' = g(n := p, x := l)"
  shows "ring f' g' h (us @ vs)"
proof -
  have sl: "successively (\<lambda>a b. f a = b \<and> g b = a) (h # us)"
    and "successively (\<lambda>a b. f a = b \<and> g b = a) ((x # vs) @ [h])"
    using r by (simp_all only: ring_split)
  then have sr: "successively (\<lambda>a b. f a = b \<and> g b = a) (vs @ [h])"
    by (simp add: successively_Cons)
  have f1: "f' a = f a" if "a \<in> set (h # us @ vs)" "a \<noteq> p" for a
    using that d by (auto simp: f')
  have g1: "g' a = g a" if "a \<in> set (h # us @ vs)" "a \<noteq> n" for a
    using that d by (auto simp: g')
  have d': "distinct (h # us @ vs)" using d by simp
  note new = ring_relink [OF sl sr d' p n f1 g1]
  have "f' p = n" "g' n = p"
    using d new(3,4) by (auto simp: f' g')
  then show ?thesis
    unfolding ring_split [of f' g' h us vs] using new(1,2)
    by (simp only: p [symmetric] n [symmetric] simp_thms)
qed

lemma ring_neighbours:
  assumes "ring f g h (us @ x # vs)"
  shows "f x = hd (vs @ [h])" and "g x = last (h # us)"
  using assms unfolding ring_split by (simp_all add: successively_Cons)

lemma ring_ends:
  assumes "ring f g h ns"
  shows "f h = hd (ns @ [h])" and "g h = last (h # ns)"
  using assms ring_split [of f g h "[]" ns] ring_split [of f g h ns "[]"] by simp_all

section \<open>What the list operations do to the links\<close>

text \<open>The three views of a heap, and what a write does to them.\<close>

lemma views_upd [simp]:
  "nx (m(a \<mapsto> y)) = (nx m)(a := nxt y)" "nx (m(a := None)) = (nx m)(a := NULL)"
  "pv (m(a \<mapsto> y)) = (pv m)(a := prv y)" "pv (m(a := None)) = (pv m)(a := NULL)"
  "dat (m(a \<mapsto> y)) = (dat m)(a := data y)" "dat (m(a := None)) = (dat m)(a := NULL)"
  by (auto simp: nx_def pv_def dat_def fun_eq_iff)

definition views :: "node_heap \<Rightarrow> ptr set \<Rightarrow> (ptr \<Rightarrow> ptr) \<Rightarrow> (ptr \<Rightarrow> ptr) \<Rightarrow> (ptr \<Rightarrow> ptr) \<Rightarrow> bool" where
  "views m D f g d \<longleftrightarrow> dom m = D \<and> nx m = f \<and> pv m = g \<and> dat m = d"

lemma read_ok:
  assumes "views m D f g d" and "a \<in> D"
  obtains n where "m a = Some n" "nxt n = f a" "prv n = g a" "data n = d a"
  using assms by (auto simp: views_def nx_def pv_def dat_def)

lemma wr_next_ok:
  assumes "views m D f g d" and "a \<in> D"
  obtains m' where "wr_next a v m = Some m'" "views m' D (f(a := v)) g d"
proof -
  obtain n where n: "m a = Some n" "nxt n = f a" "prv n = g a" "data n = d a"
    by (rule read_ok [OF assms])
  show ?thesis
    by (rule that [of "m(a \<mapsto> n\<lparr>nxt := v\<rparr>)"]) (use assms n in \<open>auto simp: views_def wr_next_def\<close>)
qed

lemma wr_prev_ok:
  assumes "views m D f g d" and "a \<in> D"
  obtains m' where "wr_prev a v m = Some m'" "views m' D f (g(a := v)) d"
proof -
  obtain n where n: "m a = Some n" "nxt n = f a" "prv n = g a" "data n = d a"
    by (rule read_ok [OF assms])
  show ?thesis
    by (rule that [of "m(a \<mapsto> n\<lparr>prv := v\<rparr>)"]) (use assms n in \<open>auto simp: views_def wr_prev_def\<close>)
qed

lemma add_tail_ok:
  assumes v: "views m D f g d" and in_D: "h \<in> D" "g h \<in> D" "x \<in> D" and x: "x \<noteq> h" "x \<noteq> g h"
  obtains m' where "cam_list_add_tail_node x h m = Some m'"
    "views m' D (f(g h := x, x := h)) (g(h := x, x := g h)) d"
proof -
  obtain n where n: "m h = Some n" "prv n = g h" by (rule read_ok [OF v in_D(1)])
  obtain m1 where m1: "wr_prev h x m = Some m1" and v1: "views m1 D f (g(h := x)) d"
    by (rule wr_prev_ok [OF v in_D(1)])
  obtain m2 where m2: "wr_next x h m1 = Some m2" and v2: "views m2 D (f(x := h)) (g(h := x)) d"
    by (rule wr_next_ok [OF v1 in_D(3)])
  obtain m3 where m3: "wr_prev x (g h) m2 = Some m3"
    and v3: "views m3 D (f(x := h)) (g(h := x, x := g h)) d"
    by (rule wr_prev_ok [OF v2 in_D(3)])
  obtain m4 where m4: "wr_next (g h) x m3 = Some m4"
    and v4: "views m4 D (f(x := h, g h := x)) (g(h := x, x := g h)) d"
    by (rule wr_next_ok [OF v3 in_D(2)])
  show ?thesis
    by (rule that [of m4]) (use n m1 m2 m3 m4 v4 x in \<open>simp_all add: cam_list_add_tail_node_def fun_upd_twist\<close>)
qed

lemma insert_before_ok:
  assumes v: "views m D f g d" and in_D: "p \<in> D" "g p \<in> D" "x \<in> D" and x: "x \<noteq> p" "x \<noteq> g p"
  obtains m' where "cam_list_insert_before_node x p m = Some m'"
    "views m' D (f(x := p, g p := x)) (g(x := g p, p := x)) d"
proof -
  obtain m1 where m1: "wr_next x p m = Some m1" and v1: "views m1 D (f(x := p)) g d"
    by (rule wr_next_ok [OF v in_D(3)])
  obtain n where n: "m1 p = Some n" "prv n = g p" by (rule read_ok [OF v1 in_D(1)])
  obtain m2 where m2: "wr_prev x (g p) m1 = Some m2" and v2: "views m2 D (f(x := p)) (g(x := g p)) d"
    by (rule wr_prev_ok [OF v1 in_D(3)])
  obtain i where i: "m2 x = Some i" "prv i = g p"
    using read_ok [OF v2 in_D(3)] by (metis fun_upd_same)
  obtain m3 where m3: "wr_next (g p) x m2 = Some m3"
    and v3: "views m3 D (f(x := p, g p := x)) (g(x := g p)) d"
    by (rule wr_next_ok [OF v2 in_D(2)])
  obtain m4 where m4: "wr_prev p x m3 = Some m4"
    and v4: "views m4 D (f(x := p, g p := x)) (g(x := g p, p := x)) d"
    by (rule wr_prev_ok [OF v3 in_D(1)])
  show ?thesis
    by (rule that [of m4])
      (use n i m1 m2 m3 m4 v4 in \<open>simp_all add: cam_list_insert_before_node_def\<close>)
qed

lemma del_ok:
  assumes v: "views m D f g d" and in_D: "x \<in> D" "g x \<in> D" "f x \<in> D" and x: "x \<noteq> f x" "x \<noteq> g x"
  obtains m' where "cam_list_del_node x m = Some m'"
    "views m' D (f(g x := f x, x := x)) (g(f x := g x, x := x)) d"
proof -
  obtain n where n: "m x = Some n" "nxt n = f x" "prv n = g x" by (rule read_ok [OF v in_D(1)])
  obtain m1 where m1: "wr_prev (f x) (g x) m = Some m1" and v1: "views m1 D f (g(f x := g x)) d"
    by (rule wr_prev_ok [OF v in_D(3)])
  obtain i where i: "m1 x = Some i" "nxt i = f x" by (rule read_ok [OF v1 in_D(1)])
  obtain m2 where m2: "wr_next (g x) (f x) m1 = Some m2"
    and v2: "views m2 D (f(g x := f x)) (g(f x := g x)) d"
    by (rule wr_next_ok [OF v1 in_D(2)])
  obtain m3 where m3: "wr_next x x m2 = Some m3"
    and v3: "views m3 D (f(g x := f x, x := x)) (g(f x := g x)) d"
    by (rule wr_next_ok [OF v2 in_D(1)])
  obtain m4 where m4: "wr_prev x x m3 = Some m4"
    and v4: "views m4 D (f(g x := f x, x := x)) (g(f x := g x, x := x)) d"
    by (rule wr_prev_ok [OF v3 in_D(1)])
  show ?thesis
    by (rule that [of m4]) (use n i m1 m2 m3 m4 v4 in \<open>simp_all add: cam_list_del_node_def\<close>)
qed

section \<open>Well-formed queues\<close>

text \<open>
  \<open>queue_at q ns\<close>: the nodes of \<open>q\<close> are \<open>ns\<close>, in order, linked into a ring with the dummy head, they
  are all the heap holds, none is null, and \<^verbatim>\<open>m_size\<close> counts them.
\<close>

definition queue_at :: "QCameraQueue \<Rightarrow> ptr list \<Rightarrow> bool" where
  "queue_at q ns \<longleftrightarrow> distinct (m_head q # ns) \<and> NULL \<notin> set (m_head q # ns)
     \<and> dom (m_heap q) = set (m_head q # ns)
     \<and> ring (nx (m_heap q)) (pv (m_heap q)) (m_head q) ns \<and> m_size q = int (length ns)"

definition stores :: "QCameraQueue \<Rightarrow> ptr list \<Rightarrow> bool" where
  "stores q ds \<longleftrightarrow> (\<exists>ns. queue_at q ns \<and> map (dat (m_heap q)) ns = ds)"

text \<open>What \<^verbatim>\<open>malloc\<close> may return for a node of the queue: null, or an address not in use.\<close>

definition fresh_node :: "ptr option \<Rightarrow> QCameraQueue \<Rightarrow> bool" where
  "fresh_node mem q \<longleftrightarrow> (case mem of None \<Rightarrow> True | Some a \<Rightarrow> a \<noteq> NULL \<and> a \<notin> dom (m_heap q))"

lemma new_queue:
  assumes "h \<noteq> NULL"
  obtains q where "new_QCameraQueue h fn = Some q" "stores q []" "m_log q = []" "m_dataFn q = fn"
  using assms
  by (auto simp: new_QCameraQueue_def cam_list_init_def wr_next_def wr_prev_def stores_def
      queue_at_def ring_def nx_def pv_def)

lemma queue_at_ends:
  assumes "queue_at q ns"
  shows "nx (m_heap q) (m_head q) = hd (ns @ [m_head q])"
    and "pv (m_heap q) (m_head q) = last (m_head q # ns)"
    and "hd (ns @ [m_head q]) \<in> dom (m_heap q)" and "last (m_head q # ns) \<in> dom (m_heap q)"
    and "m_head q \<in> dom (m_heap q)"
  using assms ring_ends [of "nx (m_heap q)" "pv (m_heap q)" "m_head q" ns]
    hd_in_set [of "ns @ [m_head q]"] last_in_set [of "m_head q # ns"]
  by (auto simp: queue_at_def simp del: last.simps)

lemma queue_at_views: "queue_at q ns \<Longrightarrow>
  views (m_heap q) (set (m_head q # ns)) (nx (m_heap q)) (pv (m_heap q)) (dat (m_heap q))"
  by (simp add: views_def queue_at_def)

text \<open>A new node linked in after \<open>us\<close>.\<close>

lemma linked_in:
  assumes q: "queue_at q (us @ vs)" and x: "x \<noteq> NULL" "x \<notin> dom (m_heap q)"
    and p: "p = last (m_head q # us)" and n: "n = hd (vs @ [m_head q])"
    and m': "views m' (insert x (set (m_head q # us @ vs))) ((nx (m_heap q))(p := x, x := n))
      ((pv (m_heap q))(n := x, x := p)) ((dat (m_heap q))(x := v))"
    and q': "q' = q\<lparr>m_size := m_size q + 1, m_heap := m'\<rparr>"
  shows "queue_at q' (us @ x # vs)"
    and "map (dat (m_heap q')) (us @ x # vs) =
      map (dat (m_heap q)) us @ v # map (dat (m_heap q)) vs"
proof -
  have x': "x \<notin> set (m_head q # us @ vs)" and d: "distinct (m_head q # us @ vs)"
    and r: "ring (nx (m_heap q)) (pv (m_heap q)) (m_head q) (us @ vs)"
    using q x by (auto simp: queue_at_def)
  have "ring (nx m') (pv m') (m_head q) (us @ x # vs)"
    by (rule ring_insert [OF r d x' p n]) (use m' in \<open>simp_all add: views_def\<close>)
  then show "queue_at q' (us @ x # vs)"
    using q x x' m' by (auto simp: q' queue_at_def views_def)
  show "map (dat (m_heap q')) (us @ x # vs) =
      map (dat (m_heap q)) us @ v # map (dat (m_heap q)) vs"
    using x' m' by (simp add: q' views_def)
qed

lemma enqueue_stores:
  assumes s: "stores q ds" and x: "x \<noteq> NULL" "x \<notin> dom (m_heap q)"
  obtains q' where "enqueue (Some x) v q = Some (True, q')" "stores q' (ds @ [v])"
    "m_log q' = m_log q" "m_dataFn q' = m_dataFn q" "dom (m_heap q') = insert x (dom (m_heap q))"
proof -
  let ?h = "m_head q" and ?m = "(m_heap q)(x \<mapsto> \<lparr>nxt = NULL, prv = NULL, data = v\<rparr>)"
  obtain ns where q: "queue_at q ns" and ds: "map (dat (m_heap q)) ns = ds"
    using s by (auto simp: stores_def)
  let ?D = "insert x (set (?h # ns))"
  have x': "x \<notin> set (?h # ns)" using x q by (auto simp: queue_at_def)
  have v: "views ?m ?D ((nx (m_heap q))(x := NULL)) ((pv (m_heap q))(x := NULL)) ((dat (m_heap q))(x := v))"
    using q by (auto simp: views_def queue_at_def)
  have pl: "((pv (m_heap q))(x := NULL)) ?h = last (?h # ns)"
    using x' queue_at_ends(2) [OF q] by simp
  have plin: "last (?h # ns) \<in> set (?h # ns)" by (rule last_in_set) simp
  obtain m' where m': "cam_list_add_tail_node x ?h ?m = Some m'"
    and v': "views m' ?D ((nx (m_heap q))(last (?h # ns) := x, x := ?h))
      ((pv (m_heap q))(?h := x, x := last (?h # ns))) ((dat (m_heap q))(x := v))"
  proof (rule add_tail_ok [OF v, of ?h x], goal_cases)
    case (6 m')
    then show ?case using that [of m'] x' plin unfolding pl by (simp add: fun_upd_twist)
  qed (use x' plin pl in auto)
  have "queue_at (q\<lparr>m_size := m_size q + 1, m_heap := m'\<rparr>) (ns @ [x])"
    and "map (dat m') (ns @ [x]) = ds @ [v]"
    using linked_in [of q ns "[]" x "last (?h # ns)" ?h m' v] q x v' ds by auto
  then have "stores (q\<lparr>m_size := m_size q + 1, m_heap := m'\<rparr>) (ds @ [v])"
    by (auto simp: stores_def)
  with m' v' q show ?thesis
    by (intro that [of "q\<lparr>m_size := m_size q + 1, m_heap := m'\<rparr>"])
      (auto simp: enqueue_def views_def queue_at_def)
qed

lemma enqueueWithPriority_stores:
  assumes s: "stores q ds" and x: "x \<noteq> NULL" "x \<notin> dom (m_heap q)"
  obtains q' where "enqueueWithPriority (Some x) v q = Some (True, q')" "stores q' (v # ds)"
    "m_log q' = m_log q" "m_dataFn q' = m_dataFn q" "dom (m_heap q') = insert x (dom (m_heap q))"
proof -
  let ?h = "m_head q" and ?m = "(m_heap q)(x \<mapsto> \<lparr>nxt = NULL, prv = NULL, data = v\<rparr>)"
  obtain ns where q: "queue_at q ns" and ds: "map (dat (m_heap q)) ns = ds"
    using s by (auto simp: stores_def)
  let ?D = "insert x (set (?h # ns))" and ?p = "hd (ns @ [?h])"
  have x': "x \<notin> set (?h # ns)" using x q by (auto simp: queue_at_def)
  have v: "views ?m ?D ((nx (m_heap q))(x := NULL)) ((pv (m_heap q))(x := NULL)) ((dat (m_heap q))(x := v))"
    using q by (auto simp: views_def queue_at_def)
  have pin: "?p \<in> ?D" using queue_at_ends(3) [OF q] q by (auto simp: queue_at_def)
  have pl: "((nx (m_heap q))(x := NULL)) ?h = ?p"
    using x' queue_at_ends(1) [OF q] by simp
  have hin: "?h \<in> ?D" and xin: "x \<in> ?D" by auto
  obtain n where n: "?m ?h = Some n" "nxt n = ?p"
    using read_ok [OF v hin] pl by metis
  obtain m1 where m1: "wr_next ?h x ?m = Some m1"
    and v1: "views m1 ?D ((nx (m_heap q))(x := NULL, ?h := x)) ((pv (m_heap q))(x := NULL)) ((dat (m_heap q))(x := v))"
    by (rule wr_next_ok [OF v hin])
  obtain m2 where m2: "wr_prev ?p x m1 = Some m2"
    and v2: "views m2 ?D ((nx (m_heap q))(x := NULL, ?h := x)) ((pv (m_heap q))(x := NULL, ?p := x)) ((dat (m_heap q))(x := v))"
    by (rule wr_prev_ok [OF v1 pin])
  obtain m3 where m3: "wr_next x ?p m2 = Some m3"
    and v3: "views m3 ?D ((nx (m_heap q))(x := NULL, ?h := x, x := ?p)) ((pv (m_heap q))(x := NULL, ?p := x)) ((dat (m_heap q))(x := v))"
    by (rule wr_next_ok [OF v2 xin])
  obtain m4 where m4: "wr_prev x ?h m3 = Some m4"
    and v4: "views m4 ?D ((nx (m_heap q))(x := NULL, ?h := x, x := ?p)) ((pv (m_heap q))(x := NULL, ?p := x, x := ?h)) ((dat (m_heap q))(x := v))"
    by (rule wr_prev_ok [OF v3 xin])
  have xp: "x \<noteq> ?h" "x \<noteq> ?p" using x' queue_at_ends(3) [OF q] x by auto
  have "(nx (m_heap q))(x := NULL, ?h := x, x := ?p) = (nx (m_heap q))(?h := x, x := ?p)"
    "(pv (m_heap q))(x := NULL, ?p := x, x := ?h) = (pv (m_heap q))(?p := x, x := ?h)"
    using xp by (auto simp: fun_eq_iff)
  note v4 = v4 [unfolded this]
  have "queue_at (q\<lparr>m_size := m_size q + 1, m_heap := m4\<rparr>) (x # ns)" and "map (dat m4) (x # ns) = v # ds"
    using linked_in [of q "[]" ns x ?h ?p m4 v] q x v4 ds by auto
  then have "stores (q\<lparr>m_size := m_size q + 1, m_heap := m4\<rparr>) (v # ds)"
    unfolding stores_def by (intro exI [of _ "x # ns"]) simp
  with n m1 m2 m3 m4 v4 q show ?thesis
    by (intro that [of "q\<lparr>m_size := m_size q + 1, m_heap := m4\<rparr>"])
      (auto simp: enqueueWithPriority_def views_def queue_at_def Let_def)
qed

text \<open>A node unlinked and freed.\<close>

lemma unlinked:
  assumes q: "queue_at q (us @ x # vs)"
  obtains m' n where "cam_list_del_node x (m_heap q) = Some m'" "m' x = Some n"
    "data n = dat (m_heap q) x"
    "queue_at (q\<lparr>m_size := m_size q - 1, m_heap := m'(x := None)\<rparr>) (us @ vs)"
    "\<forall>a. a \<noteq> x \<longrightarrow> dat (m'(x := None)) a = dat (m_heap q) a"
proof -
  let ?h = "m_head q" and ?f = "nx (m_heap q)" and ?g = "pv (m_heap q)"
  let ?D = "set (?h # us @ x # vs)"
  have d: "distinct (?h # us @ x # vs)" and r: "ring ?f ?g ?h (us @ x # vs)"
    using q by (simp_all add: queue_at_def)
  have fx: "?f x = hd (vs @ [?h])" and gx: "?g x = last (?h # us)"
    using ring_neighbours [OF r] by simp_all
  have fin: "?f x \<in> set (vs @ [?h])" unfolding fx by (rule hd_in_set) simp
  have gin: "?g x \<in> set (?h # us)" unfolding gx by (rule last_in_set) simp
  have v: "views (m_heap q) ?D ?f ?g (dat (m_heap q))"
    using queue_at_views [OF q] by simp
  obtain m' where m': "cam_list_del_node x (m_heap q) = Some m'"
    and v': "views m' ?D (?f(?g x := ?f x, x := x)) (?g(?f x := ?g x, x := x)) (dat (m_heap q))"
    by (rule del_ok [OF v, of x]) (use d fin gin in auto)
  obtain n where n: "m' x = Some n" "data n = dat (m_heap q) x"
    using read_ok [OF v', of x] by auto
  have "ring (nx (m'(x := None))) (pv (m'(x := None))) ?h (us @ vs)"
    by (rule ring_delete [OF r d gx fx, where k = NULL and l = NULL])
      (use v' in \<open>simp_all add: views_def\<close>)
  then have "queue_at (q\<lparr>m_size := m_size q - 1, m_heap := m'(x := None)\<rparr>) (us @ vs)"
    using q v' by (auto simp: queue_at_def views_def)
  moreover have "\<forall>a. a \<noteq> x \<longrightarrow> dat (m'(x := None)) a = dat (m_heap q) a"
    using v' by (simp add: views_def)
  ultimately show ?thesis using m' n by (intro that)
qed

lemma dequeue_empty: "stores q [] \<Longrightarrow> dequeue b q = Some (NULL, q)"
  using queue_at_ends [of q "[]"]
  by (auto simp: stores_def dequeue_def nx_def pv_def split: option.splits)

lemma dequeue_at:
  assumes q: "queue_at q (us @ x # vs)" and b: "if b then us = [] else vs = []"
  obtains q' where "dequeue b q = Some (dat (m_heap q) x, q')"
    "stores q' (map (dat (m_heap q)) (us @ vs))" "m_log q' = m_log q" "m_dataFn q' = m_dataFn q"
    "dom (m_heap q') \<subseteq> dom (m_heap q)"
proof -
  let ?h = "m_head q"
  obtain m' n where m': "cam_list_del_node x (m_heap q) = Some m'" "m' x = Some n"
    "data n = dat (m_heap q) x"
    and q': "queue_at (q\<lparr>m_size := m_size q - 1, m_heap := m'(x := None)\<rparr>) (us @ vs)"
    and dat: "\<forall>a. a \<noteq> x \<longrightarrow> dat (m'(x := None)) a = dat (m_heap q) a"
    by (rule unlinked [OF q])
  have x: "x \<noteq> ?h" "x \<notin> set (us @ vs)" using q by (auto simp: queue_at_def)
  obtain k where k: "m_heap q ?h = Some k" "(if b then nxt k else prv k) = x"
  proof -
    have "?h \<in> set (?h # us @ x # vs)" by simp
    from read_ok [OF queue_at_views [OF q] this] obtain k where
      "m_heap q ?h = Some k" "nxt k = nx (m_heap q) ?h" "prv k = pv (m_heap q) ?h" by metis
    then show ?thesis using that [of k] b queue_at_ends(1,2) [OF q] by (auto split: if_splits)
  qed
  let ?q = "q\<lparr>m_size := m_size q - 1, m_heap := m'(x := None)\<rparr>"
  have "map (dat (m_heap ?q)) (us @ vs) = map (dat (m_heap q)) (us @ vs)"
    unfolding map_eq_conv using dat x by auto
  then have "stores ?q (map (dat (m_heap q)) (us @ vs))"
    using q' unfolding stores_def by blast
  moreover have "dequeue b q = Some (dat (m_heap q) x, ?q)"
    unfolding dequeue_def using k m' x by (auto simp: Let_def)
  moreover have "dom (m_heap ?q) \<subseteq> dom (m_heap q)" using q q' by (auto simp: queue_at_def)
  ultimately show ?thesis by (intro that [of ?q]) simp_all
qed

lemma dequeue_head:
  assumes "stores q (d # ds)"
  obtains q' where "dequeue True q = Some (d, q')" "stores q' ds" "m_log q' = m_log q"
    "m_dataFn q' = m_dataFn q" "dom (m_heap q') \<subseteq> dom (m_heap q)"
proof -
  obtain x vs where "queue_at q ([] @ x # vs)" "dat (m_heap q) x = d" "map (dat (m_heap q)) vs = ds"
    using assms by (auto simp: stores_def)
  then show ?thesis using dequeue_at [of q "[]" x vs True] that by auto
qed

lemma dequeue_tail:
  assumes "stores q (ds @ [d])"
  obtains q' where "dequeue False q = Some (d, q')" "stores q' ds" "m_log q' = m_log q"
    "m_dataFn q' = m_dataFn q" "dom (m_heap q') \<subseteq> dom (m_heap q)"
proof -
  obtain ns where "queue_at q ns" "map (dat (m_heap q)) ns = ds @ [d]"
    using assms by (auto simp: stores_def)
  then obtain us x where "queue_at q (us @ x # [])" "dat (m_heap q) x = d"
    "map (dat (m_heap q)) us = ds"
    by (auto simp: map_eq_append_conv)
  then show ?thesis using dequeue_at [of q us x "[]" False] that by auto
qed

section \<open>Flushing\<close>

lemma drop_node_at:
  assumes q: "queue_at q (us @ x # vs)"
  obtains q' where "drop_node x q = Some q'" "queue_at q' (us @ vs)" "m_head q' = m_head q"
    "m_dataFn q' = m_dataFn q"
    "m_log q' = m_log q @ release_acts (m_dataFn q) (dat (m_heap q) x)"
    "map (dat (m_heap q')) (us @ vs) = map (dat (m_heap q)) (us @ vs)"
proof -
  obtain m' n where m': "cam_list_del_node x (m_heap q) = Some m'" "m' x = Some n"
    "data n = dat (m_heap q) x"
    and q': "queue_at (q\<lparr>m_size := m_size q - 1, m_heap := m'(x := None)\<rparr>) (us @ vs)"
    and dat: "\<forall>a. a \<noteq> x \<longrightarrow> dat (m'(x := None)) a = dat (m_heap q) a"
    by (rule unlinked [OF q])
  have x: "x \<notin> set (us @ vs)" using q by (auto simp: queue_at_def)
  then have eq: "map (dat (m'(x := None))) (us @ vs) = map (dat (m_heap q)) (us @ vs)"
    unfolding map_eq_conv using dat by auto
  let ?q = "q\<lparr>m_size := m_size q - 1, m_heap := m'(x := None),
    m_log := m_log q @ release_acts (m_dataFn q) (data n)\<rparr>"
  have "drop_node x q = Some ?q" using m' by (simp add: drop_node_def)
  moreover have "queue_at ?q (us @ vs)" using q' by (simp add: queue_at_def)
  ultimately show ?thesis using that [of ?q] eq m'(3) by simp
qed

text \<open>The loop of \<^verbatim>\<open>flushNodes\<close> from the node after \<open>us\<close>; that of \<^verbatim>\<open>flush\<close> is the case of a match that
  always holds.\<close>

lemma next_of:
  assumes "queue_at q (us @ x # vs)"
  obtains n where "m_heap q x = Some n" "nxt n = hd (vs @ [m_head q])" "data n = dat (m_heap q) x"
proof -
  have "x \<in> set (m_head q # us @ x # vs)" by simp
  from read_ok [OF queue_at_views [OF assms] this] show ?thesis
    using that ring_neighbours(1) [of "nx (m_heap q)" "pv (m_heap q)" "m_head q" us x vs] assms
    by (metis queue_at_def)
qed

lemma flushNodes_loop_at:
  "queue_at q (us @ vs) \<Longrightarrow> m_head q = h \<Longrightarrow> \<exists>q' vs'. flushNodes_loop f (hd (vs @ [h])) q = Some q'
     \<and> queue_at q' (us @ vs') \<and> m_dataFn q' = m_dataFn q
     \<and> map (dat (m_heap q')) us = map (dat (m_heap q)) us
     \<and> map (dat (m_heap q')) vs' = filter (\<lambda>d. \<not> f d) (map (dat (m_heap q)) vs)
     \<and> m_log q' = m_log q @ concat (map (release_acts (m_dataFn q)) (filter f (map (dat (m_heap q)) vs)))"
proof (induction vs arbitrary: us q)
  case Nil
  then show ?case by (subst flushNodes_loop.simps) (auto intro!: exI [of _ "[]"])
next
  case (Cons x vs)
  have xh: "x \<noteq> h" using Cons.prems by (auto simp: queue_at_def)
  obtain n where n: "m_heap q x = Some n" "nxt n = hd (vs @ [h])" "data n = dat (m_heap q) x"
    using next_of [OF Cons.prems(1)] Cons.prems(2) by auto
  show ?case
  proof (cases "f (dat (m_heap q) x)")
    case True
    obtain q1 where q1: "drop_node x q = Some q1" "queue_at q1 (us @ vs)" "m_head q1 = m_head q"
      "m_dataFn q1 = m_dataFn q" "m_log q1 = m_log q @ release_acts (m_dataFn q) (dat (m_heap q) x)"
      "map (dat (m_heap q1)) (us @ vs) = map (dat (m_heap q)) (us @ vs)"
      by (rule drop_node_at [OF Cons.prems(1)])
    have m: "map (dat (m_heap q1)) us = map (dat (m_heap q)) us"
      "map (dat (m_heap q1)) vs = map (dat (m_heap q)) vs"
      using q1(6) by simp_all
    have "m_head q1 = h" using q1(3) Cons.prems(2) by simp
    with Cons.IH [OF q1(2) this, unfolded m q1(4,5)] q1(1) Cons.prems(2) True n xh show ?thesis
      by (subst flushNodes_loop.simps) simp
  next
    case False
    have "queue_at q ((us @ [x]) @ vs)" using Cons.prems by simp
    from Cons.IH [OF this Cons.prems(2)] obtain q' vs' where
      "flushNodes_loop f (hd (vs @ [h])) q = Some q'" "queue_at q' (us @ x # vs')"
      "m_dataFn q' = m_dataFn q"
      "map (dat (m_heap q')) (us @ [x]) = map (dat (m_heap q)) (us @ [x])"
      "map (dat (m_heap q')) vs' = filter (\<lambda>d. \<not> f d) (map (dat (m_heap q)) vs)"
      "m_log q' = m_log q @ concat (map (release_acts (m_dataFn q)) (filter f (map (dat (m_heap q)) vs)))"
      by auto
    with False n xh Cons.prems(2) show ?thesis
      by (subst flushNodes_loop.simps) (auto intro!: exI [of _ "x # vs'"])
  qed
qed

lemma flush_loop_at:
  "queue_at q vs \<Longrightarrow> m_head q = h \<Longrightarrow> \<exists>q'. flush_loop (hd (vs @ [h])) q = Some q' \<and> queue_at q' []
     \<and> m_dataFn q' = m_dataFn q
     \<and> m_log q' = m_log q @ concat (map (release_acts (m_dataFn q)) (map (dat (m_heap q)) vs))"
proof (induction vs arbitrary: q)
  case Nil
  then show ?case by (subst flush_loop.simps) auto
next
  case (Cons x vs)
  have q: "queue_at q ([] @ x # vs)" and xh: "x \<noteq> h"
    using Cons.prems by (auto simp: queue_at_def)
  obtain n where n: "m_heap q x = Some n" "nxt n = hd (vs @ [h])"
    using next_of [OF q] Cons.prems(2) by auto
  obtain q1 where q1: "drop_node x q = Some q1" "queue_at q1 vs" "m_head q1 = m_head q"
    "m_dataFn q1 = m_dataFn q" "m_log q1 = m_log q @ release_acts (m_dataFn q) (dat (m_heap q) x)"
    "map (dat (m_heap q1)) vs = map (dat (m_heap q)) vs"
    using drop_node_at [OF q] by (metis append_Nil)
  with Cons.IH [OF q1(2)] Cons.prems(2) n xh show ?case
    by (subst flush_loop.simps) auto
qed

lemma head_read:
  assumes "queue_at q ns"
  obtains n where "m_heap q (m_head q) = Some n" "nxt n = hd (ns @ [m_head q])"
proof -
  have "m_head q \<in> set (m_head q # ns)" by simp
  from read_ok [OF queue_at_views [OF assms] this] show ?thesis
    using that queue_at_ends(1) [OF assms] by metis
qed

lemma flush_stores:
  assumes "stores q ds"
  obtains q' where "flush q = Some q'" "stores q' []" "m_dataFn q' = m_dataFn q"
    "m_log q' = m_log q @ concat (map (release_acts (m_dataFn q)) ds)"
proof -
  obtain ns where q: "queue_at q ns" and ds: "map (dat (m_heap q)) ns = ds"
    using assms by (auto simp: stores_def)
  obtain n where n: "m_heap q (m_head q) = Some n" "nxt n = hd (ns @ [m_head q])"
    by (rule head_read [OF q])
  obtain q' where q': "flush_loop (hd (ns @ [m_head q])) q = Some q'" "queue_at q' []"
    "m_dataFn q' = m_dataFn q" "m_log q' = m_log q @ concat (map (release_acts (m_dataFn q)) ds)"
    using flush_loop_at [OF q refl] ds by auto
  have "queue_at (q'\<lparr>m_size := 0\<rparr>) []" using q'(2) by (simp add: queue_at_def)
  then have "stores (q'\<lparr>m_size := 0\<rparr>) []" by (auto simp: stores_def)
  with n q' show ?thesis
    by (intro that [of "q'\<lparr>m_size := 0\<rparr>"]) (simp_all add: flush_def)
qed

lemma flushNodes_stores:
  assumes "stores q ds"
  obtains q' where "flushNodes (Some f) q = Some q'" "stores q' (filter (\<lambda>d. \<not> f d) ds)"
    "m_dataFn q' = m_dataFn q"
    "m_log q' = m_log q @ concat (map (release_acts (m_dataFn q)) (filter f ds))"
proof -
  obtain ns where q: "queue_at q ns" and ds: "map (dat (m_heap q)) ns = ds"
    using assms by (auto simp: stores_def)
  obtain n where n: "m_heap q (m_head q) = Some n" "nxt n = hd (ns @ [m_head q])"
    by (rule head_read [OF q])
  obtain q' vs' where q': "flushNodes_loop f (hd (ns @ [m_head q])) q = Some q'" "queue_at q' vs'"
    "m_dataFn q' = m_dataFn q" "map (dat (m_heap q')) vs' = filter (\<lambda>d. \<not> f d) ds"
    "m_log q' = m_log q @ concat (map (release_acts (m_dataFn q)) (filter f ds))"
    using flushNodes_loop_at [of q "[]" ns "m_head q" f] q ds by auto
  then have "stores q' (filter (\<lambda>d. \<not> f d) ds)" by (auto simp: stores_def)
  with n q' show ?thesis
    by (intro that [of q']) (simp_all add: flushNodes_def)
qed

lemma stores_size: "stores q ds \<Longrightarrow> m_size q = int (length ds)"
  by (auto simp: stores_def queue_at_def)

lemma stores_isEmpty: "stores q ds \<Longrightarrow> isEmpty q = (ds = [])"
  by (auto simp: isEmpty_def dest: stores_size)

lemma ring_unique:
  "successively (\<lambda>a b. f a = b \<and> g b = a) (a # ns @ [h]) \<Longrightarrow>
   successively (\<lambda>a b. f a = b \<and> g b = a) (a # ns' @ [h]) \<Longrightarrow> h \<notin> set ns \<Longrightarrow> h \<notin> set ns' \<Longrightarrow> ns = ns'"
proof (induction ns arbitrary: a ns')
  case Nil
  then show ?case by (cases ns') auto
next
  case (Cons x ns)
  then obtain y ms where ns': "ns' = y # ms" by (cases ns') auto
  with Cons.prems have "y = x" by simp
  with Cons.IH [of x ms] Cons.prems show ?case by (simp add: ns')
qed

lemma stores_unique: "stores q ds \<Longrightarrow> stores q ds' \<Longrightarrow> ds = ds'"
proof -
  assume "stores q ds" "stores q ds'"
  then obtain ns ns' where ns: "queue_at q ns" "map (dat (m_heap q)) ns = ds"
    and ns': "queue_at q ns'" "map (dat (m_heap q)) ns' = ds'"
    by (auto simp: stores_def)
  have "ns = ns'"
    by (rule ring_unique [of "nx (m_heap q)" "pv (m_heap q)" "m_head q" ns "m_head q" ns'])
      (use ns(1) ns'(1) in \<open>auto simp: queue_at_def ring_def\<close>)
  with ns ns' show ?thesis by simp
qed

section \<open>The interface of the queue\<close>

text \<open>
  What the clients of the queue rely on: insertion at the tail that fails only when there is no
  memory, removal from the head, and a distinguished value for "nothing there".
\<close>

locale fifo_queue =
  fixes enq :: "ptr option \<Rightarrow> 'd \<Rightarrow> 'q \<Rightarrow> (bool \<times> 'q) option"
    and deq :: "'q \<Rightarrow> ('d \<times> 'q) option"
    and holds :: "'q \<Rightarrow> 'd list \<Rightarrow> bool"
    and fresh :: "ptr option \<Rightarrow> 'q \<Rightarrow> bool"
    and nothing :: 'd
  assumes enq_ok: "holds q ds \<Longrightarrow> fresh (Some a) q \<Longrightarrow>
      \<exists>q'. enq (Some a) d q = Some (True, q') \<and> holds q' (ds @ [d])"
    and enq_no_memory: "enq None d q = Some (False, q)"
    and deq_empty: "holds q [] \<Longrightarrow> deq q = Some (nothing, q)"
    and deq_ok: "holds q (d # ds) \<Longrightarrow> \<exists>q'. deq q = Some (d, q') \<and> holds q' ds"

text \<open>
  A use of a queue: a sequence of insertions, each with what \<^verbatim>\<open>malloc\<close> returned, and removals. The
  result is what was accepted, what was taken out and the queue; \<open>None\<close> is a fault.
\<close>

datatype 'd qop = Put "ptr option" 'd | Get

fun queue_run ::
    "(ptr option \<Rightarrow> 'd \<Rightarrow> 'q \<Rightarrow> (bool \<times> 'q) option) \<Rightarrow> ('q \<Rightarrow> ('d \<times> 'q) option) \<Rightarrow> 'd qop list \<Rightarrow> 'q
     \<Rightarrow> ('d list \<times> 'd list \<times> 'q) option" where
  "queue_run enq deq [] q = Some ([], [], q)"
| "queue_run enq deq (Put a d # ops) q = do {
     (b, q) \<leftarrow> enq a d q;
     (put, got, q) \<leftarrow> queue_run enq deq ops q;
     Some ((if b then d # put else put), got, q) }"
| "queue_run enq deq (Get # ops) q = do {
     (d, q) \<leftarrow> deq q;
     (put, got, q) \<leftarrow> queue_run enq deq ops q;
     Some (put, d # got, q) }"

text \<open>Every address \<^verbatim>\<open>malloc\<close> returns during the run is free at that point.\<close>

fun fresh_run ::
    "(ptr option \<Rightarrow> 'd \<Rightarrow> 'q \<Rightarrow> (bool \<times> 'q) option) \<Rightarrow> ('q \<Rightarrow> ('d \<times> 'q) option)
     \<Rightarrow> (ptr option \<Rightarrow> 'q \<Rightarrow> bool) \<Rightarrow> 'd qop list \<Rightarrow> 'q \<Rightarrow> bool" where
  "fresh_run enq deq fresh [] q = True"
| "fresh_run enq deq fresh (Put a d # ops) q =
     (fresh a q \<and> (case enq a d q of None \<Rightarrow> True | Some (b, q) \<Rightarrow> fresh_run enq deq fresh ops q))"
| "fresh_run enq deq fresh (Get # ops) q =
     (case deq q of None \<Rightarrow> True | Some (d, q) \<Rightarrow> fresh_run enq deq fresh ops q)"

fun puts :: "'d qop list \<Rightarrow> 'd list" where
  "puts [] = []"
| "puts (Put a d # ops) = d # puts ops"
| "puts (Get # ops) = puts ops"

context fifo_queue
begin

lemma run_conserves:
  assumes "holds q ds" and "fresh_run enq deq fresh ops q" and "nothing \<notin> set ds"
    and "nothing \<notin> set (puts ops)"
  shows "\<exists>put got q' ds'. queue_run enq deq ops q = Some (put, got, q') \<and> holds q' ds'
    \<and> filter (\<lambda>d. d \<noteq> nothing) got @ ds' = ds @ put"
  using assms
proof (induction ops arbitrary: q ds)
  case Nil
  then show ?case by auto
next
  case (Cons op ops)
  show ?case
  proof (cases op)
    case Get
    show ?thesis
    proof (cases ds)
      case Nil
      with Cons.prems Get Cons.IH [of q "[]"] show ?thesis
        by (auto simp: deq_empty)
    next
      case (Cons d ds1)
      with Cons.prems obtain q1 where q1: "deq q = Some (d, q1)" "holds q1 ds1"
        using deq_ok by blast
      with Cons Cons.prems Get Cons.IH [of q1 ds1] show ?thesis by auto
    qed
  next
    case (Put a d)
    show ?thesis
    proof (cases a)
      case None
      with Put Cons.prems Cons.IH [of q ds] show ?thesis by (auto simp: enq_no_memory)
    next
      case (Some x)
      with Put Cons.prems obtain q1 where q1: "enq (Some x) d q = Some (True, q1)" "holds q1 (ds @ [d])"
        using enq_ok by fastforce
      with Some Put Cons.prems Cons.IH [of q1 "ds @ [d]"] show ?thesis by auto
    qed
  qed
qed

end

lemma dequeue_ok: "stores q (d # ds) \<Longrightarrow> \<exists>q'. dequeue True q = Some (d, q') \<and> stores q' ds"
  by (elim dequeue_head) blast

lemma enqueue_ok: "stores q ds \<Longrightarrow> fresh_node (Some a) q \<Longrightarrow>
  \<exists>q'. enqueue (Some a) d q = Some (True, q') \<and> stores q' (ds @ [d])"
  using enqueue_stores [of q ds a d] by (auto simp: fresh_node_def)

interpretation cam_q: fifo_queue enqueue "dequeue True" stores fresh_node NULL
  by unfold_locales (simp_all add: enqueue_ok dequeue_ok dequeue_empty, simp add: enqueue_def)

section \<open>Properties\<close>

text \<open>A fresh queue with a release function, for the examples.\<close>

definition queue0 :: QCameraQueue where
  "queue0 = the (new_QCameraQueue 1 True)"

lemma queue0_stores: "stores queue0 []" "m_log queue0 = []" "m_dataFn queue0" "fresh_node (Some 2) queue0"
  by (auto simp: queue0_def new_QCameraQueue_def cam_list_init_def wr_next_def wr_prev_def stores_def
      queue_at_def ring_def nx_def pv_def fresh_node_def)



text \<open>
  C7. The pointer operations refine the list operations: on a queue that stores \<open>ds\<close>, insertion
  with and without priority adds at the head and at the tail, removal takes the head or the tail,
  and removal from an empty queue returns \<^verbatim>\<open>NULL\<close> and changes nothing.
\<close>

theorem queue_refines_list:
  assumes "stores q ds" and "fresh_node (Some x) q"
  shows "(\<exists>q'. enqueue (Some x) v q = Some (True, q') \<and> stores q' (ds @ [v]))
    \<and> (\<exists>q'. enqueueWithPriority (Some x) v q = Some (True, q') \<and> stores q' (v # ds))
    \<and> (ds \<noteq> [] \<longrightarrow> (\<exists>q'. dequeue True q = Some (hd ds, q') \<and> stores q' (tl ds)))
    \<and> (ds \<noteq> [] \<longrightarrow> (\<exists>q'. dequeue False q = Some (last ds, q') \<and> stores q' (butlast ds)))
    \<and> (ds = [] \<longrightarrow> dequeue b q = Some (NULL, q))"
proof (intro conjI impI)
  show "\<exists>q'. enqueue (Some x) v q = Some (True, q') \<and> stores q' (ds @ [v])"
    using assms by (rule enqueue_ok)
  show "\<exists>q'. enqueueWithPriority (Some x) v q = Some (True, q') \<and> stores q' (v # ds)"
    using assms enqueueWithPriority_stores [of q ds x v] by (auto simp: fresh_node_def)
  show "\<exists>q'. dequeue True q = Some (hd ds, q') \<and> stores q' (tl ds)" if "ds \<noteq> []"
    using that assms dequeue_ok [of q "hd ds" "tl ds"] by simp
  show "\<exists>q'. dequeue False q = Some (last ds, q') \<and> stores q' (butlast ds)" if "ds \<noteq> []"
    using that assms dequeue_tail [of q "butlast ds" "last ds"] by (metis append_butlast_last_id)
  show "dequeue b q = Some (NULL, q)" if "ds = []"
    using that assms by (simp add: dequeue_empty)
qed

theorem queue_refines_list_witness:
  "(\<exists>q'. enqueueWithPriority (Some 2) 7 queue0 = Some (True, q') \<and> stores q' [7])
    \<and> dequeue False queue0 = Some (NULL, queue0)"
  using queue_refines_list [OF queue0_stores(1,4), of 7 False] by simp

text \<open>
  C28. \<^verbatim>\<open>flush\<close> returns on every well-formed queue, leaves it empty with size 0, and hands each stored
  datum that is not null to the release function (when there is one) and to \<^verbatim>\<open>free\<close>, once and in
  order.
\<close>

theorem queue_flush_releases_all:
  assumes "stores q ds"
  shows "\<exists>q'. flush q = Some q' \<and> stores q' [] \<and> m_size q' = 0
    \<and> m_log q' = m_log q @ concat (map (release_acts (m_dataFn q)) ds)"
  using flush_stores [OF assms] stores_size by (metis list.size(3) of_nat_0)

theorem queue_flush_releases_all_witness:
  "\<exists>q'. flush (snd (the (enqueue (Some 2) 7 queue0))) = Some q' \<and> stores q' [] \<and> m_size q' = 0
    \<and> m_log q' = [ReleaseData 7, FreeData 7]"
proof -
  obtain q where q: "enqueue (Some 2) 7 queue0 = Some (True, q)" "stores q [7]"
    "m_log q = m_log queue0" "m_dataFn q = m_dataFn queue0"
    by (rule enqueue_stores [OF queue0_stores(1), of 2 7])
      (use queue0_stores(4) in \<open>auto simp: fresh_node_def\<close>)
  then show ?thesis
    using queue_flush_releases_all [of q "[7]"] queue0_stores
    by (simp add: release_acts_def)
qed

text \<open>
  \<^verbatim>\<open>flushNodes\<close> returns on every well-formed queue, keeps the data that do not match in their
  order, and releases and frees exactly those that match.
\<close>

theorem queue_flushNodes_filters:
  assumes "stores q ds"
  shows "\<exists>q'. flushNodes (Some match) q = Some q' \<and> stores q' (filter (\<lambda>d. \<not> match d) ds)
    \<and> m_log q' = m_log q @ concat (map (release_acts (m_dataFn q)) (filter match ds))"
  by (rule flushNodes_stores [OF assms, of match]) blast

theorem queue_flushNodes_filters_witness:
  "\<exists>q'. flushNodes (Some (\<lambda>d. d = 7)) (snd (the (enqueue (Some 2) 7 queue0))) = Some q'
    \<and> stores q' [] \<and> m_log q' = [ReleaseData 7, FreeData 7]"
proof -
  obtain q where q: "enqueue (Some 2) 7 queue0 = Some (True, q)" "stores q [7]"
    "m_log q = m_log queue0" "m_dataFn q = m_dataFn queue0"
    by (rule enqueue_stores [OF queue0_stores(1), of 2 7])
      (use queue0_stores(4) in \<open>auto simp: fresh_node_def\<close>)
  then show ?thesis
    using queue_flushNodes_filters [of q "[7]" "\<lambda>d. d = 7"] queue0_stores
    by (simp add: release_acts_def)
qed

end
