(* ===== verification/SmThread.thy ===== *)
theory SmThread
  imports SmRuns CamQueue
begin

text \<open>
  The thread of the camera state machine and its two command queues: \<^verbatim>\<open>procAPI\<close>, \<^verbatim>\<open>procEvt\<close>,
  \<^verbatim>\<open>releaseThread\<close> and the loop of \<^verbatim>\<open>smEvtProcRoutine\<close> of \<^verbatim>\<open>QCameraStateMachine.cpp\<close>, on the pointer
  queues of \<open>CamQueue\<close> and the machine of \<open>SmRuns\<close>. Callers and the thread interleave; each step is one
  of those operations, made atomic by the mutex of the queue and the semaphore. The commands live in
  a heap of their own, so that leaks and double frees are visible.
\<close>

section \<open>The object\<close>

datatype qcamera_sm_cmd_type_t =
    QCAMERA_SM_CMD_TYPE_API | QCAMERA_SM_CMD_TYPE_EVT | QCAMERA_SM_CMD_TYPE_EXIT
  | QCAMERA_SM_CMD_TYPE_MAX

text \<open>
  A command. \<open>evt\<close> is the event with what its payload points to (the caller of an API waits, and an
  event's payload belongs to the queue, so neither changes meanwhile); it is \<open>None\<close> where the
  \<^verbatim>\<open>memset\<close> leaves 0, which is no event. \<open>evt_payload\<close> is the payload's address.
\<close>

record qcamera_sm_cmd_t =
  sm_cmd :: qcamera_sm_cmd_type_t
  evt :: "sm_event option"
  evt_payload :: ptr

text \<open>
  The machine with its thread. \<open>cmds\<close> holds the commands allocated and not yet freed; \<open>running\<close> says
  that the thread has not left its loop, \<open>joining\<close> that \<^verbatim>\<open>releaseThread\<close> waits for it. The last four
  are ghosts: commands accepted and handled, payloads freed, commands lost.
\<close>

record 'h sm_thread =
  api_queue :: QCameraQueue
  evt_queue :: QCameraQueue
  cmd_sem :: nat
  cmd_pid :: bool
  running :: bool
  joining :: bool
  cmds :: "ptr \<rightharpoonup> qcamera_sm_cmd_t"
  machine :: "'h sm"
  posted :: "qcamera_sm_cmd_t list"
  handled :: "qcamera_sm_cmd_t list"
  freed_payloads :: "ptr list"
  leaked :: "ptr list"

definition new_QCameraStateMachine :: "ptr \<Rightarrow> ptr \<Rightarrow> 'h \<Rightarrow> 'h sm_thread option" where
  "new_QCameraStateMachine a b h = do {
     api \<leftarrow> new_QCameraQueue a False;
     ev \<leftarrow> new_QCameraQueue b False;
     Some \<lparr>api_queue = api, evt_queue = ev, cmd_sem = 0, cmd_pid = True, running = True,
       joining = False, cmds = Map.empty, machine = sm_init h, posted = [], handled = [],
       freed_payloads = [], leaked = []\<rparr> }"

section \<open>The operations\<close>

text \<open>
  The first argument is what \<^verbatim>\<open>malloc\<close> returns for the command, the second what it returns for the
  node of the queue.
\<close>

definition procAPI ::
    "ptr option \<Rightarrow> ptr option \<Rightarrow> sm_event \<Rightarrow> ptr \<Rightarrow> 'h sm_thread \<Rightarrow> (int32 \<times> 'h sm_thread) option"
where
  "procAPI cell mem e p t = (case cell of
     None \<Rightarrow> Some (NO_MEMORY, t)
   | Some node \<Rightarrow> do {
       let c = \<lparr>sm_cmd = QCAMERA_SM_CMD_TYPE_API, evt = Some e, evt_payload = p\<rparr>;
       let t = t\<lparr>cmds := (cmds t)(node \<mapsto> c)\<rparr>;
       (ok, q) \<leftarrow> enqueue mem node (api_queue t);
       if ok then Some (NO_ERROR, t\<lparr>api_queue := q, cmd_sem := cmd_sem t + 1,
         posted := posted t @ [c]\<rparr>)
       else Some (UNKNOWN_ERROR, t\<lparr>api_queue := q, cmds := (cmds t)(node := None)\<rparr>) })"

definition procEvt ::
    "ptr option \<Rightarrow> ptr option \<Rightarrow> sm_event \<Rightarrow> ptr \<Rightarrow> 'h sm_thread \<Rightarrow> (int32 \<times> 'h sm_thread) option"
where
  "procEvt cell mem e p t = (case cell of
     None \<Rightarrow> Some (NO_MEMORY, t)
   | Some node \<Rightarrow> do {
       let c = \<lparr>sm_cmd = QCAMERA_SM_CMD_TYPE_EVT, evt = Some e, evt_payload = p\<rparr>;
       let t = t\<lparr>cmds := (cmds t)(node \<mapsto> c)\<rparr>;
       (ok, q) \<leftarrow> enqueue mem node (evt_queue t);
       if ok then Some (NO_ERROR, t\<lparr>evt_queue := q, cmd_sem := cmd_sem t + 1,
         posted := posted t @ [c]\<rparr>)
       else Some (UNKNOWN_ERROR, t\<lparr>evt_queue := q, cmds := (cmds t)(node := None)\<rparr>) })"

text \<open>
  \<^verbatim>\<open>releaseThread\<close> up to the call of \<^verbatim>\<open>pthread_join\<close>, and what follows its return. The result of the
  insertion is not tested: without memory for the node, the semaphore is posted for nothing.
\<close>

definition releaseThread :: "ptr option \<Rightarrow> ptr option \<Rightarrow> 'h sm_thread \<Rightarrow> 'h sm_thread option" where
  "releaseThread cell mem t =
     (if cmd_pid t then (case cell of
        None \<Rightarrow> Some (t\<lparr>cmd_pid := False\<rparr>)
      | Some node \<Rightarrow> do {
          let c = \<lparr>sm_cmd = QCAMERA_SM_CMD_TYPE_EXIT, evt = None, evt_payload = NULL\<rparr>;
          let t = t\<lparr>cmds := (cmds t)(node \<mapsto> c)\<rparr>;
          (ok, q) \<leftarrow> enqueue mem node (api_queue t);
          Some (t\<lparr>api_queue := q, cmd_sem := cmd_sem t + 1, joining := True,
            posted := (if ok then posted t @ [c] else posted t),
            leaked := (if ok then leaked t else node # leaked t)\<rparr>) })
      else Some t)"

definition releaseThread_joined :: "'h sm_thread \<Rightarrow> 'h sm_thread" where
  "releaseThread_joined t = t\<lparr>cmd_pid := False, joining := False\<rparr>"

text \<open>The \<^verbatim>\<open>switch\<close> of the routine, on a command taken out of a queue.\<close>

definition handle_cmd :: "'h penv \<Rightarrow> qcamera_sm_cmd_t \<Rightarrow> 'h sm_thread \<Rightarrow> 'h sm_thread option" where
  "handle_cmd E c t = (case sm_cmd c of
     QCAMERA_SM_CMD_TYPE_API \<Rightarrow> do {
       e \<leftarrow> evt c;
       Some (t\<lparr>machine := sm_step E e (machine t)\<rparr>) }
   | QCAMERA_SM_CMD_TYPE_EVT \<Rightarrow> do {
       e \<leftarrow> evt c;
       Some (t\<lparr>machine := sm_step E e (machine t), freed_payloads := freed_payloads t @ [evt_payload c]\<rparr>) }
   | QCAMERA_SM_CMD_TYPE_EXIT \<Rightarrow> Some (t\<lparr>running := False\<rparr>)
   | QCAMERA_SM_CMD_TYPE_MAX \<Rightarrow> Some t)"

text \<open>
  One turn of the loop, entered when \<^verbatim>\<open>cam_sem_wait\<close> returns (the semaphore is positive; its error
  returns are not modelled).
\<close>

definition smEvtProcRoutine_turn :: "'h penv \<Rightarrow> 'h sm_thread \<Rightarrow> 'h sm_thread option" where
  "smEvtProcRoutine_turn E t = do {
     let t = t\<lparr>cmd_sem := cmd_sem t - 1\<rparr>;
     (node, q) \<leftarrow> dequeue True (api_queue t);
     let t = t\<lparr>api_queue := q\<rparr>;
     (node, t) \<leftarrow> (if node = NULL then do {
                    (node, q) \<leftarrow> dequeue True (evt_queue t);
                    Some (node, t\<lparr>evt_queue := q\<rparr>) }
                  else Some (node, t));
     if node \<noteq> NULL then do {
       c \<leftarrow> cmds t node;
       t \<leftarrow> handle_cmd E c t;
       Some (t\<lparr>cmds := (cmds t)(node := None), handled := handled t @ [c]\<rparr>) }
     else Some t }"

text \<open>
  The steps of the system: a call of one of the operations by some thread, with an allocator that
  returns addresses not in use; the loop, when its semaphore is positive; the end of the join.
\<close>

definition fresh_cell :: "ptr option \<Rightarrow> 'h sm_thread \<Rightarrow> bool" where
  "fresh_cell cell t \<longleftrightarrow> (case cell of None \<Rightarrow> True | Some a \<Rightarrow> a \<noteq> NULL \<and> a \<notin> dom (cmds t))"

inductive thread_step :: "'h penv \<Rightarrow> 'h sm_thread \<Rightarrow> 'h sm_thread \<Rightarrow> bool" for E where
  step_api: "thread_step E t t'"
    if "fresh_cell cell t" "fresh_node mem (api_queue t)" "procAPI cell mem e p t = Some (rc, t')"
| step_evt: "thread_step E t t'"
    if "fresh_cell cell t" "fresh_node mem (evt_queue t)" "procEvt cell mem e p t = Some (rc, t')"
| step_release: "thread_step E t t'"
    if "fresh_cell cell t" "fresh_node mem (api_queue t)" "releaseThread cell mem t = Some t'"
| step_turn: "thread_step E t t'"
    if "running t" "0 < cmd_sem t" "smEvtProcRoutine_turn E t = Some t'"
| step_joined: "thread_step E t (releaseThread_joined t)"
    if "joining t" "\<not> running t"

inductive_cases thread_stepE: "thread_step E t t'"

definition thread_reaches :: "'h penv \<Rightarrow> 'h sm_thread \<Rightarrow> 'h sm_thread \<Rightarrow> bool" where
  "thread_reaches E = (thread_step E)\<^sup>*\<^sup>*"

section \<open>The invariant\<close>

definition is_evt_cmd :: "qcamera_sm_cmd_t \<Rightarrow> bool" where
  "is_evt_cmd c \<longleftrightarrow> sm_cmd c = QCAMERA_SM_CMD_TYPE_EVT"

text \<open>A command as the three operations build it.\<close>

definition good_cmd :: "qcamera_sm_cmd_t \<Rightarrow> bool" where
  "good_cmd c \<longleftrightarrow> (case sm_cmd c of
     QCAMERA_SM_CMD_TYPE_API \<Rightarrow> evt c \<noteq> None
   | QCAMERA_SM_CMD_TYPE_EVT \<Rightarrow> evt c \<noteq> None
   | QCAMERA_SM_CMD_TYPE_EXIT \<Rightarrow> True
   | QCAMERA_SM_CMD_TYPE_MAX \<Rightarrow> False)"

text \<open>The commands waiting in the two queues.\<close>

definition waiting :: "'h sm_thread \<Rightarrow> ptr list \<Rightarrow> ptr list \<Rightarrow> bool" where
  "waiting t apis evts \<longleftrightarrow> stores (api_queue t) apis \<and> stores (evt_queue t) evts"

definition cmds_at :: "(ptr \<rightharpoonup> qcamera_sm_cmd_t) \<Rightarrow> ptr list \<Rightarrow> qcamera_sm_cmd_t list" where
  "cmds_at m as = map (\<lambda>a. the (m a)) as"

text \<open>The events of the commands handled, and the payloads the loop owes to \<^verbatim>\<open>free\<close>.\<close>

definition events_of :: "qcamera_sm_cmd_t list \<Rightarrow> sm_event list" where
  "events_of cs = map (\<lambda>c. the (evt c)) (filter (\<lambda>c. sm_cmd c \<noteq> QCAMERA_SM_CMD_TYPE_EXIT) cs)"

definition thread_inv :: "'h penv \<Rightarrow> 'h \<Rightarrow> 'h sm_thread \<Rightarrow> ptr list \<Rightarrow> ptr list \<Rightarrow> bool" where
  "thread_inv E h t apis evts \<longleftrightarrow>
     waiting t apis evts
     \<and> distinct (apis @ evts @ leaked t) \<and> NULL \<notin> set (apis @ evts)
     \<and> dom (cmds t) = set (apis @ evts @ leaked t)
     \<and> length apis + length evts \<le> cmd_sem t
     \<and> list_all good_cmd (posted t)
     \<and> filter (Not \<circ> is_evt_cmd) (posted t) = filter (Not \<circ> is_evt_cmd) (handled t) @ cmds_at (cmds t) apis
     \<and> filter is_evt_cmd (posted t) = filter is_evt_cmd (handled t) @ cmds_at (cmds t) evts
     \<and> machine t = sm_run E (events_of (handled t)) (sm_init h)
     \<and> freed_payloads t = map evt_payload (filter is_evt_cmd (handled t))"

section \<open>Preservation\<close>

lemma cmds_at_simps [simp]:
  "cmds_at m [] = []" "cmds_at m (a # as) = the (m a) # cmds_at m as"
  "cmds_at m (as @ bs) = cmds_at m as @ cmds_at m bs"
  by (simp_all add: cmds_at_def)

lemma cmds_at_upd [simp]:
  "a \<notin> set as \<Longrightarrow> cmds_at (m(a := c)) as = cmds_at m as"
  by (auto simp: cmds_at_def)

lemma events_of_append [simp]: "events_of (xs @ ys) = events_of xs @ events_of ys"
  by (simp add: events_of_def)

lemma sm_run_append [simp]: "sm_run E (es @ fs) s = sm_run E fs (sm_run E es s)"
  by (simp add: sm_run_def)

lemma restore [simp]: "a \<notin> dom m \<Longrightarrow> m(a := None) = m"
  by auto

text \<open>Which insertion a caller's memory leads to.\<close>

lemma enqueue_cases:
  assumes "stores q ds" and "fresh_node mem q"
  obtains q' where "enqueue mem d q = Some (True, q')" "stores q' (ds @ [d])"
  | "enqueue mem d q = Some (False, q)" "mem = None"
proof (cases mem)
  case None
  then show ?thesis using that(2) cam_q.enq_no_memory by simp
next
  case (Some a)
  then show ?thesis using that(1) cam_q.enq_ok [OF assms(1), of a d] assms(2) by auto
qed

lemma new_thread_inv:
  assumes "a \<noteq> NULL" and "b \<noteq> NULL"
  shows "\<exists>t. new_QCameraStateMachine a b h = Some t \<and> thread_inv E h t [] []"
proof -
  obtain q where q: "new_QCameraQueue a False = Some q" "stores q []" by (rule new_queue [OF assms(1)])
  obtain r where r: "new_QCameraQueue b False = Some r" "stores r []" by (rule new_queue [OF assms(2)])
  from q r show ?thesis
    by (simp add: new_QCameraStateMachine_def thread_inv_def waiting_def events_of_def)
qed

text \<open>A new command in the queue of its kind.\<close>

lemma accept_api:
  assumes "thread_inv E h t apis evts" and "a \<noteq> NULL" "a \<notin> dom (cmds t)" and "good_cmd c"
    and "\<not> is_evt_cmd c" and "stores q' (apis @ [a])"
  shows "thread_inv E h (t\<lparr>cmds := (cmds t)(a \<mapsto> c), api_queue := q', cmd_sem := cmd_sem t + 1,
    posted := posted t @ [c]\<rparr>) (apis @ [a]) evts"
  using assms by (auto simp: thread_inv_def waiting_def)

lemma accept_evt:
  assumes "thread_inv E h t apis evts" and "a \<noteq> NULL" "a \<notin> dom (cmds t)" and "good_cmd c"
    and "is_evt_cmd c" and "stores q' (evts @ [a])"
  shows "thread_inv E h (t\<lparr>cmds := (cmds t)(a \<mapsto> c), evt_queue := q', cmd_sem := cmd_sem t + 1,
    posted := posted t @ [c]\<rparr>) apis (evts @ [a])"
  using assms by (auto simp: thread_inv_def waiting_def)

definition accepts :: "qcamera_sm_cmd_t \<Rightarrow> 'h sm_thread \<Rightarrow> 'h sm_thread \<Rightarrow> bool" where
  "accepts c t t' \<longleftrightarrow> posted t' = posted t @ [c] \<and> cmd_sem t' = cmd_sem t + 1
     \<and> machine t' = machine t \<and> handled t' = handled t \<and> running t' = running t
     \<and> leaked t' = leaked t"

lemma procAPI_ok:
  assumes inv: "thread_inv E h t apis evts" and cell: "fresh_cell cell t"
    and mem: "fresh_node mem (api_queue t)"
  obtains (accepted) t' a where "procAPI cell mem e p t = Some (NO_ERROR, t')" "cell = Some a"
    "thread_inv E h t' (apis @ [a]) evts"
    "accepts \<lparr>sm_cmd = QCAMERA_SM_CMD_TYPE_API, evt = Some e, evt_payload = p\<rparr> t t'"
  | (refused) rc where "procAPI cell mem e p t = Some (rc, t)" "rc = NO_MEMORY \<or> rc = UNKNOWN_ERROR"
      "cell = None \<or> mem = None"
proof (cases cell)
  case None
  then show ?thesis using refused by (simp add: procAPI_def)
next
  case (Some a)
  have a: "a \<noteq> NULL" "a \<notin> dom (cmds t)" using cell Some by (simp_all add: fresh_cell_def)
  have st: "stores (api_queue t) apis" using inv by (simp add: thread_inv_def waiting_def)
  let ?c = "\<lparr>sm_cmd = QCAMERA_SM_CMD_TYPE_API, evt = Some e, evt_payload = p\<rparr>"
  from st mem show ?thesis
  proof (cases rule: enqueue_cases [where d = a])
    case (1 q')
    let ?t = "t\<lparr>cmds := (cmds t)(a \<mapsto> ?c), api_queue := q', cmd_sem := cmd_sem t + 1, posted := posted t @ [?c]\<rparr>"
    have "procAPI cell mem e p t = Some (NO_ERROR, ?t)"
      using Some 1 by (simp add: procAPI_def Let_def)
    moreover have "thread_inv E h ?t (apis @ [a]) evts"
      by (rule accept_api [OF inv a]) (use 1 in \<open>simp_all add: good_cmd_def is_evt_cmd_def\<close>)
    ultimately show ?thesis using Some by (intro accepted [of ?t a]) (auto simp: accepts_def)
  next
    case 2
    then show ?thesis using Some a refused [of UNKNOWN_ERROR] by (simp add: procAPI_def Let_def)
  qed
qed

lemma procEvt_ok:
  assumes inv: "thread_inv E h t apis evts" and cell: "fresh_cell cell t"
    and mem: "fresh_node mem (evt_queue t)"
  obtains (accepted) t' a where "procEvt cell mem e p t = Some (NO_ERROR, t')" "cell = Some a"
    "thread_inv E h t' apis (evts @ [a])"
    "accepts \<lparr>sm_cmd = QCAMERA_SM_CMD_TYPE_EVT, evt = Some e, evt_payload = p\<rparr> t t'"
  | (refused) rc where "procEvt cell mem e p t = Some (rc, t)" "rc = NO_MEMORY \<or> rc = UNKNOWN_ERROR"
      "cell = None \<or> mem = None"
proof (cases cell)
  case None
  then show ?thesis using refused by (simp add: procEvt_def)
next
  case (Some a)
  have a: "a \<noteq> NULL" "a \<notin> dom (cmds t)" using cell Some by (simp_all add: fresh_cell_def)
  have st: "stores (evt_queue t) evts" using inv by (simp add: thread_inv_def waiting_def)
  let ?c = "\<lparr>sm_cmd = QCAMERA_SM_CMD_TYPE_EVT, evt = Some e, evt_payload = p\<rparr>"
  from st mem show ?thesis
  proof (cases rule: enqueue_cases [where d = a])
    case (1 q')
    let ?t = "t\<lparr>cmds := (cmds t)(a \<mapsto> ?c), evt_queue := q', cmd_sem := cmd_sem t + 1, posted := posted t @ [?c]\<rparr>"
    have "procEvt cell mem e p t = Some (NO_ERROR, ?t)"
      using Some 1 by (simp add: procEvt_def Let_def)
    moreover have "thread_inv E h ?t apis (evts @ [a])"
      by (rule accept_evt [OF inv a]) (use 1 in \<open>simp_all add: good_cmd_def is_evt_cmd_def\<close>)
    ultimately show ?thesis using Some by (intro accepted [of ?t a]) (auto simp: accepts_def)
  next
    case 2
    then show ?thesis using Some a refused [of UNKNOWN_ERROR] by (simp add: procEvt_def Let_def)
  qed
qed

lemma inv_frame:
  assumes "thread_inv E h t apis evts"
  shows "thread_inv E h (t\<lparr>cmd_pid := x\<rparr>) apis evts"
    and "thread_inv E h (t\<lparr>joining := y\<rparr>) apis evts"
    and "thread_inv E h (t\<lparr>cmd_pid := x, joining := y\<rparr>) apis evts"
  using assms by (simp_all add: thread_inv_def waiting_def)

lemma releaseThread_ok:
  assumes inv: "thread_inv E h t apis evts" and cell: "fresh_cell cell t"
    and mem: "fresh_node mem (api_queue t)"
  shows "\<exists>t' apis'. releaseThread cell mem t = Some t' \<and> thread_inv E h t' apis' evts"
proof (cases "cmd_pid t \<and> cell \<noteq> None")
  case False
  then show ?thesis using inv inv_frame(1) [OF inv, of False]
    by (cases "cmd_pid t") (auto simp: releaseThread_def)
next
  case True
  then obtain a where Some: "cell = Some a" by auto
  have a: "a \<noteq> NULL" "a \<notin> dom (cmds t)" using cell Some by (simp_all add: fresh_cell_def)
  have st: "stores (api_queue t) apis" using inv by (simp add: thread_inv_def waiting_def)
  let ?c = "\<lparr>sm_cmd = QCAMERA_SM_CMD_TYPE_EXIT, evt = None, evt_payload = NULL\<rparr>"
  from st mem show ?thesis
  proof (cases rule: enqueue_cases [where d = a])
    case (1 q')
    have "thread_inv E h (t\<lparr>cmds := (cmds t)(a \<mapsto> ?c), api_queue := q', cmd_sem := cmd_sem t + 1,
        posted := posted t @ [?c]\<rparr>) (apis @ [a]) evts"
      by (rule accept_api [OF inv a]) (use 1 in \<open>simp_all add: good_cmd_def is_evt_cmd_def\<close>)
    then have "thread_inv E h (t\<lparr>cmds := (cmds t)(a \<mapsto> ?c), api_queue := q', cmd_sem := cmd_sem t + 1,
        joining := True, posted := posted t @ [?c]\<rparr>) (apis @ [a]) evts"
      by (simp add: thread_inv_def waiting_def)
    with True Some 1 show ?thesis by (auto simp: releaseThread_def Let_def)
  next
    case 2
    have "thread_inv E h (t\<lparr>cmds := (cmds t)(a \<mapsto> ?c), cmd_sem := cmd_sem t + 1, joining := True,
        leaked := a # leaked t\<rparr>) apis evts"
      using inv a by (auto simp: thread_inv_def waiting_def)
    with True Some 2 show ?thesis by (auto simp: releaseThread_def Let_def)
  qed
qed

lemma waiting_cmd:
  assumes inv: "thread_inv E h t apis evts" and c: "c = the (cmds t a)"
  shows "a \<in> set apis \<Longrightarrow> cmds t a = Some c \<and> good_cmd c \<and> \<not> is_evt_cmd c"
    and "a \<in> set evts \<Longrightarrow> cmds t a = Some c \<and> good_cmd c \<and> is_evt_cmd c"
proof -
  have posted: "c \<in> set (filter P (posted t)) \<Longrightarrow> good_cmd c \<and> P c" for P
    using inv by (auto simp: thread_inv_def list_all_iff)
  have "cmds t a = Some c" if "a \<in> set (apis @ evts @ leaked t)"
    using that inv c unfolding thread_inv_def by (metis domD option.sel)
  moreover have "c \<in> set (filter (Not \<circ> is_evt_cmd) (posted t))" if "a \<in> set apis"
    using that inv c unfolding thread_inv_def cmds_at_def
    by (metis (no_types, lifting) Un_iff image_eqI list.set_map set_append)
  moreover have "c \<in> set (filter is_evt_cmd (posted t))" if "a \<in> set evts"
    using that inv c unfolding thread_inv_def cmds_at_def
    by (metis (no_types, lifting) Un_iff image_eqI list.set_map set_append)
  ultimately show "a \<in> set apis \<Longrightarrow> cmds t a = Some c \<and> good_cmd c \<and> \<not> is_evt_cmd c"
    and "a \<in> set evts \<Longrightarrow> cmds t a = Some c \<and> good_cmd c \<and> is_evt_cmd c"
    using posted [of "Not \<circ> is_evt_cmd"] posted [of is_evt_cmd] by auto
qed

text \<open>A command out of a queue and handled.\<close>

lemma handle_api:
  assumes inv: "thread_inv E h t (a # apis) evts" and q: "stores q apis"
    and n: "Suc n = cmd_sem t" and c: "c = the (cmds t a)"
  shows "\<exists>t'. handle_cmd E c (t\<lparr>cmd_sem := n, api_queue := q\<rparr>) = Some t'
    \<and> thread_inv E h (t'\<lparr>cmds := (cmds t')(a := None), handled := handled t' @ [c]\<rparr>) apis evts
    \<and> cmds t' = cmds t \<and> handled t' = handled t \<and> cmd_sem t' = n"
  using waiting_cmd(1) [OF inv c] inv q n
  by (cases "sm_cmd c")
    (auto simp: handle_cmd_def good_cmd_def thread_inv_def waiting_def is_evt_cmd_def events_of_def)

lemma handle_evt:
  assumes inv: "thread_inv E h t [] (a # evts)" and q: "stores q evts"
    and n: "Suc n = cmd_sem t" and c: "c = the (cmds t a)"
  shows "\<exists>t'. handle_cmd E c (t\<lparr>cmd_sem := n, evt_queue := q\<rparr>) = Some t'
    \<and> thread_inv E h (t'\<lparr>cmds := (cmds t')(a := None), handled := handled t' @ [c]\<rparr>) [] evts
    \<and> cmds t' = cmds t \<and> handled t' = handled t \<and> cmd_sem t' = n \<and> running t' = running t"
  using waiting_cmd(2) [OF inv c] inv q n
  by (cases "sm_cmd c")
    (auto simp: handle_cmd_def good_cmd_def thread_inv_def waiting_def is_evt_cmd_def events_of_def)

text \<open>
  One turn of the loop: the oldest API command if there is one, else the oldest event command, else
  nothing.
\<close>

lemma turn_ok:
  assumes inv: "thread_inv E h t apis evts" and sem: "0 < cmd_sem t"
  obtains (api) t' a apis' where "apis = a # apis'" "smEvtProcRoutine_turn E t = Some t'"
    "thread_inv E h t' apis' evts" "handled t' = handled t @ [the (cmds t a)]"
    "cmd_sem t = Suc (cmd_sem t')"
  | (event) t' a evts' where "apis = []" "evts = a # evts'" "smEvtProcRoutine_turn E t = Some t'"
    "thread_inv E h t' [] evts'" "handled t' = handled t @ [the (cmds t a)]"
    "cmd_sem t = Suc (cmd_sem t')" "running t' = running t"
  | (idle) t' where "apis = []" "evts = []" "smEvtProcRoutine_turn E t = Some t'"
    "thread_inv E h t' [] []" "handled t' = handled t" "cmd_sem t = Suc (cmd_sem t')"
    "running t' = running t"
proof -
  obtain n where n: "Suc n = cmd_sem t" using sem by (cases "cmd_sem t") auto
  then have n1: "cmd_sem t - 1 = n" by simp
  have st: "stores (api_queue t) apis" "stores (evt_queue t) evts"
    using inv by (simp_all add: thread_inv_def waiting_def)
  show ?thesis
  proof (cases apis)
    case (Cons a apis')
    obtain q where q: "dequeue True (api_queue t) = Some (a, q)" "stores q apis'"
      using cam_q.deq_ok st(1) Cons by blast
    obtain c where a: "a \<noteq> NULL" "cmds t a = Some c" and c: "c = the (cmds t a)"
      using inv waiting_cmd(1) [OF inv refl, of a] Cons by (auto simp: thread_inv_def)
    obtain t' where t': "handle_cmd E c (t\<lparr>cmd_sem := n, api_queue := q\<rparr>) = Some t'"
      "thread_inv E h (t'\<lparr>cmds := (cmds t')(a := None), handled := handled t' @ [c]\<rparr>) apis' evts"
      "cmds t' = cmds t" "handled t' = handled t" "cmd_sem t' = n"
      using handle_api [OF inv [unfolded Cons] q(2) n c] by blast
    have "smEvtProcRoutine_turn E t =
        Some (t'\<lparr>cmds := (cmds t')(a := None), handled := handled t' @ [c]\<rparr>)"
      unfolding smEvtProcRoutine_turn_def n1 using q a t'(1) by (simp add: Let_def)
    with t' n Cons c show ?thesis by (intro api) auto
  next
    case Nil
    have none: "dequeue True (api_queue t) = Some (NULL, api_queue t)"
      using cam_q.deq_empty st(1) Nil by simp
    show ?thesis
    proof (cases evts)
      case (Cons a evts')
      obtain q where q: "dequeue True (evt_queue t) = Some (a, q)" "stores q evts'"
        using cam_q.deq_ok st(2) Cons by blast
      obtain c where a: "a \<noteq> NULL" "cmds t a = Some c" and c: "c = the (cmds t a)"
        using inv waiting_cmd(2) [OF inv refl, of a] Cons by (auto simp: thread_inv_def)
      obtain t' where t': "handle_cmd E c (t\<lparr>cmd_sem := n, evt_queue := q\<rparr>) = Some t'"
        "thread_inv E h (t'\<lparr>cmds := (cmds t')(a := None), handled := handled t' @ [c]\<rparr>) [] evts'"
        "cmds t' = cmds t" "handled t' = handled t" "cmd_sem t' = n" "running t' = running t"
        using handle_evt [OF inv [unfolded Cons Nil] q(2) n c] by blast
      have "smEvtProcRoutine_turn E t =
          Some (t'\<lparr>cmds := (cmds t')(a := None), handled := handled t' @ [c]\<rparr>)"
        unfolding smEvtProcRoutine_turn_def n1 using none q a t'(1) by (simp add: Let_def)
      with t' n Nil Cons c show ?thesis
        by (intro event [of a evts' "t'\<lparr>cmds := (cmds t')(a := None), handled := handled t' @ [c]\<rparr>"]) auto
    next
      case nil2: Nil
      have none2: "dequeue True (evt_queue t) = Some (NULL, evt_queue t)"
        using cam_q.deq_empty st(2) nil2 by simp
      have "smEvtProcRoutine_turn E t = Some (t\<lparr>cmd_sem := n\<rparr>)"
        unfolding smEvtProcRoutine_turn_def n1 using none none2 by (simp add: Let_def)
      moreover have "thread_inv E h (t\<lparr>cmd_sem := n\<rparr>) [] []"
        using inv n Nil nil2 by (simp add: thread_inv_def waiting_def)
      ultimately show ?thesis using Nil nil2 n by (intro idle [of "t\<lparr>cmd_sem := n\<rparr>"]) auto
    qed
  qed
qed

section \<open>Every reachable state\<close>

lemma step_inv:
  assumes "thread_step E t t'" and inv: "thread_inv E h t apis evts"
  shows "\<exists>apis' evts'. thread_inv E h t' apis' evts'"
  using assms(1)
proof cases
  case (step_api cell mem e p rc)
  show ?thesis
    by (rule procAPI_ok [OF inv step_api(1,2), of e p]) (use step_api(3) inv in auto)
next
  case (step_evt cell mem e p rc)
  show ?thesis
    by (rule procEvt_ok [OF inv step_evt(1,2), of e p]) (use step_evt(3) inv in auto)
next
  case (step_release cell mem)
  then show ?thesis using releaseThread_ok [OF inv, of cell mem] by auto
next
  case step_turn
  show ?thesis
    by (rule turn_ok [OF inv step_turn(2)]) (use step_turn(3) in auto)
next
  case step_joined
  then show ?thesis using inv_frame(3) [OF inv] by (auto simp: releaseThread_joined_def)
qed

lemma reaches_inv:
  assumes "thread_reaches E t t'" and "thread_inv E h t apis evts"
  shows "\<exists>apis' evts'. thread_inv E h t' apis' evts'"
  using assms(1) unfolding thread_reaches_def
proof (induction rule: rtranclp_induct)
  case base
  show ?case using assms(2) by blast
next
  case (step u v)
  then obtain x y where "thread_inv E h u x y" by blast
  with step(2) show ?case by (rule step_inv)
qed

lemma reachable_inv:
  assumes "new_QCameraStateMachine a b h = Some t0" and "a \<noteq> NULL" and "b \<noteq> NULL"
    and "thread_reaches E t0 t"
  obtains apis evts where "thread_inv E h t apis evts"
proof -
  have "thread_inv E h t0 [] []"
    using new_thread_inv [OF assms(2,3), of h E] assms(1) by simp
  from reaches_inv [OF assms(4) this] show ?thesis using that by blast
qed

text \<open>Turns of the loop, one after the other, while the thread runs.\<close>

fun turns :: "'h penv \<Rightarrow> nat \<Rightarrow> 'h sm_thread \<Rightarrow> 'h sm_thread option" where
  "turns E 0 t = Some t"
| "turns E (Suc n) t =
     (if running t then do { t \<leftarrow> smEvtProcRoutine_turn E t; turns E n t } else Some t)"

lemma turns_drain:
  "thread_inv E h t apis evts \<Longrightarrow> n = length apis + length evts \<Longrightarrow>
   \<exists>t' apis' evts'. turns E n t = Some t' \<and> thread_inv E h t' apis' evts'
     \<and> (running t' \<longrightarrow> apis' = [] \<and> evts' = [])"
proof (induction n arbitrary: t apis evts)
  case 0
  then show ?case by auto
next
  case (Suc n)
  show ?case
  proof (cases "running t")
    case False
    then show ?thesis
      using Suc.prems(1) by (intro exI [of _ t] exI [of _ apis] exI [of _ evts]) simp
  next
    case True
    have "0 < cmd_sem t" using Suc.prems by (auto simp: thread_inv_def)
    with Suc.prems(1) show ?thesis
    proof (cases rule: turn_ok)
      case (api t' a apis')
      then show ?thesis using True Suc.IH [of t' apis' evts] Suc.prems(2) by auto
    next
      case (event t' a evts')
      then show ?thesis using True Suc.IH [of t' "[]" evts'] Suc.prems(2) by auto
    next
      case idle
      then show ?thesis using Suc.prems(2) by simp
    qed
  qed
qed

section \<open>Properties\<close>

text \<open>
  C2. In every state the system can reach from the constructor, whatever callers and the allocator
  do, the machine is where a sequential run over the events handled so far takes it: the threaded
  state machine refines \<open>sm_run\<close>. Each accepted command is handled exactly once and in order: those
  handled, followed by those waiting in the queue, are those accepted, for the API queue and for the
  event queue.
\<close>

theorem thread_refines_run:
  assumes "new_QCameraStateMachine a b h = Some t0" and "a \<noteq> NULL" and "b \<noteq> NULL"
    and "thread_reaches E t0 t"
  shows "machine t = sm_run E (events_of (handled t)) (sm_init h)
    \<and> (\<exists>apis evts. waiting t apis evts
        \<and> filter (Not \<circ> is_evt_cmd) (posted t) =
            filter (Not \<circ> is_evt_cmd) (handled t) @ cmds_at (cmds t) apis
        \<and> filter is_evt_cmd (posted t) = filter is_evt_cmd (handled t) @ cmds_at (cmds t) evts)"
  by (rule reachable_inv [OF assms]) (auto simp: thread_inv_def)

text \<open>A machine with its thread, for the examples, and one command posted to it.\<close>

definition thread0 :: "unit sm_thread" where
  "thread0 = the (new_QCameraStateMachine 1 1 ())"

definition thread1 :: "unit sm_thread" where
  "thread1 = snd (the (procEvt (Some 8) (Some 9) SNAPSHOT_DONE 77 thread0))"

definition idle_parent :: "unit penv" where
  "idle_parent = steering START_PREVIEW True QCAMERA_SM_STATE_PREVIEWING"

lemmas thread_example_defs = thread0_def thread1_def new_QCameraStateMachine_def
  new_QCameraQueue_def cam_list_init_def wr_next_def wr_prev_def procEvt_def procAPI_def
  enqueue_def cam_list_add_tail_node_def fresh_cell_def fresh_node_def Let_def

lemma thread0_new: "new_QCameraStateMachine 1 1 () = Some thread0"
  by (simp add: thread_example_defs)

lemma thread0_inv: "thread_inv E () thread0 [] []"
  using new_thread_inv [of 1 1 "()" E] thread0_new by simp

lemma thread1_posted: "procEvt (Some 8) (Some 9) SNAPSHOT_DONE 77 thread0 = Some (NO_ERROR, thread1)"
  by (simp add: thread_example_defs)

lemma thread0_fresh: "fresh_cell (Some 8) thread0" "fresh_node (Some 9) (evt_queue thread0)"
  "fresh_node (Some 9) (api_queue thread0)"
  by (simp_all add: thread_example_defs)

lemma thread1_reached: "thread_reaches E thread0 thread1"
  unfolding thread_reaches_def
  by (rule r_into_rtranclp, rule step_evt [OF thread0_fresh(1,2) thread1_posted])

theorem thread_refines_run_witness:
  "machine thread1 = sm_run idle_parent (events_of (handled thread1)) (sm_init ())"
  using thread_refines_run [OF thread0_new _ _ thread1_reached, of idle_parent] by simp



text \<open>
  C29. Order: a turn of the loop never faults on a reachable state, and takes the oldest API command
  whenever one waits, the oldest event command when none does, and nothing when both queues are
  empty. Events never overtake a waiting API call.
\<close>

theorem thread_api_first:
  assumes "thread_inv E h t apis evts" and "0 < cmd_sem t"
  shows "\<exists>t'. smEvtProcRoutine_turn E t = Some t' \<and> cmd_sem t = Suc (cmd_sem t')
    \<and> handled t' = handled t @ take 1 (cmds_at (cmds t) (apis @ evts))
    \<and> thread_inv E h t' (tl apis) (if apis = [] then tl evts else evts)"
  using assms by (cases rule: turn_ok) simp_all

theorem thread_api_first_witness:
  "\<exists>t'. smEvtProcRoutine_turn idle_parent thread1 = Some t' \<and> cmd_sem thread1 = Suc (cmd_sem t')"
proof (rule procEvt_ok [OF thread0_inv thread0_fresh(1,2), of SNAPSHOT_DONE 77])
  fix t a
  assume "procEvt (Some 8) (Some 9) SNAPSHOT_DONE 77 thread0 = Some (NO_ERROR, t)"
    and "thread_inv idle_parent () t [] ([] @ [a])"
    and "accepts \<lparr>sm_cmd = QCAMERA_SM_CMD_TYPE_EVT, evt = Some SNAPSHOT_DONE, evt_payload = 77\<rparr> thread0 t"
  then show ?thesis
    using thread_api_first [of idle_parent "()" t "[]" "[a]"] thread1_posted by (auto simp: accepts_def)
qed (use thread1_posted in auto)



text \<open>
  C31. \<^verbatim>\<open>procAPI\<close> either accepts the request, which then waits last in the API queue with the
  semaphore posted, and returns \<^verbatim>\<open>NO_ERROR\<close>; or, only when memory ran out, returns an error and
  leaves everything as it was, the command freed.
\<close>

theorem procAPI_all_or_nothing:
  assumes "thread_inv E h t apis evts" and "fresh_cell cell t" and "fresh_node mem (api_queue t)"
  shows "(\<exists>t' a. procAPI cell mem e p t = Some (NO_ERROR, t') \<and> thread_inv E h t' (apis @ [a]) evts
      \<and> accepts \<lparr>sm_cmd = QCAMERA_SM_CMD_TYPE_API, evt = Some e, evt_payload = p\<rparr> t t')
    \<or> ((cell = None \<or> mem = None) \<and>
        (procAPI cell mem e p t = Some (NO_MEMORY, t) \<or> procAPI cell mem e p t = Some (UNKNOWN_ERROR, t)))"
  by (rule procAPI_ok [OF assms, of e p]) auto

theorem procAPI_all_or_nothing_witness:
  "procAPI (Some 8) None START_PREVIEW NULL thread0 = Some (NO_MEMORY, thread0)
    \<or> procAPI (Some 8) None START_PREVIEW NULL thread0 = Some (UNKNOWN_ERROR, thread0)"
  using procAPI_all_or_nothing [OF thread0_inv [of idle_parent] thread0_fresh(1), of None START_PREVIEW NULL]
  by (auto simp: procAPI_def enqueue_def fresh_node_def Let_def)

text \<open>
  \<^verbatim>\<open>releaseThread\<close> does not look at what \<^verbatim>\<open>enqueue\<close> returns: when there is no memory for the
  node of the queue, the exit command is lost, the thread is woken for nothing and waits again on a
  semaphore at 0, and the caller waits in \<^verbatim>\<open>pthread_join\<close> for a thread that was never told to end.
\<close>

theorem releaseThread_lost_exit:
  "\<exists>t t'. releaseThread (Some 8) None thread0 = Some t \<and> smEvtProcRoutine_turn E t = Some t'
    \<and> joining t' \<and> running t' \<and> cmd_sem t' = 0 \<and> leaked t' = [8] \<and> posted t' = []"
  by (simp add: releaseThread_def smEvtProcRoutine_turn_def thread_example_defs dequeue_def)

end
