(* ===== verification/HwiApi.thy ===== *)
theory HwiApi
  imports SmThread
begin

text \<open>
  The API layer of the hardware interface (\<^verbatim>\<open>QCamera2HWI.cpp\<close>): the entry points of the camera
  device, \<^verbatim>\<open>processAPI\<close>, \<^verbatim>\<open>processEvt\<close>, the list of results and the wait for them, around the
  threaded state machine of \<open>SmThread\<close>. Any number of framework threads call in; each entry point
  holds \<^verbatim>\<open>m_lock\<close> except while it waits on the condition variable, so the steps below are the parts
  of an entry point between two waits.
\<close>

section \<open>The entry points\<close>

text \<open>
  What an entry point does, as a program: return a value; set a member after the lock is released;
  or hand an event to \<^verbatim>\<open>processAPI\<close> and go on with the error it returned (the first continuation) or
  with the result that was waited for (the second).
\<close>

datatype hw_effect =
  Set_m_bPreviewStarted | Set_m_bRecordStarted | Set_mPrepSnapRun | Set_mLastCaptureTime

datatype (plugins only: code size) api_prog =
    Return int
  | Effect hw_effect api_prog
  | Api sm_event "int32 \<Rightarrow> api_prog" "qcamera_api_result_t \<Rightarrow> api_prog"

text \<open>The three ways the entry points use what comes back.\<close>

definition api_status :: "sm_event \<Rightarrow> api_prog" where
  "api_status e = Api e Return (\<lambda>r. Return (status r))"

definition api_slot :: "sm_event \<Rightarrow> api_prog" where
  "api_slot e = Api e Return (\<lambda>r. Return (slot r))"

definition api_void :: "sm_event \<Rightarrow> api_prog" where
  "api_void e = Api e (\<lambda>rc. Return 0) (\<lambda>r. Return 0)"

text \<open>
  One definition per entry point. \<open>hw\<close> says that \<^verbatim>\<open>device->priv\<close> is not null; a void function returns
  0 here, and \<^verbatim>\<open>get_parameters\<close> its pointer.
\<close>

definition set_preview_window :: "bool \<Rightarrow> ptr \<Rightarrow> api_prog" where
  "set_preview_window hw w = (if \<not> hw then Return BAD_VALUE else api_status (SET_PREVIEW_WINDOW w))"

definition set_CallBacks :: "bool \<Rightarrow> ptr \<Rightarrow> ptr \<Rightarrow> ptr \<Rightarrow> ptr \<Rightarrow> ptr \<Rightarrow> api_prog" where
  "set_CallBacks hw n d dt mem u = (if \<not> hw then Return 0 else
     api_void (SET_CALLBACKS \<lparr>notify_cb = n, data_cb = d, data_cb_timestamp = dt, get_memory = mem, user = u\<rparr>))"

definition enable_msg_type :: "bool \<Rightarrow> int32 \<Rightarrow> api_prog" where
  "enable_msg_type hw m = (if \<not> hw then Return 0 else api_void (ENABLE_MSG_TYPE m))"

definition disable_msg_type :: "bool \<Rightarrow> int32 \<Rightarrow> api_prog" where
  "disable_msg_type hw m = (if \<not> hw then Return 0 else api_void (DISABLE_MSG_TYPE m))"

definition msg_type_enabled :: "bool \<Rightarrow> int32 \<Rightarrow> api_prog" where
  "msg_type_enabled hw m = (if \<not> hw then Return BAD_VALUE else api_slot (MSG_TYPE_ENABLED m))"

definition start_preview :: "bool \<Rightarrow> bool \<Rightarrow> api_prog" where
  "start_preview hw noDisplayMode = (if \<not> hw then Return BAD_VALUE else
     Api (if noDisplayMode then START_NODISPLAY_PREVIEW else START_PREVIEW)
       (\<lambda>rc. Effect Set_m_bPreviewStarted (Return rc))
       (\<lambda>r. Effect Set_m_bPreviewStarted (Return (status r))))"

definition stop_preview :: "bool \<Rightarrow> api_prog" where
  "stop_preview hw = (if \<not> hw then Return 0 else api_void STOP_PREVIEW)"

definition preview_enabled :: "bool \<Rightarrow> api_prog" where
  "preview_enabled hw = (if \<not> hw then Return BAD_VALUE else api_slot PREVIEW_ENABLED)"

definition store_meta_data_in_buffers :: "bool \<Rightarrow> int32 \<Rightarrow> api_prog" where
  "store_meta_data_in_buffers hw n =
     (if \<not> hw then Return BAD_VALUE else api_status (STORE_METADATA_IN_BUFS n))"

definition start_recording :: "bool \<Rightarrow> api_prog" where
  "start_recording hw = (if \<not> hw then Return BAD_VALUE else
     Api START_RECORDING (\<lambda>rc. Effect Set_m_bRecordStarted (Return rc))
       (\<lambda>r. Effect Set_m_bRecordStarted (Return (status r))))"

definition stop_recording :: "bool \<Rightarrow> api_prog" where
  "stop_recording hw = (if \<not> hw then Return 0 else api_void STOP_RECORDING)"

definition recording_enabled :: "bool \<Rightarrow> api_prog" where
  "recording_enabled hw = (if \<not> hw then Return BAD_VALUE else api_slot RECORDING_ENABLED)"

text \<open>\<open>closed\<close>: there is no metadata handle to close, or \<^verbatim>\<open>closeNativeHandle\<close> returned \<^verbatim>\<open>NO_ERROR\<close>.\<close>

definition release_recording_frame :: "bool \<Rightarrow> ptr \<Rightarrow> bool \<Rightarrow> api_prog" where
  "release_recording_frame hw opaque closed =
     (if \<not> hw then Return 0 else if opaque = NULL then Return 0
      else if \<not> closed then Return 0 else api_void (RELEASE_RECORIDNG_FRAME opaque))"

definition auto_focus :: "bool \<Rightarrow> api_prog" where
  "auto_focus hw = (if \<not> hw then Return BAD_VALUE else api_status START_AUTO_FOCUS)"

definition cancel_auto_focus :: "bool \<Rightarrow> api_prog" where
  "cancel_auto_focus hw = (if \<not> hw then Return BAD_VALUE else api_status STOP_AUTO_FOCUS)"

text \<open>\<open>flash\<close>: \<^verbatim>\<open>mFlashNeeded\<close> or chroma flash; its result is not looked at.\<close>

definition take_picture_capture :: api_prog where
  "take_picture_capture = Api TAKE_PICTURE (\<lambda>rc. Effect Set_mLastCaptureTime (Return rc))
     (\<lambda>r. Effect Set_mLastCaptureTime (Return (status r)))"

definition take_picture :: "bool \<Rightarrow> bool \<Rightarrow> api_prog" where
  "take_picture hw flash = (if \<not> hw then Return BAD_VALUE
     else if flash then Api PREPARE_SNAPSHOT (\<lambda>rc. Effect Set_mPrepSnapRun take_picture_capture)
       (\<lambda>r. Effect Set_mPrepSnapRun take_picture_capture)
     else take_picture_capture)"

definition cancel_picture :: "bool \<Rightarrow> api_prog" where
  "cancel_picture hw = (if \<not> hw then Return BAD_VALUE else api_status CANCEL_PICTURE)"

definition set_parameters :: "bool \<Rightarrow> ptr \<Rightarrow> api_prog" where
  "set_parameters hw p = (if \<not> hw then Return BAD_VALUE else api_status (SET_PARAMS p))"

definition get_parameters :: "bool \<Rightarrow> api_prog" where
  "get_parameters hw = (if \<not> hw then Return (int NULL) else
     Api GET_PARAMS (\<lambda>rc. Return (int NULL)) (\<lambda>r. Return (slot r)))"

definition put_parameters :: "bool \<Rightarrow> ptr \<Rightarrow> api_prog" where
  "put_parameters hw p = (if \<not> hw then Return 0 else api_void (PUT_PARAMS p))"

definition send_command :: "bool \<Rightarrow> int32 \<Rightarrow> int32 \<Rightarrow> int32 \<Rightarrow> api_prog" where
  "send_command hw c a b = (if \<not> hw then Return BAD_VALUE
     else api_status (SEND_COMMAND \<lparr>cmd = c, arg1 = a, arg2 = b\<rparr>))"

definition release_device :: "bool \<Rightarrow> api_prog" where
  "release_device hw = (if \<not> hw then Return 0 else api_void RELEASE)"

definition dump_device :: "bool \<Rightarrow> api_prog" where
  "dump_device hw = Return NO_ERROR"

definition register_face_image :: "bool \<Rightarrow> ptr \<Rightarrow> ptr \<Rightarrow> api_prog" where
  "register_face_image hw img cfg = (if \<not> hw then Return BAD_VALUE
     else api_slot (REG_FACE_IMAGE \<lparr>img_ptr = img, config = cfg\<rparr>))"

text \<open>The thermal callback waits like an entry point.\<close>

definition thermalEvtHandle :: "bool \<Rightarrow> int32 \<Rightarrow> api_prog" where
  "thermalEvtHandle mCameraOpened level =
     (if \<not> mCameraOpened then Return NO_ERROR else api_status (THERMAL_NOTIFY level))"

section \<open>Results\<close>

text \<open>\<^verbatim>\<open>signalAPIResult\<close>: appended at the end of the list, or lost when \<^verbatim>\<open>malloc\<close> fails.\<close>

definition signalAPIResult ::
    "bool \<Rightarrow> qcamera_api_result_t \<Rightarrow> qcamera_api_result_t list \<Rightarrow> qcamera_api_result_t list" where
  "signalAPIResult mem r rs = (if mem then rs @ [r] else rs)"

text \<open>
  The search of \<^verbatim>\<open>waitAPIResult\<close> after each wake-up: the first result of the event waited for is
  unlinked and copied out; with none the thread waits again.
\<close>

fun waitAPIResult ::
    "qcamera_sm_evt_enum_t \<Rightarrow> qcamera_api_result_t list
     \<Rightarrow> (qcamera_api_result_t \<times> qcamera_api_result_t list) option" where
  "waitAPIResult k [] = None"
| "waitAPIResult k (r # rs) = (if request_api r = k then Some (r, rs)
     else do { (r', rs') \<leftarrow> waitAPIResult k rs; Some (r', r # rs') })"

section \<open>The interface object\<close>

text \<open>
  A framework thread: idle, about to continue an entry point, waiting for the result of an event
  with its continuation, or back with a value.
\<close>

datatype (plugins only: code size) caller =
    Idle
  | Ready api_prog
  | Waiting qcamera_sm_evt_enum_t "qcamera_api_result_t \<Rightarrow> api_prog"
  | Returned int

record 'h hwi =
  m_stateMachine :: "'h sm_thread"
  m_smThreadActive :: bool
  m_apiResultList :: "qcamera_api_result_t list"
  callers :: "caller list"
  effects :: "hw_effect list"
  unwaited :: "qcamera_sm_evt_enum_t list"

text \<open>
  The destructor stops new requests before it releases the thread. \<open>unwaited\<close> is a ghost: the
  API requests made by \<^verbatim>\<open>processAPI\<close> without a wait for their result (\<^verbatim>\<open>checkIntPicPending\<close>,
  \<^verbatim>\<open>takeLiveSnapshot_internal\<close>, \<^verbatim>\<open>QCameraPostProcessor::stopCapture\<close>).
\<close>

definition processAPI ::
    "ptr option \<Rightarrow> ptr option \<Rightarrow> sm_event \<Rightarrow> ptr \<Rightarrow> 'h hwi \<Rightarrow> (int32 \<times> 'h hwi) option" where
  "processAPI cell mem api p hw =
     (if m_smThreadActive hw then do {
        (ret, t) \<leftarrow> procAPI cell mem api p (m_stateMachine hw);
        Some (ret, hw\<lparr>m_stateMachine := t\<rparr>) }
      else Some (DEAD_OBJECT, hw))"

definition processEvt ::
    "ptr option \<Rightarrow> ptr option \<Rightarrow> sm_event \<Rightarrow> ptr \<Rightarrow> 'h hwi \<Rightarrow> (int32 \<times> 'h hwi) option" where
  "processEvt cell mem e p hw = do {
     (ret, t) \<leftarrow> procEvt cell mem e p (m_stateMachine hw);
     Some (ret, hw\<lparr>m_stateMachine := t\<rparr>) }"

definition shutdown :: "'h hwi \<Rightarrow> 'h hwi" where
  "shutdown hw = hw\<lparr>m_smThreadActive := False\<rparr>"

text \<open>
  A caller goes on by one action of its program. The address of an API payload is never used by the
  thread, so it is \<^verbatim>\<open>NULL\<close> here; the payload itself is in the event.
\<close>

definition caller_runs ::
    "ptr option \<Rightarrow> ptr option \<Rightarrow> nat \<Rightarrow> api_prog \<Rightarrow> 'h hwi \<Rightarrow> 'h hwi option" where
  "caller_runs cell mem i p hw = (case p of
     Return v \<Rightarrow> Some (hw\<lparr>callers := (callers hw)[i := Returned v]\<rparr>)
   | Effect f p' \<Rightarrow> Some (hw\<lparr>effects := effects hw @ [f], callers := (callers hw)[i := Ready p']\<rparr>)
   | Api e refused ans \<Rightarrow> do {
       (rc, hw) \<leftarrow> processAPI cell mem e NULL hw;
       Some (hw\<lparr>callers := (callers hw)[i :=
         (if rc = NO_ERROR then Waiting (evt_code e) ans else Ready (refused rc))]\<rparr>) })"

text \<open>A waiting caller is woken and looks for its result.\<close>

definition caller_wakes :: "nat \<Rightarrow> 'h hwi \<Rightarrow> 'h hwi option" where
  "caller_wakes i hw = (case callers hw ! i of
     Waiting k ans \<Rightarrow> do {
       (r, rs) \<leftarrow> waitAPIResult k (m_apiResultList hw);
       Some (hw\<lparr>m_apiResultList := rs, callers := (callers hw)[i := Ready (ans r)]\<rparr>) }
   | _ \<Rightarrow> None)"

text \<open>
  A turn of the state machine's thread: the results its handler signals go to the list, one
  \<^verbatim>\<open>malloc\<close> each, which succeeds here.
\<close>

definition hwi_turn :: "'h penv \<Rightarrow> 'h hwi \<Rightarrow> 'h hwi option" where
  "hwi_turn E hw = do {
     t \<leftarrow> smEvtProcRoutine_turn E (m_stateMachine hw);
     Some (hw\<lparr>m_stateMachine := t, m_apiResultList :=
       fold (signalAPIResult True)
         (api_results (new_calls (machine (m_stateMachine hw)) (machine t))) (m_apiResultList hw)\<rparr>) }"

text \<open>Programs that ask for API events only, as every entry point does.\<close>

inductive api_only :: "api_prog \<Rightarrow> bool" where
  "api_only (Return v)"
| "api_only p \<Longrightarrow> api_only (Effect f p)"
| "is_api_evt e \<Longrightarrow> (\<And>rc. api_only (refused rc)) \<Longrightarrow> (\<And>r. api_only (ans r)) \<Longrightarrow>
   api_only (Api e refused ans)"

inductive_simps api_only_simps [simp]:
  "api_only (Return v)" "api_only (Effect f p)" "api_only (Api e refused ans)"

inductive hwi_step :: "'h penv \<Rightarrow> 'h hwi \<Rightarrow> 'h hwi \<Rightarrow> bool" for E where
  hwi_call: "hwi_step E hw (hw\<lparr>callers := (callers hw)[i := Ready p]\<rparr>)"
    if "i < length (callers hw)" "callers hw ! i = Idle" "api_only p"
| hwi_run: "hwi_step E hw hw'"
    if "i < length (callers hw)" "callers hw ! i = Ready p" "fresh_cell cell (m_stateMachine hw)"
      "fresh_node mem (api_queue (m_stateMachine hw))" "caller_runs cell mem i p hw = Some hw'"
| hwi_wake: "hwi_step E hw hw'"
    if "i < length (callers hw)" "caller_wakes i hw = Some hw'"
| hwi_back: "hwi_step E hw (hw\<lparr>callers := (callers hw)[i := Idle]\<rparr>)"
    if "i < length (callers hw)" "callers hw ! i = Returned v"
| hwi_nowait: "hwi_step E hw (hw'\<lparr>unwaited := (if rc = NO_ERROR \<and> is_api_evt e then [evt_code e] else []) @ unwaited hw\<rparr>)"
    if "fresh_cell cell (m_stateMachine hw)" "fresh_node mem (api_queue (m_stateMachine hw))"
      "processAPI cell mem e p hw = Some (rc, hw')"
| hwi_event: "hwi_step E hw hw'"
    if "fresh_cell cell (m_stateMachine hw)" "fresh_node mem (evt_queue (m_stateMachine hw))"
      "\<not> is_api_evt e" "processEvt cell mem e p hw = Some (rc, hw')"
| hwi_thread: "hwi_step E hw hw'"
    if "running (m_stateMachine hw)" "0 < cmd_sem (m_stateMachine hw)" "hwi_turn E hw = Some hw'"
| hwi_shutdown: "hwi_step E hw (shutdown hw)"
| hwi_release: "hwi_step E hw (hw\<lparr>m_stateMachine := t\<rparr>)"
    if "\<not> m_smThreadActive hw" "fresh_cell cell (m_stateMachine hw)"
      "fresh_node mem (api_queue (m_stateMachine hw))"
      "releaseThread cell mem (m_stateMachine hw) = Some t"

definition hwi_init :: "'h sm_thread \<Rightarrow> nat \<Rightarrow> 'h hwi" where
  "hwi_init t n = \<lparr>m_stateMachine = t, m_smThreadActive = True, m_apiResultList = [],
     callers = replicate n Idle, effects = [], unwaited = []\<rparr>"

section \<open>The entry points ask for API events only\<close>

lemmas entry_points = api_status_def api_slot_def api_void_def set_preview_window_def
  set_CallBacks_def enable_msg_type_def disable_msg_type_def msg_type_enabled_def start_preview_def
  stop_preview_def preview_enabled_def store_meta_data_in_buffers_def start_recording_def
  stop_recording_def recording_enabled_def release_recording_frame_def auto_focus_def
  cancel_auto_focus_def take_picture_capture_def take_picture_def cancel_picture_def
  set_parameters_def get_parameters_def put_parameters_def send_command_def release_device_def
  dump_device_def register_face_image_def thermalEvtHandle_def

lemma entry_points_api_only:
  "api_only (set_preview_window hw w)" "api_only (set_CallBacks hw n d dt mem u)"
  "api_only (enable_msg_type hw m)" "api_only (disable_msg_type hw m)"
  "api_only (msg_type_enabled hw m)" "api_only (start_preview hw b)" "api_only (stop_preview hw)"
  "api_only (preview_enabled hw)" "api_only (store_meta_data_in_buffers hw m)"
  "api_only (start_recording hw)" "api_only (stop_recording hw)" "api_only (recording_enabled hw)"
  "api_only (release_recording_frame hw w b)" "api_only (auto_focus hw)"
  "api_only (cancel_auto_focus hw)" "api_only (take_picture hw b)" "api_only (cancel_picture hw)"
  "api_only (set_parameters hw w)" "api_only (get_parameters hw)" "api_only (put_parameters hw w)"
  "api_only (send_command hw m x y)" "api_only (release_device hw)" "api_only (dump_device hw)"
  "api_only (register_face_image hw w z)" "api_only (thermalEvtHandle hw m)"
  by (simp_all add: entry_points)

section \<open>Counting requests\<close>

fun waits_for :: "qcamera_sm_evt_enum_t \<Rightarrow> caller \<Rightarrow> bool" where
  "waits_for k (Waiting k' f) = (k' = k)"
| "waits_for k c = False"

fun caller_ok :: "caller \<Rightarrow> bool" where
  "caller_ok (Ready p) = api_only p"
| "caller_ok (Waiting k f) = (\<forall>r. api_only (f r))"
| "caller_ok c = True"

definition how_many :: "('a \<Rightarrow> bool) \<Rightarrow> 'a list \<Rightarrow> nat" where
  "how_many P xs = length (filter P xs)"

lemma how_many_simps [simp]:
  "how_many P [] = 0" "how_many P (x # xs) = of_bool (P x) + how_many P xs"
  "how_many P (xs @ ys) = how_many P xs + how_many P ys"
  by (simp_all add: how_many_def)

lemma how_many_update:
  "i < length xs \<Longrightarrow> how_many P (xs[i := y]) + of_bool (P (xs ! i)) = how_many P xs + of_bool (P y)"
proof (induction xs arbitrary: i)
  case (Cons x xs)
  then show ?case using Cons.IH [of "i - 1"] by (cases i) auto
qed simp

definition asks :: "qcamera_sm_evt_enum_t \<Rightarrow> sm_event \<Rightarrow> bool" where
  "asks k e \<longleftrightarrow> is_api_evt e \<and> evt_code e = k"

definition cmd_asks :: "qcamera_sm_evt_enum_t \<Rightarrow> qcamera_sm_cmd_t \<Rightarrow> bool" where
  "cmd_asks k c \<longleftrightarrow> sm_cmd c \<noteq> QCAMERA_SM_CMD_TYPE_EXIT
     \<and> (case evt c of None \<Rightarrow> False | Some e \<Rightarrow> asks k e)"

text \<open>
  The balance of the API layer: for each request but the one that may go unanswered, the callers
  waiting for it and the requests made without a wait are as many as the commands queued for it,
  the answer the machine still owes and the results in the list.
\<close>

definition balanced :: "'h hwi \<Rightarrow> qcamera_sm_cmd_t list \<Rightarrow> bool" where
  "balanced hw cs \<longleftrightarrow> (\<forall>k. k \<noteq> QCAMERA_SM_EVT_REG_FACE_IMAGE \<longrightarrow>
     how_many (waits_for k) (callers hw) + how_many (\<lambda>j. j = k) (unwaited hw) =
     how_many (cmd_asks k) cs + pending k (m_state (machine (m_stateMachine hw)))
       + how_many (\<lambda>r. request_api r = k) (m_apiResultList hw))"

definition hwi_inv :: "'h penv \<Rightarrow> 'h \<Rightarrow> 'h hwi \<Rightarrow> ptr list \<Rightarrow> ptr list \<Rightarrow> bool" where
  "hwi_inv E h hw apis evts \<longleftrightarrow>
     thread_inv E h (m_stateMachine hw) apis evts
     \<and> list_all caller_ok (callers hw)
     \<and> list_all (\<lambda>c. \<forall>k. \<not> cmd_asks k c) (cmds_at (cmds (m_stateMachine hw)) evts)
     \<and> balanced hw (cmds_at (cmds (m_stateMachine hw)) apis)"

section \<open>The lists of the thread\<close>

lemma accepted_api:
  assumes "thread_inv E h t apis evts" and "thread_inv E h t' (apis @ [a]) evts" and "accepts c t t'"
    and "\<not> is_evt_cmd c"
  shows "cmds_at (cmds t') (apis @ [a]) = cmds_at (cmds t) apis @ [c]"
    and "cmds_at (cmds t') evts = cmds_at (cmds t) evts"
  using assms by (simp_all add: thread_inv_def accepts_def)

lemma accepted_evt:
  assumes "thread_inv E h t apis evts" and "thread_inv E h t' apis (evts @ [a])" and "accepts c t t'"
    and "is_evt_cmd c"
  shows "cmds_at (cmds t') (evts @ [a]) = cmds_at (cmds t) evts @ [c]"
    and "cmds_at (cmds t') apis = cmds_at (cmds t) apis"
  using assms by (simp_all add: thread_inv_def accepts_def)

lemma handle_posted: "handle_cmd E c t = Some t' \<Longrightarrow> posted t' = posted t"
  by (cases "sm_cmd c"; cases "evt c") (auto simp: handle_cmd_def)

lemma turn_posted: "smEvtProcRoutine_turn E t = Some t' \<Longrightarrow> posted t' = posted t"
  unfolding smEvtProcRoutine_turn_def Let_def
  by (auto split: Option.bind_split_asm prod.split_asm if_split_asm dest!: handle_posted)

lemma turn_abs:
  assumes inv: "thread_inv E h t apis evts" and sem: "0 < cmd_sem t"
  obtains t' apis' evts' where "smEvtProcRoutine_turn E t = Some t'" "thread_inv E h t' apis' evts'"
    "cmds_at (cmds t') apis' = tl (cmds_at (cmds t) apis)"
    "cmds_at (cmds t') evts' =
       (if apis = [] then tl (cmds_at (cmds t) evts) else cmds_at (cmds t) evts)"
    "machine t' = sm_run E (events_of (take 1 (cmds_at (cmds t) (apis @ evts)))) (machine t)"
    "length apis' = length apis - 1"
    "length evts' = (if apis = [] then length evts - 1 else length evts)"
  using inv sem
proof (cases rule: turn_ok)
  case (api t' a apis')
  with turn_posted [OF api(2)] inv waiting_cmd(1) [OF inv refl, of a] show ?thesis
    by (intro that [of t' apis' evts]) (auto simp: thread_inv_def)
next
  case (event t' a evts')
  with turn_posted [OF event(3)] inv waiting_cmd(2) [OF inv refl, of a] show ?thesis
    by (intro that [of t' "[]" evts']) (auto simp: thread_inv_def)
next
  case (idle t')
  with inv show ?thesis by (intro that [of t' "[]" "[]"]) (auto simp: thread_inv_def events_of_def)
qed

section \<open>Results\<close>

lemma fold_signal [simp]: "fold (signalAPIResult True) xs rs = rs @ xs"
  by (induction xs arbitrary: rs) (simp_all add: signalAPIResult_def)

lemma waitAPIResult_some:
  "waitAPIResult k rs = Some (r, rs') \<Longrightarrow> request_api r = k
    \<and> how_many (\<lambda>r. request_api r = j) rs = of_bool (k = j) + how_many (\<lambda>r. request_api r = j) rs'"
  by (induction rs arbitrary: r rs')
    (auto simp: split: if_splits Option.bind_split_asm prod.split_asm)

lemma waitAPIResult_none:
  "waitAPIResult k rs = None \<longleftrightarrow> how_many (\<lambda>r. request_api r = k) rs = 0"
  by (induction rs) (auto split: Option.bind_split prod.split)

lemma answered_how_many: "answered k h = how_many (\<lambda>r. request_api r = k) (api_results h)"
  by (simp add: answered_def answers_def how_many_def filter_map comp_def)

lemma new_calls_same [simp]: "new_calls s s = []"
  by (simp add: new_calls_def)

lemma turn_accounting:
  assumes "k \<noteq> QCAMERA_SM_EVT_REG_FACE_IMAGE" and "list_all good_cmd cs" and "length cs \<le> 1"
  shows "how_many (cmd_asks k) cs + pending k (m_state s) =
    how_many (\<lambda>r. request_api r = k) (api_results (new_calls s (sm_run E (events_of cs) s)))
      + pending k (m_state (sm_run E (events_of cs) s))"
proof (cases cs)
  case Nil
  then show ?thesis by (simp add: events_of_def)
next
  case (Cons c cs')
  then have cs: "cs = [c]" using assms(3) by simp
  show ?thesis
  proof (cases "sm_cmd c = QCAMERA_SM_CMD_TYPE_EXIT")
    case True
    then show ?thesis by (simp add: cs events_of_def cmd_asks_def)
  next
    case False
    then obtain e where e: "evt c = Some e"
      using assms(2) by (cases "sm_cmd c") (auto simp: cs good_cmd_def)
    have "events_of cs = [e]" using False e by (simp add: cs events_of_def)
    moreover have "how_many (cmd_asks k) cs = submitted k [e]"
      using False e by (simp add: cs cmd_asks_def asks_def submitted_def)
    ultimately show ?thesis
      using accounting_step [OF assms(1), of e s E] by (simp add: answered_how_many)
  qed
qed

section \<open>Preservation\<close>

lemma updated_callers:
  assumes "i < length (callers hw)"
  shows "how_many (waits_for k) ((callers hw)[i := c]) + of_bool (waits_for k (callers hw ! i)) =
    how_many (waits_for k) (callers hw) + of_bool (waits_for k c)"
  using how_many_update [OF assms] .

lemma list_all_update: "list_all P xs \<Longrightarrow> P y \<Longrightarrow> list_all P (xs[i := y])"
  by (auto simp: list_all_iff dest: set_update_subset_insert [THEN subsetD])

text \<open>A caller that was not waiting and does not wait afterwards.\<close>

lemma inv_caller:
  assumes "hwi_inv E h hw apis evts" and "i < length (callers hw)" and "caller_ok c"
    and "\<And>k. \<not> waits_for k (callers hw ! i)" and "\<And>k. \<not> waits_for k c"
  shows "hwi_inv E h (hw\<lparr>callers := (callers hw)[i := c]\<rparr>) apis evts"
    and "hwi_inv E h (hw\<lparr>effects := fs, callers := (callers hw)[i := c]\<rparr>) apis evts"
  using assms updated_callers [OF assms(2), of _ c]
  by (simp_all add: hwi_inv_def balanced_def list_all_update)

lemma releaseThread_frame:
  "releaseThread cell mem t = Some t' \<Longrightarrow> handled t' = handled t \<and> machine t' = machine t
    \<and> posted t' \<in> {posted t, posted t @ [\<lparr>sm_cmd = QCAMERA_SM_CMD_TYPE_EXIT, evt = None, evt_payload = NULL\<rparr>]}"
  by (auto simp: releaseThread_def Let_def split: if_splits option.split_asm Option.bind_split_asm prod.split_asm)

lemma inv_release:
  assumes inv: "hwi_inv E h hw apis evts" and "fresh_cell cell (m_stateMachine hw)"
    and "fresh_node mem (api_queue (m_stateMachine hw))"
    and rel: "releaseThread cell mem (m_stateMachine hw) = Some t"
  shows "\<exists>apis' evts'. hwi_inv E h (hw\<lparr>m_stateMachine := t\<rparr>) apis' evts'"
proof -
  have thr: "thread_inv E h (m_stateMachine hw) apis evts" using inv by (simp add: hwi_inv_def)
  obtain apis' where t: "thread_inv E h t apis' evts"
    using releaseThread_ok [OF thr assms(2,3)] rel by auto
  let ?exit = "\<lparr>sm_cmd = QCAMERA_SM_CMD_TYPE_EXIT, evt = None, evt_payload = NULL\<rparr>"
  have "cmds_at (cmds t) evts = cmds_at (cmds (m_stateMachine hw)) evts"
    and "cmds_at (cmds t) apis' \<in> {cmds_at (cmds (m_stateMachine hw)) apis,
      cmds_at (cmds (m_stateMachine hw)) apis @ [?exit]}"
    using releaseThread_frame [OF rel] thr t by (auto simp: thread_inv_def is_evt_cmd_def)
  moreover from this(2) have "how_many (cmd_asks k) (cmds_at (cmds t) apis') =
      how_many (cmd_asks k) (cmds_at (cmds (m_stateMachine hw)) apis)" for k
    by (auto simp: cmd_asks_def)
  ultimately have "hwi_inv E h (hw\<lparr>m_stateMachine := t\<rparr>) apis' evts"
    using inv t releaseThread_frame [OF rel] by (simp add: hwi_inv_def balanced_def)
  then show ?thesis by blast
qed

lemma inv_turn:
  assumes inv: "hwi_inv E h hw apis evts" and "0 < cmd_sem (m_stateMachine hw)"
  obtains hw' apis' evts' where "hwi_turn E hw = Some hw'" "hwi_inv E h hw' apis' evts'"
    "length apis' = length apis - 1"
    "length evts' = (if apis = [] then length evts - 1 else length evts)"
    "callers hw' = callers hw" "unwaited hw' = unwaited hw"
proof -
  let ?t = "m_stateMachine hw"
  have thr: "thread_inv E h ?t apis evts" using inv by (simp add: hwi_inv_def)
  let ?cs = "take 1 (cmds_at (cmds ?t) (apis @ evts))"
  obtain t' apis' evts' where t': "smEvtProcRoutine_turn E ?t = Some t'" "thread_inv E h t' apis' evts'"
    "cmds_at (cmds t') apis' = tl (cmds_at (cmds ?t) apis)"
    "cmds_at (cmds t') evts' =
       (if apis = [] then tl (cmds_at (cmds ?t) evts) else cmds_at (cmds ?t) evts)"
    "machine t' = sm_run E (events_of ?cs) (machine ?t)"
    "length apis' = length apis - 1"
    "length evts' = (if apis = [] then length evts - 1 else length evts)"
    by (rule turn_abs [OF thr assms(2)])
  have good: "list_all good_cmd ?cs"
    using waiting_cmd [OF thr refl] by (cases apis; cases evts) auto
  have acc: "how_many (cmd_asks k) ?cs + pending k (m_state (machine ?t)) =
      how_many (\<lambda>r. request_api r = k) (api_results (new_calls (machine ?t) (machine t')))
      + pending k (m_state (machine t'))" if "k \<noteq> QCAMERA_SM_EVT_REG_FACE_IMAGE" for k
    unfolding t'(5) by (rule turn_accounting [OF that good]) simp
  have evts_quiet: "list_all (\<lambda>c. \<forall>k. \<not> cmd_asks k c) (cmds_at (cmds ?t) evts)"
    using inv by (simp add: hwi_inv_def)
  have cs: "how_many (cmd_asks k) (cmds_at (cmds ?t) apis) =
      how_many (cmd_asks k) ?cs + how_many (cmd_asks k) (tl (cmds_at (cmds ?t) apis))" for k
    using evts_quiet by (cases apis; cases evts) auto
  let ?hw = "hw\<lparr>m_stateMachine := t', m_apiResultList := m_apiResultList hw @
    api_results (new_calls (machine ?t) (machine t'))\<rparr>"
  have "balanced ?hw (cmds_at (cmds t') apis')"
    unfolding balanced_def
  proof (intro allI impI)
    fix k assume k: "k \<noteq> QCAMERA_SM_EVT_REG_FACE_IMAGE"
    have "how_many (waits_for k) (callers hw) + how_many (\<lambda>j. j = k) (unwaited hw) =
      how_many (cmd_asks k) (cmds_at (cmds ?t) apis) + pending k (m_state (machine ?t))
        + how_many (\<lambda>r. request_api r = k) (m_apiResultList hw)"
      using inv k by (simp add: hwi_inv_def balanced_def)
    with acc [OF k] cs [of k]
    show "how_many (waits_for k) (callers ?hw) + how_many (\<lambda>j. j = k) (unwaited ?hw) =
      how_many (cmd_asks k) (cmds_at (cmds t') apis') + pending k (m_state (machine (m_stateMachine ?hw)))
        + how_many (\<lambda>r. request_api r = k) (m_apiResultList ?hw)"
      by (simp add: t'(3))
  qed
  moreover have "list_all (\<lambda>c. \<forall>k. \<not> cmd_asks k c) (cmds_at (cmds t') evts')"
    using evts_quiet by (cases "cmds_at (cmds ?t) evts") (simp_all add: t'(4))
  ultimately have "hwi_inv E h ?hw apis' evts'"
    using inv t'(2) by (simp add: hwi_inv_def)
  moreover have "hwi_turn E hw = Some ?hw" using t'(1) by (simp add: hwi_turn_def)
  ultimately show ?thesis using t'(6,7) by (intro that [of ?hw apis' evts']) simp_all
qed

lemma inv_caller_ok: "hwi_inv E h hw apis evts \<Longrightarrow> i < length (callers hw) \<Longrightarrow> caller_ok (callers hw ! i)"
  by (auto simp: hwi_inv_def list_all_iff)

text \<open>A request handed to the thread, or refused.\<close>

lemma processAPI_ok:
  assumes inv: "hwi_inv E h hw apis evts" and "fresh_cell cell (m_stateMachine hw)"
    and "fresh_node mem (api_queue (m_stateMachine hw))"
  obtains (accepted) t a where "processAPI cell mem e p hw = Some (NO_ERROR, hw\<lparr>m_stateMachine := t\<rparr>)"
    "thread_inv E h t (apis @ [a]) evts" "machine t = machine (m_stateMachine hw)"
    "cmds_at (cmds t) evts = cmds_at (cmds (m_stateMachine hw)) evts"
    "\<And>k. how_many (cmd_asks k) (cmds_at (cmds t) (apis @ [a])) =
      how_many (cmd_asks k) (cmds_at (cmds (m_stateMachine hw)) apis) + of_bool (asks k e)"
  | (refused) rc where "processAPI cell mem e p hw = Some (rc, hw)" "rc \<noteq> NO_ERROR"
proof (cases "m_smThreadActive hw")
  case False
  then show ?thesis using refused by (simp add: processAPI_def)
next
  case True
  have thr: "thread_inv E h (m_stateMachine hw) apis evts" using inv by (simp add: hwi_inv_def)
  let ?c = "\<lparr>sm_cmd = QCAMERA_SM_CMD_TYPE_API, evt = Some e, evt_payload = p\<rparr>"
  have c: "\<not> is_evt_cmd ?c" "cmd_asks k ?c = asks k e" for k
    by (simp_all add: is_evt_cmd_def cmd_asks_def)
  show ?thesis
  proof (rule procAPI_ok [OF thr assms(2,3), of e p])
    fix t a assume t: "procAPI cell mem e p (m_stateMachine hw) = Some (NO_ERROR, t)"
      "thread_inv E h t (apis @ [a]) evts" "accepts ?c (m_stateMachine hw) t"
    show ?thesis
      using True t(1,2,3) accepted_api [OF thr t(2,3) c(1)] c
      by (intro accepted [of t a]) (simp_all add: processAPI_def accepts_def)
  next
    fix rc assume "procAPI cell mem e p (m_stateMachine hw) = Some (rc, m_stateMachine hw)"
      "rc = NO_MEMORY \<or> rc = UNKNOWN_ERROR"
    then show ?thesis using True by (intro refused [of rc]) (auto simp: processAPI_def)
  qed
qed

lemma inv_run:
  assumes inv: "hwi_inv E h hw apis evts" and i: "i < length (callers hw)" "callers hw ! i = Ready p"
    and fresh: "fresh_cell cell (m_stateMachine hw)" "fresh_node mem (api_queue (m_stateMachine hw))"
    and run: "caller_runs cell mem i p hw = Some hw'"
  shows "\<exists>apis' evts'. hwi_inv E h hw' apis' evts'"
proof (cases p)
  case (Return v)
  then show ?thesis using inv_caller(1) [OF inv i(1), of "Returned v"] i run
    by (auto simp: caller_runs_def)
next
  case (Effect f q)
  have "caller_ok (callers hw ! i)" by (rule inv_caller_ok [OF inv i(1)])
  then show ?thesis using inv_caller(2) [OF inv i(1), of "Ready q"] i run Effect
    by (auto simp: caller_runs_def)
next
  case (Api e rf an)
  have "caller_ok (callers hw ! i)" by (rule inv_caller_ok [OF inv i(1)])
  then have ok: "is_api_evt e" "\<And>rc. api_only (rf rc)" "\<And>r. api_only (an r)"
    using i Api by auto
  show ?thesis
  proof (rule processAPI_ok [OF inv fresh, of e NULL])
    fix t a
    assume t: "processAPI cell mem e NULL hw = Some (NO_ERROR, hw\<lparr>m_stateMachine := t\<rparr>)"
      "thread_inv E h t (apis @ [a]) evts" "machine t = machine (m_stateMachine hw)"
      "cmds_at (cmds t) evts = cmds_at (cmds (m_stateMachine hw)) evts"
      "\<And>k. how_many (cmd_asks k) (cmds_at (cmds t) (apis @ [a])) =
        how_many (cmd_asks k) (cmds_at (cmds (m_stateMachine hw)) apis) + of_bool (asks k e)"
    have hw': "hw' = hw\<lparr>m_stateMachine := t, callers := (callers hw)[i := Waiting (evt_code e) an]\<rparr>"
      using run Api t(1) by (simp add: caller_runs_def)
    have "hwi_inv E h hw' (apis @ [a]) evts"
      using inv t(2-5) ok updated_callers [OF i(1), of _ "Waiting (evt_code e) an"] i(2)
      unfolding hwi_inv_def balanced_def hw' asks_def
      by (auto simp: list_all_update simp del: cmds_at_simps)
    then show ?thesis by blast
  next
    fix rc assume "processAPI cell mem e NULL hw = Some (rc, hw)" "rc \<noteq> NO_ERROR"
    then show ?thesis using inv_caller(1) [OF inv i(1), of "Ready (rf rc)"] ok i run Api
      by (auto simp: caller_runs_def)
  qed
qed

lemma inv_wake:
  assumes inv: "hwi_inv E h hw apis evts" and i: "i < length (callers hw)"
    and wake: "caller_wakes i hw = Some hw'"
  shows "hwi_inv E h hw' apis evts"
proof -
  obtain k an r rs where w: "callers hw ! i = Waiting k an"
    "waitAPIResult k (m_apiResultList hw) = Some (r, rs)"
    and hw': "hw' = hw\<lparr>m_apiResultList := rs, callers := (callers hw)[i := Ready (an r)]\<rparr>"
    using wake by (auto simp: caller_wakes_def split: caller.split_asm Option.bind_split_asm)
  have "caller_ok (callers hw ! i)" by (rule inv_caller_ok [OF inv i])
  with w(1) have ok: "caller_ok (Ready (an r))" by simp
  have "balanced hw' (cmds_at (cmds (m_stateMachine hw)) apis)"
    unfolding balanced_def
  proof (intro allI impI)
    fix j assume "j \<noteq> QCAMERA_SM_EVT_REG_FACE_IMAGE"
    then have "how_many (waits_for j) (callers hw) + how_many (\<lambda>i. i = j) (unwaited hw) =
      how_many (cmd_asks j) (cmds_at (cmds (m_stateMachine hw)) apis)
        + pending j (m_state (machine (m_stateMachine hw)))
        + how_many (\<lambda>r. request_api r = j) (m_apiResultList hw)"
      using inv by (simp add: hwi_inv_def balanced_def)
    with waitAPIResult_some [OF w(2), of j] updated_callers [OF i, of j "Ready (an r)"] w(1)
    show "how_many (waits_for j) (callers hw') + how_many (\<lambda>i. i = j) (unwaited hw') =
      how_many (cmd_asks j) (cmds_at (cmds (m_stateMachine hw)) apis)
        + pending j (m_state (machine (m_stateMachine hw')))
        + how_many (\<lambda>r. request_api r = j) (m_apiResultList hw')"
      by (simp add: hw')
  qed
  with inv ok show ?thesis by (simp add: hwi_inv_def hw' list_all_update)
qed

lemma inv_nowait:
  assumes inv: "hwi_inv E h hw apis evts"
    and fresh: "fresh_cell cell (m_stateMachine hw)" "fresh_node mem (api_queue (m_stateMachine hw))"
    and run: "processAPI cell mem e p hw = Some (rc, hw')"
  shows "\<exists>apis' evts'. hwi_inv E h (hw'\<lparr>unwaited :=
    (if rc = NO_ERROR \<and> is_api_evt e then [evt_code e] else []) @ unwaited hw\<rparr>) apis' evts'"
proof (rule processAPI_ok [OF inv fresh, of e p])
  fix t a
  assume t: "processAPI cell mem e p hw = Some (NO_ERROR, hw\<lparr>m_stateMachine := t\<rparr>)"
    "thread_inv E h t (apis @ [a]) evts" "machine t = machine (m_stateMachine hw)"
    "cmds_at (cmds t) evts = cmds_at (cmds (m_stateMachine hw)) evts"
    "\<And>k. how_many (cmd_asks k) (cmds_at (cmds t) (apis @ [a])) =
      how_many (cmd_asks k) (cmds_at (cmds (m_stateMachine hw)) apis) + of_bool (asks k e)"
  have "hwi_inv E h (hw'\<lparr>unwaited := (if rc = NO_ERROR \<and> is_api_evt e then [evt_code e] else []) @
      unwaited hw\<rparr>) (apis @ [a]) evts"
    using inv t run unfolding hwi_inv_def balanced_def asks_def
    by (auto simp del: cmds_at_simps)
  then show ?thesis by blast
next
  fix rc' assume "processAPI cell mem e p hw = Some (rc', hw)" "rc' \<noteq> NO_ERROR"
  then show ?thesis using inv run by auto
qed

lemma inv_event:
  assumes inv: "hwi_inv E h hw apis evts"
    and fresh: "fresh_cell cell (m_stateMachine hw)" "fresh_node mem (evt_queue (m_stateMachine hw))"
    and e: "\<not> is_api_evt e" and run: "processEvt cell mem e p hw = Some (rc, hw')"
  shows "\<exists>apis' evts'. hwi_inv E h hw' apis' evts'"
proof -
  have thr: "thread_inv E h (m_stateMachine hw) apis evts" using inv by (simp add: hwi_inv_def)
  let ?c = "\<lparr>sm_cmd = QCAMERA_SM_CMD_TYPE_EVT, evt = Some e, evt_payload = p\<rparr>"
  have c: "is_evt_cmd ?c" "\<not> cmd_asks k ?c" for k
    using e by (simp_all add: is_evt_cmd_def cmd_asks_def asks_def)
  show ?thesis
  proof (rule procEvt_ok [OF thr fresh, of e p])
    fix t a
    assume t: "procEvt cell mem e p (m_stateMachine hw) = Some (NO_ERROR, t)"
      "thread_inv E h t apis (evts @ [a])" "accepts ?c (m_stateMachine hw) t"
    have "hwi_inv E h (hw\<lparr>m_stateMachine := t\<rparr>) apis (evts @ [a])"
      using inv t(2,3) accepted_evt [OF thr t(2,3) c(1)] c(2)
      by (simp add: hwi_inv_def balanced_def accepts_def del: cmds_at_simps)
    with run t(1) show ?thesis by (auto simp: processEvt_def)
  next
    fix rc' assume "procEvt cell mem e p (m_stateMachine hw) = Some (rc', m_stateMachine hw)"
    then show ?thesis using inv run by (auto simp: processEvt_def)
  qed
qed

lemma hwi_step_inv:
  assumes "hwi_step E hw hw'" and inv: "hwi_inv E h hw apis evts"
  shows "\<exists>apis' evts'. hwi_inv E h hw' apis' evts'"
  using assms(1)
proof cases
  case (hwi_call i p)
  then show ?thesis using inv_caller(1) [OF inv, of i "Ready p"] by auto
next
  case (hwi_run i p cell mem)
  then show ?thesis by (intro inv_run [OF inv])
next
  case (hwi_wake i)
  then show ?thesis using inv_wake [OF inv] by blast
next
  case (hwi_back i v)
  then show ?thesis using inv_caller(1) [OF inv, of i Idle] by auto
next
  case (hwi_nowait cell mem e p rc hw1)
  then show ?thesis using inv_nowait [OF inv hwi_nowait(2,3,4)] by blast
next
  case (hwi_event cell mem e p rc)
  then show ?thesis by (intro inv_event [OF inv])
next
  case hwi_thread
  then show ?thesis using inv_turn [OF inv] by (metis option.inject)
next
  case hwi_shutdown
  then show ?thesis using inv by (auto simp: shutdown_def hwi_inv_def balanced_def)
next
  case (hwi_release cell mem t)
  then show ?thesis using inv_release [OF inv] by blast
qed

definition hwi_reaches :: "'h penv \<Rightarrow> 'h hwi \<Rightarrow> 'h hwi \<Rightarrow> bool" where
  "hwi_reaches E = (hwi_step E)\<^sup>*\<^sup>*"

lemma hwi_init_inv:
  assumes "new_QCameraStateMachine a b h = Some t0" and "a \<noteq> NULL" and "b \<noteq> NULL"
  shows "hwi_inv E h (hwi_init t0 n) [] []"
proof -
  have "thread_inv E h t0 [] []" and "machine t0 = sm_init h"
    using new_thread_inv [OF assms(2,3), of h E] assms(1)
    by (auto simp: new_QCameraStateMachine_def split: Option.bind_split_asm)
  moreover have "how_many (waits_for k) (replicate n Idle) = 0" for k
    by (induction n) auto
  moreover have "list_all caller_ok (replicate n Idle)"
    by (simp add: list_all_iff)
  ultimately show ?thesis
    by (simp add: hwi_inv_def hwi_init_def balanced_def pending_def sm_init_def)
qed

lemma hwi_reachable_inv:
  assumes "new_QCameraStateMachine a b h = Some t0" and "a \<noteq> NULL" and "b \<noteq> NULL"
    and "hwi_reaches E (hwi_init t0 n) hw"
  obtains apis evts where "hwi_inv E h hw apis evts"
proof -
  from assms(4) have "\<exists>apis evts. hwi_inv E h hw apis evts"
    unfolding hwi_reaches_def
  proof (induction rule: rtranclp_induct)
    case base
    then show ?case using hwi_init_inv [OF assms(1-3)] by blast
  next
    case (step u v)
    then obtain x y where "hwi_inv E h u x y" by blast
    with step(2) show ?case by (rule hwi_step_inv)
  qed
  with that show ?thesis by blast
qed

section \<open>Every waiting caller gets its result\<close>

fun hwi_turns :: "'h penv \<Rightarrow> nat \<Rightarrow> 'h hwi \<Rightarrow> 'h hwi option" where
  "hwi_turns E 0 hw = Some hw"
| "hwi_turns E (Suc n) hw = (if running (m_stateMachine hw)
     then do { hw \<leftarrow> hwi_turn E hw; hwi_turns E n hw } else Some hw)"

lemma hwi_turns_drain:
  "hwi_inv E h hw apis evts \<Longrightarrow> n = length apis + length evts \<Longrightarrow>
   \<exists>hw' apis' evts'. hwi_turns E n hw = Some hw' \<and> hwi_inv E h hw' apis' evts'
     \<and> callers hw' = callers hw \<and> unwaited hw' = unwaited hw
     \<and> (running (m_stateMachine hw') \<longrightarrow> apis' = [] \<and> evts' = [])"
proof (induction n arbitrary: hw apis evts)
  case 0
  then show ?case by auto
next
  case (Suc n)
  show ?case
  proof (cases "running (m_stateMachine hw)")
    case False
    then show ?thesis
      using Suc.prems(1) by (intro exI [of _ hw] exI [of _ apis] exI [of _ evts]) simp
  next
    case True
    have "0 < cmd_sem (m_stateMachine hw)"
      using Suc.prems by (auto simp: hwi_inv_def thread_inv_def)
    with Suc.prems(1) obtain hw1 apis' evts' where hw1: "hwi_turn E hw = Some hw1"
      "hwi_inv E h hw1 apis' evts'" "length apis' = length apis - 1"
      "length evts' = (if apis = [] then length evts - 1 else length evts)"
      "callers hw1 = callers hw" "unwaited hw1 = unwaited hw"
      by (rule inv_turn)
    have "n = length apis' + length evts'"
      using Suc.prems(2) hw1(3,4) by (cases apis) auto
    from Suc.IH [OF hw1(2) this] hw1(1,5,6) True show ?thesis by auto
  qed
qed

lemma result_ready:
  assumes "hwi_inv E h hw [] evts" and "i < length (callers hw)" and "callers hw ! i = Waiting k f"
    and "k \<noteq> QCAMERA_SM_EVT_REG_FACE_IMAGE"
    and "k = QCAMERA_SM_EVT_PREPARE_SNAPSHOT \<Longrightarrow>
      m_state (machine (m_stateMachine hw)) \<noteq> QCAMERA_SM_STATE_PREPARE_SNAPSHOT"
  shows "\<exists>hw'. caller_wakes i hw = Some hw'"
proof -
  have "callers hw ! i \<in> set (callers hw)" using assms(2) by simp
  then have "0 < how_many (waits_for k) (callers hw)"
    using assms(3) unfolding how_many_def
    by (auto simp: filter_empty_conv intro!: bexI [of _ "Waiting k f"])
  moreover have "pending k (m_state (machine (m_stateMachine hw))) = 0"
    using assms(5) by (auto simp: pending_def)
  ultimately have "0 < how_many (\<lambda>r. request_api r = k) (m_apiResultList hw)"
    using assms(1,4) by (force simp: hwi_inv_def balanced_def)
  then obtain r rs where "waitAPIResult k (m_apiResultList hw) = Some (r, rs)"
    using waitAPIResult_none [of k "m_apiResultList hw"] by (cases "waitAPIResult k (m_apiResultList hw)") auto
  with assms(3) show ?thesis by (simp add: caller_wakes_def)
qed

section \<open>Properties\<close>


text \<open>A caller of \<^verbatim>\<open>stop_preview\<close>, for the examples.\<close>

definition hw_called :: "unit hwi" where
  "hw_called = (hwi_init thread0 1)\<lparr>callers := [Ready (stop_preview True)]\<rparr>"

definition hw_waiting :: "unit hwi" where
  "hw_waiting = the (caller_runs (Some 8) (Some 9) 0 (stop_preview True) hw_called)"

lemmas hwi_example_defs = hw_called_def hw_waiting_def hwi_init_def caller_runs_def processAPI_def
  stop_preview_def api_void_def thread_example_defs

lemma hw_waiting_run:
  "caller_runs (Some 8) (Some 9) 0 (stop_preview True) hw_called = Some hw_waiting"
  "callers hw_waiting = [Waiting QCAMERA_SM_EVT_STOP_PREVIEW (\<lambda>r. Return 0)]"
  by (simp_all add: hwi_example_defs)

lemma hw_waiting_reached: "hwi_reaches E (hwi_init thread0 1) hw_waiting"
proof -
  have "hwi_step E (hwi_init thread0 1) hw_called"
    using hwi_call [of 0 "hwi_init thread0 1" "stop_preview True" E]
    by (simp add: hw_called_def hwi_init_def entry_points_api_only)
  moreover have "hwi_step E hw_called hw_waiting"
    by (rule hwi_run [OF _ _ _ _ hw_waiting_run(1)])
      (simp_all add: hw_called_def hwi_init_def thread0_fresh)
  ultimately show ?thesis unfolding hwi_reaches_def by simp
qed


text \<open>
  \<^verbatim>\<open>waitAPIResult\<close> takes the oldest result of the event it waits for out of the list and leaves
  all others as they are, in order; it goes on waiting only when the list holds no such result.
\<close>

theorem waitAPIResult_takes_first:
  "(case waitAPIResult k rs of
      None \<Rightarrow> list_all (\<lambda>r. request_api r \<noteq> k) rs
    | Some (r, rs') \<Rightarrow> request_api r = k
        \<and> (\<exists>us vs. rs = us @ r # vs \<and> rs' = us @ vs \<and> list_all (\<lambda>u. request_api u \<noteq> k) us))"
proof (induction rs)
  case (Cons r rs)
  show ?case
  proof (cases "request_api r = k")
    case True
    then show ?thesis by (simp, intro exI [of _ "[]"] exI [of _ rs]) simp
  next
    case False
    show ?thesis
    proof (cases "waitAPIResult k rs")
      case None
      with Cons False show ?thesis by simp
    next
      case (Some y)
      obtain r' rs' where y: "y = (r', rs')" by (cases y)
      with Cons Some obtain us vs where "request_api r' = k" "rs = us @ r' # vs" "rs' = us @ vs"
        "list_all (\<lambda>u. request_api u \<noteq> k) us" by auto
      with False Some y show ?thesis
        by (simp, intro exI [of _ "r # us"] exI [of _ vs]) simp
    qed
  qed
qed simp



text \<open>
  A request made without a wait leaves its result in the list, and the next caller of the same
  entry point takes it for its own: the run below posts \<^verbatim>\<open>CANCEL_PICTURE\<close> as
  \<^verbatim>\<open>takeLiveSnapshot_internal\<close> does on an error, handles it, and then calls \<^verbatim>\<open>cancel_picture\<close>, which
  returns while its own command still waits in the queue.
\<close>

definition hw_posted :: "unit hwi" where
  "hw_posted = (snd (the (processAPI (Some 8) (Some 9) CANCEL_PICTURE NULL (hwi_init thread0 1))))
     \<lparr>unwaited := [QCAMERA_SM_EVT_CANCEL_PICTURE]\<rparr>"

definition hw_stale :: "unit hwi" where
  "hw_stale = (the (hwi_turn idle_parent hw_posted))\<lparr>callers := [Ready (cancel_picture True)]\<rparr>"

theorem stale_result_taken:
  "case caller_runs (Some 8) (Some 9) 0 (cancel_picture True) hw_stale of
     None \<Rightarrow> False
   | Some hw \<Rightarrow> \<not> isEmpty (api_queue (m_stateMachine hw))
       \<and> callers (the (caller_wakes 0 hw)) = [Ready (Return NO_ERROR)]"
  by (simp add: hw_stale_def hw_posted_def hwi_example_defs cancel_picture_def api_status_def
      hwi_turn_def smEvtProcRoutine_turn_def handle_cmd_def dequeue_def cam_list_del_node_def
      isEmpty_def sm_init_def sm_step_def run_state_stateMachine idle_parent_def steering_def sm_body
      api_result_def new_calls_def caller_wakes_def)

end
