(* ===== verification/HwiChannels.thy ===== *)
theory HwiChannels
  imports SmRuns "HOL-Library.Word"
begin

text \<open>
  The parent of the state machine: the implementing methods of \<^verbatim>\<open>QCamera2HardwareInterface\<close> that own
  the camera channels (\<^verbatim>\<open>QCamera2HWI.cpp\<close>): building and deleting channels, preparing, starting and
  stopping the preview and the recording, taking and cancelling pictures, releasing the device, and
  the small setters. Channel objects are numbers; the ghost list \<open>live\<close> says which ones have been
  created and not deleted. What the methods call outside this file (the methods of the channels,
  the getters of \<^verbatim>\<open>mParameters\<close>, the post processor, the deferred work, the camera daemon) is a
  backend that answers as it likes in a state of its own.
\<close>

section \<open>The device\<close>

datatype (plugins only: code size) cam_stream_type_t =
    CAM_STREAM_TYPE_DEFAULT | CAM_STREAM_TYPE_PREVIEW | CAM_STREAM_TYPE_POSTVIEW
  | CAM_STREAM_TYPE_SNAPSHOT | CAM_STREAM_TYPE_VIDEO | CAM_STREAM_TYPE_IMPL_DEFINED
  | CAM_STREAM_TYPE_YUV | CAM_STREAM_TYPE_METADATA | CAM_STREAM_TYPE_RAW
  | CAM_STREAM_TYPE_OFFLINE_PROC | CAM_STREAM_TYPE_MAX

text \<open>
  Getters of \<^verbatim>\<open>mParameters\<close>, of the properties and of the machine's state. \<open>Q_isAdvancedCapture\<close>
  stands for the disjunction of the eight getters (\<^verbatim>\<open>isUbiFocusEnabled\<close> to \<^verbatim>\<open>isAEBracketEnabled\<close>) that
  \<^verbatim>\<open>takePicture\<close> tests, \<open>Q_isBracketCapture\<close> for the three it tests on the capture channel, and
  \<open>Q_isYuvPictureFormat\<close> for the disjunction of the picture formats jpeg, NV16 and NV21.
\<close>

datatype query =
    Q_isZSLMode | Q_getRecordingHintValue | Q_isNoDisplayMode | Q_isFaceDetectionEnabled
  | Q_isHistogramEnabled | Q_is4k2kResolution | Q_isLowPowerEnabled | Q_raw_yuv
  | Q_isYuvPictureFormat | Q_isAdvancedCapture | Q_isBracketCapture | Q_isContinuousPictureFocus
  | Q_isCaptureRunning | Q_isPreviewRunning | Q_liveSnapshotThread | Q_metadataStream
  | Q_oneSnapshotExpected | Q_isAdvCamFeaturesEnabled | Q_low_power_mode_supported
  | Q_thermal_no_adjustment

text \<open>
  The notify mode of a channel's attributes (the other attributes are numbers read from
  \<^verbatim>\<open>mParameters\<close>), the callback of a channel and the callback of a stream.
\<close>

datatype mm_camera_super_buf_notify_mode_t =
  MM_CAMERA_SUPER_BUF_NOTIFY_BURST | MM_CAMERA_SUPER_BUF_NOTIFY_CONTINUOUS

datatype channel_cb =
  snapshot_channel_cb_routine | zsl_channel_cb | capture_channel_cb_routine

datatype stream_cb =
    metadata_stream_cb_routine | preview_stream_cb_routine | nodisplay_preview_stream_cb_routine
  | video_stream_cb_routine | raw_stream_cb_routine | snapshot_raw_stream_cb_routine

type_synonym channel_init = "(mm_camera_super_buf_notify_mode_t \<times> channel_cb) option"

datatype deferred_job = Job_metadata | Job_postview | Job_snapshot | Job_reproc | Job_rawdata

datatype (plugins only: code size) bcall =
    B_query query
  | B_new qcamera_ch_type_enum_t
  | B_init nat channel_init
  | B_addStream nat cam_stream_type_t "stream_cb option"
  | B_config nat | B_start nat | B_stop nat | B_deleteChannel nat
  | B_takePicture nat bool | B_cancelPicture nat | B_linkStream "nat option" nat
  | B_startAdvancedCapture nat | B_stopAdvancedCapture nat
  | B_startZSLSnapshot nat | B_stopZSLSnapshot nat | B_releaseFrame nat ptr bool
  | B_postprocessor_start "nat option" | B_postprocessor_stop
  | B_waitDefferedWork deferred_job | B_queuePostview "nat option" | B_queueReprocess nat
  | B_configureAdvancedCapture | B_unconfigureAdvancedCapture | B_cancelAutoFocus
  | B_updateThermalLevel | B_adjustFPS | B_restoreFPS | B_setDisplayFrame | B_getOrientation
  | B_updateRecordingHintValue bool | B_setLongshotEnable bool | B_setHistogram bool
  | B_setFaceDetection bool | B_flushVideoNotifications | B_joinLiveSnapshot
  | B_processEvt_SNAPSHOT_DONE | B_processAPI_CANCEL_PICTURE | B_notifyError
  | B_createLiveSnapshotThread | B_zslNeedsRestart nat | B_other pcall

text \<open>The backend, and the constants of \<^verbatim>\<open>system/camera.h\<close> that \<^verbatim>\<open>sendCommand\<close> switches on.\<close>

record 'b benv =
  b_call :: "bcall \<Rightarrow> 'b \<Rightarrow> reply \<times> 'b"
  b_VANILLA_HAL :: bool
  b_LONGSHOT_ON :: int32
  b_LONGSHOT_OFF :: int32
  b_HISTOGRAM_ON :: int32
  b_HISTOGRAM_OFF :: int32
  b_START_FACE_DETECTION :: int32
  b_STOP_FACE_DETECTION :: int32

record 'b hwi_dev =
  m_channels :: "qcamera_ch_type_enum_t \<Rightarrow> nat option"
  live :: "nat list"
  next_channel :: nat
  double_delete :: bool
  mPreviewWindow :: ptr
  mCallbacks :: qcamera_sm_evt_setcb_payload_t
  mMsgEnabled :: "32 word"
  mStoreMetaDataInFrame :: int32
  mLongshotEnabled :: bool
  mPrepSnapRun :: bool
  mFPSReconfigure :: bool
  backend :: 'b

type_synonym ('b, 'a) dev_prog = "('b hwi_dev, 'a) state"

definition xcall :: "'b benv \<Rightarrow> bcall \<Rightarrow> ('b, reply) dev_prog" where
  "xcall B c = State (\<lambda>d. case b_call B c (backend d) of (r, b) \<Rightarrow> (r, d\<lparr>backend := b\<rparr>))"

definition xcall_rc :: "'b benv \<Rightarrow> bcall \<Rightarrow> ('b, int32) dev_prog" where
  "xcall_rc B c = do { r \<leftarrow> xcall B c; State_Monad.return (r_rc r) }"

definition xcall_do :: "'b benv \<Rightarrow> bcall \<Rightarrow> ('b, unit) dev_prog" where
  "xcall_do B c = do { _ \<leftarrow> xcall B c; State_Monad.return () }"

definition query :: "'b benv \<Rightarrow> query \<Rightarrow> ('b, bool) dev_prog" where
  "query B q = do { r \<leftarrow> xcall B (B_query q); State_Monad.return (r_flag r) }"

text \<open>The operand of a short-circuit conjunction: asked for only when the operands before it hold.\<close>

definition and_query :: "bool \<Rightarrow> 'b benv \<Rightarrow> query \<Rightarrow> ('b, bool) dev_prog" where
  "and_query b B q = (if b then query B q else State_Monad.return False)"

definition gets :: "('b hwi_dev \<Rightarrow> 'a) \<Rightarrow> ('b, 'a) dev_prog" where
  "gets f = State (\<lambda>d. (f d, d))"

definition modify :: "('b hwi_dev \<Rightarrow> 'b hwi_dev) \<Rightarrow> ('b, unit) dev_prog" where
  "modify f = State (\<lambda>d. ((), f d))"

lemma run_state_gets [simp]: "run_state (gets f) d = (f d, d)"
  by (simp add: gets_def)

lemma run_state_modify [simp]: "run_state (modify f) d = ((), f d)"
  by (simp add: modify_def)

lemma run_state_xcall [simp]:
  "run_state (xcall B c) d = (case b_call B c (backend d) of (r, b) \<Rightarrow> (r, d\<lparr>backend := b\<rparr>))"
  by (simp add: xcall_def)

section \<open>Channel objects\<close>

text \<open>\<^verbatim>\<open>new QCameraChannel(...)\<close>: a null pointer, or an object.\<close>

definition new_object :: "'b benv \<Rightarrow> qcamera_ch_type_enum_t \<Rightarrow> ('b, nat option) dev_prog" where
  "new_object B ch = do {
     r \<leftarrow> xcall B (B_new ch);
     if r_flag r then State (\<lambda>d. (Some (next_channel d),
       d\<lparr>live := next_channel d # live d, next_channel := next_channel d + 1\<rparr>))
     else State_Monad.return None }"

text \<open>\<^verbatim>\<open>delete\<close>: of an object that is not there, it is recorded as a fault.\<close>

definition delete_object :: "nat \<Rightarrow> ('b, unit) dev_prog" where
  "delete_object c = modify (\<lambda>d. if c \<in> set (live d) then d\<lparr>live := remove1 c (live d)\<rparr>
     else d\<lparr>double_delete := True\<rparr>)"

definition clear_channel :: "qcamera_ch_type_enum_t \<Rightarrow> ('b, unit) dev_prog" where
  "clear_channel ch = modify (\<lambda>d. d\<lparr>m_channels := (m_channels d)(ch := None)\<rparr>)"

definition install_channel :: "qcamera_ch_type_enum_t \<Rightarrow> nat \<Rightarrow> ('b, int32) dev_prog" where
  "install_channel ch c = do {
     modify (\<lambda>d. d\<lparr>m_channels := (m_channels d)(ch := Some c)\<rparr>);
     State_Monad.return NO_ERROR }"

text \<open>The pieces the seven functions that add a channel are made of.\<close>

definition drop_channel :: "qcamera_ch_type_enum_t \<Rightarrow> ('b, unit) dev_prog" where
  "drop_channel ch = do {
     old \<leftarrow> gets (\<lambda>d. m_channels d ch);
     (case old of None \<Rightarrow> State_Monad.return ()
      | Some c \<Rightarrow> do { delete_object c; clear_channel ch }) }"

definition with_channel :: "'b benv \<Rightarrow> qcamera_ch_type_enum_t \<Rightarrow> ('b, channel_init) dev_prog
    \<Rightarrow> (nat \<Rightarrow> ('b, int32) dev_prog) \<Rightarrow> ('b, int32) dev_prog" where
  "with_channel B ch attr k = do {
     new \<leftarrow> new_object B ch;
     (case new of None \<Rightarrow> State_Monad.return NO_MEMORY
      | Some c \<Rightarrow> do {
          a \<leftarrow> attr;
          rc \<leftarrow> xcall_rc B (B_init c a);
          if rc \<noteq> NO_ERROR then do { delete_object c; State_Monad.return rc } else k c }) }"

definition with_stream :: "'b benv \<Rightarrow> nat \<Rightarrow> cam_stream_type_t \<Rightarrow> stream_cb option
    \<Rightarrow> ('b, int32) dev_prog \<Rightarrow> ('b, int32) dev_prog" where
  "with_stream B c t cb k = do {
     rc \<leftarrow> xcall_rc B (B_addStream c t cb);
     if rc \<noteq> NO_ERROR then do { delete_object c; State_Monad.return rc } else k }"

definition preview_cb :: "bool \<Rightarrow> stream_cb" where
  "preview_cb nodisplay =
     (if nodisplay then nodisplay_preview_stream_cb_routine else preview_stream_cb_routine)"

definition addPreviewChannel :: "'b benv \<Rightarrow> ('b, int32) dev_prog" where
  "addPreviewChannel B = do {
     drop_channel QCAMERA_CH_TYPE_PREVIEW;
     with_channel B QCAMERA_CH_TYPE_PREVIEW (State_Monad.return None) (\<lambda>c.
       with_stream B c CAM_STREAM_TYPE_METADATA (Some metadata_stream_cb_routine) (do {
         nodisplay \<leftarrow> query B Q_isNoDisplayMode;
         with_stream B c CAM_STREAM_TYPE_PREVIEW (Some (preview_cb nodisplay))
           (install_channel QCAMERA_CH_TYPE_PREVIEW c) })) }"

definition addVideoChannel :: "'b benv \<Rightarrow> ('b, int32) dev_prog" where
  "addVideoChannel B = do {
     drop_channel QCAMERA_CH_TYPE_VIDEO;
     with_channel B QCAMERA_CH_TYPE_VIDEO
       (do {
       low \<leftarrow> query B Q_isLowPowerEnabled;
       State_Monad.return (if low then Some (MM_CAMERA_SUPER_BUF_NOTIFY_BURST, snapshot_channel_cb_routine) else None) })
       (\<lambda>c.
       with_stream B c CAM_STREAM_TYPE_VIDEO (Some video_stream_cb_routine)
         (install_channel QCAMERA_CH_TYPE_VIDEO c)) }"

definition addSnapshotChannel :: "'b benv \<Rightarrow> ('b, int32) dev_prog" where
  "addSnapshotChannel B = do {
     drop_channel QCAMERA_CH_TYPE_SNAPSHOT;
     with_channel B QCAMERA_CH_TYPE_SNAPSHOT
       (State_Monad.return (Some (MM_CAMERA_SUPER_BUF_NOTIFY_CONTINUOUS, snapshot_channel_cb_routine)))
       (\<lambda>c.
       with_stream B c CAM_STREAM_TYPE_SNAPSHOT None
         (install_channel QCAMERA_CH_TYPE_SNAPSHOT c)) }"

definition addRawChannel :: "'b benv \<Rightarrow> ('b, int32) dev_prog" where
  "addRawChannel B = do {
     drop_channel QCAMERA_CH_TYPE_RAW;
     with_channel B QCAMERA_CH_TYPE_RAW (State_Monad.return None) (\<lambda>c.
       with_stream B c CAM_STREAM_TYPE_METADATA (Some metadata_stream_cb_routine) (do {
         xcall_do B (B_waitDefferedWork Job_metadata);
         with_stream B c CAM_STREAM_TYPE_RAW (Some raw_stream_cb_routine) (do {
           xcall_do B (B_waitDefferedWork Job_rawdata);
           install_channel QCAMERA_CH_TYPE_RAW c }) })) }"

text \<open>The raw stream that two of the channels get when a property asks for it.\<close>

definition with_raw_stream :: "'b benv \<Rightarrow> nat \<Rightarrow> stream_cb option \<Rightarrow> ('b, int32) dev_prog \<Rightarrow> ('b, int32) dev_prog" where
  "with_raw_stream B c cb k = do {
     raw_yuv \<leftarrow> query B Q_raw_yuv;
     if raw_yuv then with_stream B c CAM_STREAM_TYPE_RAW cb k else k }"

definition addZSLChannel :: "'b benv \<Rightarrow> ('b, int32) dev_prog" where
  "addZSLChannel B = do {
     drop_channel QCAMERA_CH_TYPE_ZSL;
     drop_channel QCAMERA_CH_TYPE_PREVIEW;
     with_channel B QCAMERA_CH_TYPE_ZSL
       (State_Monad.return (Some (MM_CAMERA_SUPER_BUF_NOTIFY_BURST, zsl_channel_cb)))
       (\<lambda>c.
       with_stream B c CAM_STREAM_TYPE_METADATA (Some metadata_stream_cb_routine) (do {
         nodisplay \<leftarrow> query B Q_isNoDisplayMode;
         with_stream B c CAM_STREAM_TYPE_PREVIEW (Some (preview_cb nodisplay)) (
           with_stream B c CAM_STREAM_TYPE_SNAPSHOT None (
             with_raw_stream B c None (install_channel QCAMERA_CH_TYPE_ZSL c))) })) }"

definition addCaptureChannel :: "'b benv \<Rightarrow> ('b, int32) dev_prog" where
  "addCaptureChannel B = do {
     drop_channel QCAMERA_CH_TYPE_CAPTURE;
     with_channel B QCAMERA_CH_TYPE_CAPTURE
       (do {
       longshot \<leftarrow> gets mLongshotEnabled;
       State_Monad.return (Some (if longshot then MM_CAMERA_SUPER_BUF_NOTIFY_BURST
         else MM_CAMERA_SUPER_BUF_NOTIFY_CONTINUOUS, capture_channel_cb_routine)) })
       (\<lambda>c.
       with_stream B c CAM_STREAM_TYPE_METADATA (Some metadata_stream_cb_routine) (do {
         longshot \<leftarrow> gets mLongshotEnabled;
         with_stream B c (if longshot then CAM_STREAM_TYPE_PREVIEW else CAM_STREAM_TYPE_POSTVIEW)
             (if longshot then Some preview_stream_cb_routine else None) (
           with_stream B c CAM_STREAM_TYPE_SNAPSHOT None (
             with_raw_stream B c (Some snapshot_raw_stream_cb_routine) (install_channel QCAMERA_CH_TYPE_CAPTURE c))) })) }"

definition addMetaDataChannel :: "'b benv \<Rightarrow> ('b, int32) dev_prog" where
  "addMetaDataChannel B = do {
     drop_channel QCAMERA_CH_TYPE_METADATA;
     with_channel B QCAMERA_CH_TYPE_METADATA (State_Monad.return None) (\<lambda>c.
       with_stream B c CAM_STREAM_TYPE_METADATA (Some metadata_stream_cb_routine)
         (install_channel QCAMERA_CH_TYPE_METADATA c)) }"

fun addChannel :: "'b benv \<Rightarrow> qcamera_ch_type_enum_t \<Rightarrow> ('b, int32) dev_prog" where
  "addChannel B QCAMERA_CH_TYPE_ZSL = addZSLChannel B"
| "addChannel B QCAMERA_CH_TYPE_CAPTURE = addCaptureChannel B"
| "addChannel B QCAMERA_CH_TYPE_PREVIEW = addPreviewChannel B"
| "addChannel B QCAMERA_CH_TYPE_VIDEO = addVideoChannel B"
| "addChannel B QCAMERA_CH_TYPE_SNAPSHOT = addSnapshotChannel B"
| "addChannel B QCAMERA_CH_TYPE_RAW = addRawChannel B"
| "addChannel B QCAMERA_CH_TYPE_METADATA = addMetaDataChannel B"

definition delChannel :: "'b benv \<Rightarrow> qcamera_ch_type_enum_t \<Rightarrow> bool \<Rightarrow> ('b, int32) dev_prog" where
  "delChannel B ch destroy = do {
     old \<leftarrow> gets (\<lambda>d. m_channels d ch);
     (case old of None \<Rightarrow> State_Monad.return ()
      | Some c \<Rightarrow> (if destroy then do { delete_object c; clear_channel ch }
                  else xcall_do B (B_deleteChannel c)));
     State_Monad.return NO_ERROR }"

definition startChannel :: "'b benv \<Rightarrow> qcamera_ch_type_enum_t \<Rightarrow> ('b, int32) dev_prog" where
  "startChannel B ch = do {
     ch \<leftarrow> gets (\<lambda>d. m_channels d ch);
     (case ch of None \<Rightarrow> State_Monad.return UNKNOWN_ERROR
      | Some c \<Rightarrow> do {
          rc \<leftarrow> xcall_rc B (B_config c);
          if rc = NO_ERROR then xcall_rc B (B_start c) else State_Monad.return rc }) }"

definition stopChannel :: "'b benv \<Rightarrow> qcamera_ch_type_enum_t \<Rightarrow> ('b, int32) dev_prog" where
  "stopChannel B ch = do {
     ch \<leftarrow> gets (\<lambda>d. m_channels d ch);
     (case ch of None \<Rightarrow> State_Monad.return UNKNOWN_ERROR
      | Some c \<Rightarrow> xcall_rc B (B_stop c)) }"

text \<open>Statement forms: a call whose result is not used.\<close>

definition del :: "'b benv \<Rightarrow> qcamera_ch_type_enum_t \<Rightarrow> ('b, unit) dev_prog" where
  "del B ch = do { _ \<leftarrow> delChannel B ch True; State_Monad.return () }"

definition stop :: "'b benv \<Rightarrow> qcamera_ch_type_enum_t \<Rightarrow> ('b, unit) dev_prog" where
  "stop B ch = do { _ \<leftarrow> stopChannel B ch; State_Monad.return () }"

text \<open>The definitions that running a program on a known device unfolds.\<close>

lemmas channel_defs = xcall_rc_def xcall_do_def query_def and_query_def new_object_def
  delete_object_def clear_channel_def install_channel_def drop_channel_def with_channel_def
  with_stream_def with_raw_stream_def preview_cb_def addPreviewChannel_def addVideoChannel_def
  addSnapshotChannel_def addZSLChannel_def addCaptureChannel_def addRawChannel_def
  addMetaDataChannel_def delChannel_def startChannel_def stopChannel_def del_def stop_def

end
