(* ===== verification/HwiDevice.thy ===== *)
theory HwiDevice
  imports HwiChannels
begin

text \<open>
  The methods of the hardware interface the state machine calls (\<^verbatim>\<open>QCamera2HWI.cpp\<close>), on the channels
  of \<open>HwiChannels\<close>, and the environment of the state machine they make.
\<close>

section \<open>Commands and the preview\<close>

definition cancelPicture :: "'b benv \<Rightarrow> ('b, int32) dev_prog" where
  "cancelPicture B = do {
     xcall_do B (B_waitDefferedWork Job_reproc);
     xcall_do B B_postprocessor_stop;
     xcall_do B B_unconfigureAdvancedCapture;
     xcall_do B B_setDisplayFrame;
     zsl \<leftarrow> query B Q_isZSLMode;
     (if zsl then do {
        ch \<leftarrow> gets (\<lambda>d. m_channels d QCAMERA_CH_TYPE_ZSL);
        (case ch of None \<Rightarrow> State_Monad.return ()
         | Some c \<Rightarrow> do { xcall_do B (B_stopAdvancedCapture c); xcall_do B (B_cancelPicture c) });
        fps \<leftarrow> gets mFPSReconfigure;
        only_if fps (do { xcall_do B B_restoreFPS; modify (\<lambda>d. d\<lparr>mFPSReconfigure := False\<rparr>) }) }
      else do {
        yuv \<leftarrow> query B Q_isYuvPictureFormat;
        if yuv then do { stop B QCAMERA_CH_TYPE_CAPTURE; del B QCAMERA_CH_TYPE_CAPTURE }
        else do { stop B QCAMERA_CH_TYPE_RAW; del B QCAMERA_CH_TYPE_RAW } });
     State_Monad.return NO_ERROR }"

text \<open>
  \<^verbatim>\<open>sendCommand\<close>: the status, and what it leaves in \<^verbatim>\<open>arg1\<close>. The commands are compared in the order
  of the \<^verbatim>\<open>switch\<close>.
\<close>

definition longshot_on_command :: "'b benv \<Rightarrow> ('b, int32 \<times> int32) dev_prog" where
  "longshot_on_command B = do {
     busy \<leftarrow> query B Q_isCaptureRunning;
     if busy then State_Monad.return (NO_INIT, 0)
     else do {
       modify (\<lambda>d. d\<lparr>mLongshotEnabled := True\<rparr>);
       zsl \<leftarrow> query B Q_isZSLMode;
       running \<leftarrow> and_query zsl B Q_isPreviewRunning;
       ch \<leftarrow> gets (\<lambda>d. m_channels d QCAMERA_CH_TYPE_ZSL);
       restart \<leftarrow> (case ch of
           Some c \<Rightarrow> if zsl \<and> running then do { r \<leftarrow> xcall B (B_zslNeedsRestart c); State_Monad.return (r_flag r) }
             else State_Monad.return False
         | None \<Rightarrow> State_Monad.return False);
       rc \<leftarrow> xcall_rc B (B_setLongshotEnable True);
       modify (\<lambda>d. d\<lparr>mPrepSnapRun := False\<rparr>);
       State_Monad.return (rc, if restart then evt_value QCAMERA_SM_EVT_RESTART_PERVIEW else 0) } }"

definition longshot_off_command :: "'b benv \<Rightarrow> ('b, int32) dev_prog" where
  "longshot_off_command B = do {
     enabled \<leftarrow> gets mLongshotEnabled;
     busy \<leftarrow> and_query enabled B Q_isCaptureRunning;
     only_if (enabled \<and> busy) (do {
       _ \<leftarrow> cancelPicture B;
       xcall_do B B_processEvt_SNAPSHOT_DONE;
       zsl \<leftarrow> query B Q_isZSLMode;
       ch \<leftarrow> gets (\<lambda>d. m_channels d QCAMERA_CH_TYPE_ZSL);
       prep \<leftarrow> gets mPrepSnapRun;
       (case ch of Some c \<Rightarrow> only_if (zsl \<and> prep) (xcall_do B (B_stopZSLSnapshot c))
        | None \<Rightarrow> State_Monad.return ()) });
     modify (\<lambda>d. d\<lparr>mPrepSnapRun := False, mLongshotEnabled := False\<rparr>);
     xcall_rc B (B_setLongshotEnable False) }"

definition sendCommand :: "'b benv \<Rightarrow> int32 \<Rightarrow> int32 \<Rightarrow> ('b, int32 \<times> int32) dev_prog" where
  "sendCommand B command a1 =
     (if \<not> b_VANILLA_HAL B \<and> command = b_LONGSHOT_ON B then longshot_on_command B
      else if \<not> b_VANILLA_HAL B \<and> command = b_LONGSHOT_OFF B then
        do { rc \<leftarrow> longshot_off_command B; State_Monad.return (rc, a1) }
      else if \<not> b_VANILLA_HAL B \<and> (command = b_HISTOGRAM_ON B \<or> command = b_HISTOGRAM_OFF B) then
        do { rc \<leftarrow> xcall_rc B (B_setHistogram (command = b_HISTOGRAM_ON B)); State_Monad.return (rc, a1) }
      else if command = b_START_FACE_DETECTION B \<or> command = b_STOP_FACE_DETECTION B then
        do { rc \<leftarrow> xcall_rc B (B_setFaceDetection (command = b_START_FACE_DETECTION B));
             State_Monad.return (rc, a1) }
      else State_Monad.return (NO_ERROR, a1))"

definition command_if :: "'b benv \<Rightarrow> bool \<Rightarrow> int32 \<Rightarrow> ('b, unit) dev_prog" where
  "command_if B b c = only_if b (do { _ \<leftarrow> sendCommand B c 0; State_Monad.return () })"

text \<open>The features of camera mode switched off before recording.\<close>

definition stop_camera_features :: "'b benv \<Rightarrow> ('b, unit) dev_prog" where
  "stop_camera_features B = do {
     longshot \<leftarrow> gets mLongshotEnabled;
     command_if B (\<not> b_VANILLA_HAL B \<and> longshot) (b_LONGSHOT_OFF B);
     face \<leftarrow> query B Q_isFaceDetectionEnabled;
     command_if B face (b_STOP_FACE_DETECTION B);
     hist \<leftarrow> and_query (\<not> b_VANILLA_HAL B) B Q_isHistogramEnabled;
     command_if B hist (b_HISTOGRAM_OFF B) }"

text \<open>
  \<^verbatim>\<open>preparePreview\<close>: the channels of the video mode, then the preview channel, each failure undoing
  what was added before.
\<close>

definition add_video_channels :: "'b benv \<Rightarrow> ('b, int32) dev_prog" where
  "add_video_channels B = do {
     large \<leftarrow> query B Q_is4k2kResolution;
     low \<leftarrow> and_query (\<not> large) B Q_isLowPowerEnabled;
     rc \<leftarrow> (if \<not> large \<and> \<not> low then addChannel B QCAMERA_CH_TYPE_SNAPSHOT
            else State_Monad.return NO_ERROR);
     if rc \<noteq> NO_ERROR then State_Monad.return rc
     else do {
       rc \<leftarrow> addChannel B QCAMERA_CH_TYPE_VIDEO;
       only_if (rc \<noteq> NO_ERROR) (del B QCAMERA_CH_TYPE_SNAPSHOT);
       State_Monad.return rc } }"

definition preparePreview :: "'b benv \<Rightarrow> ('b, int32) dev_prog" where
  "preparePreview B = do {
     zsl \<leftarrow> query B Q_isZSLMode;
     hint1 \<leftarrow> and_query zsl B Q_getRecordingHintValue;
     if zsl \<and> \<not> hint1 then addChannel B QCAMERA_CH_TYPE_ZSL
     else do {
       recordingHint \<leftarrow> query B Q_getRecordingHintValue;
       only_if recordingHint (stop_camera_features B);
       rc \<leftarrow> (if recordingHint then add_video_channels B else State_Monad.return NO_ERROR);
       if rc \<noteq> NO_ERROR then State_Monad.return rc
       else do {
         rc \<leftarrow> addChannel B QCAMERA_CH_TYPE_PREVIEW;
         if rc \<noteq> NO_ERROR then do {
           only_if recordingHint (do { del B QCAMERA_CH_TYPE_SNAPSHOT; del B QCAMERA_CH_TYPE_VIDEO });
           State_Monad.return rc }
         else do {
           only_if (\<not> recordingHint) (xcall_do B (B_waitDefferedWork Job_metadata));
           State_Monad.return rc } } } }"

definition unpreparePreview :: "'b benv \<Rightarrow> ('b, unit) dev_prog" where
  "unpreparePreview B = do {
     del B QCAMERA_CH_TYPE_ZSL;
     del B QCAMERA_CH_TYPE_PREVIEW;
     del B QCAMERA_CH_TYPE_VIDEO;
     del B QCAMERA_CH_TYPE_SNAPSHOT }"

definition startPreview :: "'b benv \<Rightarrow> ('b, int32) dev_prog" where
  "startPreview B = do {
     xcall_do B B_updateThermalLevel;
     zsl \<leftarrow> query B Q_isZSLMode;
     hint \<leftarrow> and_query zsl B Q_getRecordingHintValue;
     if zsl \<and> \<not> hint then startChannel B QCAMERA_CH_TYPE_ZSL
     else do {
       rc \<leftarrow> startChannel B QCAMERA_CH_TYPE_PREVIEW;
       caf \<leftarrow> query B Q_isContinuousPictureFocus;
       only_if caf (xcall_do B B_cancelAutoFocus);
       State_Monad.return rc } }"

definition stopPreview :: "'b benv \<Rightarrow> ('b, int32) dev_prog" where
  "stopPreview B = do {
     stop B QCAMERA_CH_TYPE_ZSL;
     stop B QCAMERA_CH_TYPE_PREVIEW;
     unpreparePreview B;
     State_Monad.return NO_ERROR }"

section \<open>Recording\<close>

text \<open>
  \<^verbatim>\<open>startRecording\<close>. In low power mode the metadata stream of the preview channel, when it has one, is
  linked to the video channel (the pointer is not tested there).
\<close>

definition link_metadata :: "'b benv \<Rightarrow> int32 \<Rightarrow> ('b, int32) dev_prog" where
  "link_metadata B rc = do {
     video \<leftarrow> gets (\<lambda>d. m_channels d QCAMERA_CH_TYPE_VIDEO);
     preview \<leftarrow> gets (\<lambda>d. m_channels d QCAMERA_CH_TYPE_PREVIEW);
     (case preview of None \<Rightarrow> State_Monad.return rc
      | Some c \<Rightarrow> do {
          meta \<leftarrow> query B Q_metadataStream;
          if meta then xcall_rc B (B_linkStream video c) else State_Monad.return rc }) }"

definition startRecording :: "'b benv \<Rightarrow> ('b, int32) dev_prog" where
  "startRecording B = do {
     hint \<leftarrow> query B Q_getRecordingHintValue;
     rc \<leftarrow> (if \<not> hint then do {
              _ \<leftarrow> stopPreview B;
              xcall_do B (B_updateRecordingHintValue True);
              rc \<leftarrow> preparePreview B;
              if rc = NO_ERROR then startChannel B QCAMERA_CH_TYPE_PREVIEW else State_Monad.return rc }
            else State_Monad.return NO_ERROR);
     low \<leftarrow> query B Q_isLowPowerEnabled;
     rc \<leftarrow> (if low then link_metadata B rc else State_Monad.return rc);
     if rc = NO_ERROR then startChannel B QCAMERA_CH_TYPE_VIDEO else State_Monad.return rc }"

definition stopRecording :: "'b benv \<Rightarrow> ('b, int32) dev_prog" where
  "stopRecording B = do {
     rc \<leftarrow> stopChannel B QCAMERA_CH_TYPE_VIDEO;
     xcall_do B B_flushVideoNotifications;
     State_Monad.return rc }"

definition releaseRecordingFrame :: "'b benv \<Rightarrow> ptr \<Rightarrow> ('b, int32) dev_prog" where
  "releaseRecordingFrame B opaque = do {
     ch \<leftarrow> gets (\<lambda>d. m_channels d QCAMERA_CH_TYPE_VIDEO);
     meta \<leftarrow> gets mStoreMetaDataInFrame;
     (case ch of None \<Rightarrow> State_Monad.return UNKNOWN_ERROR
      | Some c \<Rightarrow> xcall_rc B (B_releaseFrame c opaque (meta > 0))) }"

section \<open>Pictures\<close>

definition longShot :: "'b benv \<Rightarrow> ('b, int32) dev_prog" where
  "longShot B = do {
     zsl \<leftarrow> query B Q_isZSLMode;
     ch \<leftarrow> gets (\<lambda>d. m_channels d (if zsl then QCAMERA_CH_TYPE_ZSL else QCAMERA_CH_TYPE_CAPTURE));
     (case ch of None \<Rightarrow> State_Monad.return NO_INIT
      | Some c \<Rightarrow> xcall_rc B (B_takePicture c False)) }"

text \<open>
  \<^verbatim>\<open>takePicture\<close> in three parts: with the ZSL channel, with a capture channel, with a raw channel.
  \<open>burst\<close> says that the number of snapshots is the burst count of the advanced capture.
\<close>

definition needAdjustFPS :: "'b benv \<Rightarrow> ('b, bool) dev_prog" where
  "needAdjustFPS B = do {
     zsl \<leftarrow> query B Q_isZSLMode;
     prep \<leftarrow> gets mPrepSnapRun;
     one \<leftarrow> and_query (zsl \<and> \<not> prep) B Q_oneSnapshotExpected;
     longshot \<leftarrow> gets mLongshotEnabled;
     advanced \<leftarrow> and_query (one \<and> \<not> longshot) B Q_isAdvCamFeaturesEnabled;
     low_power \<leftarrow> query B Q_low_power_mode_supported;
     no_thermal \<leftarrow> query B Q_thermal_no_adjustment;
     modify (\<lambda>d. d\<lparr>mFPSReconfigure :=
       (one \<and> \<not> longshot \<and> \<not> advanced) \<and> low_power \<and> no_thermal\<rparr>);
     gets mFPSReconfigure }"

definition takePicture_zsl :: "'b benv \<Rightarrow> bool \<Rightarrow> ('b, int32) dev_prog" where
  "takePicture_zsl B burst = do {
     adjust \<leftarrow> needAdjustFPS B;
     only_if adjust (xcall_do B B_adjustFPS);
     ch \<leftarrow> gets (\<lambda>d. m_channels d QCAMERA_CH_TYPE_ZSL);
     (case ch of None \<Rightarrow> State_Monad.return UNKNOWN_ERROR
      | Some c \<Rightarrow> do {
          rc \<leftarrow> xcall_rc B (B_postprocessor_start (Some c));
          if rc \<noteq> NO_ERROR then State_Monad.return rc
          else do {
            advanced \<leftarrow> query B Q_isAdvancedCapture;
            rc \<leftarrow> (if advanced then xcall_rc B (B_startAdvancedCapture c)
                   else State_Monad.return NO_ERROR);
            if rc \<noteq> NO_ERROR then State_Monad.return rc
            else do {
              longshot \<leftarrow> gets mLongshotEnabled;
              prep \<leftarrow> gets mPrepSnapRun;
              only_if (longshot \<and> prep) (xcall_do B (B_startZSLSnapshot c));
              rc \<leftarrow> xcall_rc B (B_takePicture c burst);
              only_if (rc \<noteq> NO_ERROR) (xcall_do B B_postprocessor_stop);
              State_Monad.return rc } } }) }"

text \<open>Adding the capture channel, in the order the longshot flag decides.\<close>

definition open_capture :: "'b benv \<Rightarrow> ('b, int32) dev_prog" where
  "open_capture B = do {
     longshot \<leftarrow> gets mLongshotEnabled;
     if \<not> longshot then do {
       rc \<leftarrow> addCaptureChannel B;
       stop B QCAMERA_CH_TYPE_PREVIEW;
       del B QCAMERA_CH_TYPE_PREVIEW;
       if rc \<noteq> NO_ERROR then State_Monad.return rc
       else do {
         xcall_do B (B_waitDefferedWork Job_snapshot);
         xcall_do B (B_waitDefferedWork Job_metadata);
         xcall_do B (B_waitDefferedWork Job_rawdata);
         ch \<leftarrow> gets (\<lambda>d. m_channels d QCAMERA_CH_TYPE_CAPTURE);
         job \<leftarrow> xcall B (B_queuePostview ch);
         xcall_do B (B_waitDefferedWork Job_postview);
         State_Monad.return (if r_flag job then NO_ERROR else UNKNOWN_ERROR) } }
     else do {
       stop B QCAMERA_CH_TYPE_PREVIEW;
       del B QCAMERA_CH_TYPE_PREVIEW;
       addCaptureChannel B } }"

definition start_capture :: "'b benv \<Rightarrow> nat \<Rightarrow> ('b, int32) dev_prog" where
  "start_capture B c = do {
     rc \<leftarrow> xcall_rc B (B_config c);
     if rc \<noteq> NO_ERROR then do { del B QCAMERA_CH_TYPE_CAPTURE; State_Monad.return rc }
     else do {
       xcall_do B (B_queueReprocess c);
       rc \<leftarrow> xcall_rc B (B_start c);
       if rc \<noteq> NO_ERROR then do {
         xcall_do B (B_waitDefferedWork Job_reproc);
         del B QCAMERA_CH_TYPE_CAPTURE;
         State_Monad.return rc }
       else do {
         bracket \<leftarrow> query B Q_isBracketCapture;
         rc \<leftarrow> (if bracket then xcall_rc B (B_startAdvancedCapture c)
                else State_Monad.return NO_ERROR);
         if rc \<noteq> NO_ERROR then State_Monad.return rc
         else do {
           longshot \<leftarrow> gets mLongshotEnabled;
           if longshot then do {
             rc \<leftarrow> longShot B;
             only_if (rc \<noteq> NO_ERROR) (do {
               xcall_do B (B_waitDefferedWork Job_reproc);
               del B QCAMERA_CH_TYPE_CAPTURE });
             State_Monad.return rc }
           else State_Monad.return NO_ERROR } } } }"

definition takePicture_capture :: "'b benv \<Rightarrow> ('b, int32) dev_prog" where
  "takePicture_capture B = do {
     rc \<leftarrow> open_capture B;
     ch \<leftarrow> gets (\<lambda>d. m_channels d QCAMERA_CH_TYPE_CAPTURE);
     (case ch of
        Some c \<Rightarrow> if rc = NO_ERROR then start_capture B c else State_Monad.return rc
      | None \<Rightarrow> State_Monad.return rc) }"

definition takePicture_raw :: "'b benv \<Rightarrow> ('b, int32) dev_prog" where
  "takePicture_raw B = do {
     stop B QCAMERA_CH_TYPE_PREVIEW;
     del B QCAMERA_CH_TYPE_PREVIEW;
     rc \<leftarrow> addRawChannel B;
     if rc \<noteq> NO_ERROR then State_Monad.return rc
     else do {
       ch \<leftarrow> gets (\<lambda>d. m_channels d QCAMERA_CH_TYPE_RAW);
       rc \<leftarrow> xcall_rc B (B_postprocessor_start ch);
       if rc \<noteq> NO_ERROR then do { del B QCAMERA_CH_TYPE_RAW; State_Monad.return rc }
       else do {
         rc \<leftarrow> startChannel B QCAMERA_CH_TYPE_RAW;
         only_if (rc \<noteq> NO_ERROR) (do {
           xcall_do B B_postprocessor_stop;
           del B QCAMERA_CH_TYPE_RAW });
         State_Monad.return rc } } }"

definition takePicture :: "'b benv \<Rightarrow> ('b, int32) dev_prog" where
  "takePicture B = do {
     advanced \<leftarrow> query B Q_isAdvancedCapture;
     burst \<leftarrow> (if advanced then do {
                 rc \<leftarrow> xcall_rc B B_configureAdvancedCapture;
                 State_Monad.return (rc = NO_ERROR) }
               else State_Monad.return False);
     xcall_do B B_getOrientation;
     zsl \<leftarrow> query B Q_isZSLMode;
     if zsl then takePicture_zsl B burst
     else do {
       yuv \<leftarrow> query B Q_isYuvPictureFormat;
       if yuv then takePicture_capture B else takePicture_raw B } }"

definition stopCaptureChannel :: "'b benv \<Rightarrow> bool \<Rightarrow> ('b, int32) dev_prog" where
  "stopCaptureChannel B destroy = do {
     yuv \<leftarrow> query B Q_isYuvPictureFormat;
     only_if yuv (do {
       stop B QCAMERA_CH_TYPE_CAPTURE;
       only_if destroy (do {
         _ \<leftarrow> delChannel B QCAMERA_CH_TYPE_CAPTURE False;
         State_Monad.return () }) });
     State_Monad.return NO_ERROR }"

text \<open>
  The body of the live snapshot thread. On an error it asks the machine to cancel the picture and
  does not wait for the answer.
\<close>

definition takeLiveSnapshot_internal :: "'b benv \<Rightarrow> ('b, int32) dev_prog" where
  "takeLiveSnapshot_internal B = do {
     xcall_do B B_getOrientation;
     low \<leftarrow> query B Q_isLowPowerEnabled;
     ch \<leftarrow> gets (\<lambda>d. m_channels d (if low then QCAMERA_CH_TYPE_VIDEO else QCAMERA_CH_TYPE_SNAPSHOT));
     rc \<leftarrow> (case ch of None \<Rightarrow> State_Monad.return NO_INIT
      | Some c \<Rightarrow> do {
          rc \<leftarrow> xcall_rc B (B_postprocessor_start (Some c));
          if rc \<noteq> NO_ERROR then State_Monad.return rc
          else do {
            low \<leftarrow> query B Q_isLowPowerEnabled;
            if low then xcall_rc B (B_takePicture c False)
            else do {
              preview \<leftarrow> gets (\<lambda>d. m_channels d QCAMERA_CH_TYPE_PREVIEW);
              (case preview of None \<Rightarrow> State_Monad.return ()
               | Some p \<Rightarrow> do {
                   meta \<leftarrow> query B Q_metadataStream;
                   only_if meta (xcall_do B (B_linkStream (Some c) p)) });
              xcall_rc B (B_start c) } } });
     if rc \<noteq> NO_ERROR then do {
       xcall_do B B_processAPI_CANCEL_PICTURE;
       xcall_rc B B_notifyError }
     else State_Monad.return rc }"

definition cancelLiveSnapshot :: "'b benv \<Rightarrow> ('b, int32) dev_prog" where
  "cancelLiveSnapshot B = do {
     thread \<leftarrow> query B Q_liveSnapshotThread;
     only_if thread (xcall_do B B_joinLiveSnapshot);
     xcall_do B B_postprocessor_stop;
     stopChannel B QCAMERA_CH_TYPE_SNAPSHOT }"

section \<open>Release\<close>

fun release_channels :: "'b benv \<Rightarrow> qcamera_ch_type_enum_t list \<Rightarrow> ('b, unit) dev_prog" where
  "release_channels B [] = State_Monad.return ()"
| "release_channels B (ch # chs) = do {
     c \<leftarrow> gets (\<lambda>d. m_channels d ch);
     only_if (c \<noteq> None) (do { stop B ch; del B ch });
     release_channels B chs }"

definition all_channel_types :: "qcamera_ch_type_enum_t list" where
  "all_channel_types = [QCAMERA_CH_TYPE_ZSL, QCAMERA_CH_TYPE_CAPTURE, QCAMERA_CH_TYPE_PREVIEW,
     QCAMERA_CH_TYPE_VIDEO, QCAMERA_CH_TYPE_SNAPSHOT, QCAMERA_CH_TYPE_RAW, QCAMERA_CH_TYPE_METADATA]"

definition release :: "'b benv \<Rightarrow> ('b, int32) dev_prog" where
  "release B = do { release_channels B all_channel_types; State_Monad.return NO_ERROR }"

section \<open>The setters\<close>

text \<open>The message mask is 32 bits; the argument arrives as an \<^verbatim>\<open>int32_t\<close>.\<close>

definition enableMsgType :: "int32 \<Rightarrow> ('b, int32) dev_prog" where
  "enableMsgType m = do {
     modify (\<lambda>d. d\<lparr>mMsgEnabled := or (mMsgEnabled d) (word_of_int m)\<rparr>);
     State_Monad.return NO_ERROR }"

definition disableMsgType :: "int32 \<Rightarrow> ('b, int32) dev_prog" where
  "disableMsgType m = do {
     modify (\<lambda>d. d\<lparr>mMsgEnabled := and (mMsgEnabled d) (not (word_of_int m))\<rparr>);
     State_Monad.return NO_ERROR }"

definition msgTypeEnabled :: "int32 \<Rightarrow> ('b, int32) dev_prog" where
  "msgTypeEnabled m = gets (\<lambda>d. sint (and (mMsgEnabled d) (word_of_int m)))"

definition setPreviewWindow :: "ptr \<Rightarrow> ('b, int32) dev_prog" where
  "setPreviewWindow w = do { modify (\<lambda>d. d\<lparr>mPreviewWindow := w\<rparr>); State_Monad.return NO_ERROR }"

definition setCallBacks :: "qcamera_sm_evt_setcb_payload_t \<Rightarrow> ('b, int32) dev_prog" where
  "setCallBacks cb = do { modify (\<lambda>d. d\<lparr>mCallbacks := cb\<rparr>); State_Monad.return NO_ERROR }"

definition storeMetaDataInBuffers :: "int32 \<Rightarrow> ('b, int32) dev_prog" where
  "storeMetaDataInBuffers n = do {
     modify (\<lambda>d. d\<lparr>mStoreMetaDataInFrame := n\<rparr>); State_Monad.return NO_ERROR }"

definition dump :: "int32 \<Rightarrow> ('b, int32) dev_prog" where
  "dump fd = State_Monad.return INVALID_OPERATION"

section \<open>The environment of the state machine\<close>

definition no_reply :: reply where
  "no_reply = \<lparr>r_rc = NO_ERROR, r_flag = False, r_out = 0, r_addr = NULL\<rparr>"

definition reply_rc :: "('b, int32) dev_prog \<Rightarrow> ('b, reply) dev_prog" where
  "reply_rc m = do { rc \<leftarrow> m; State_Monad.return (no_reply\<lparr>r_rc := rc\<rparr>) }"

definition reply_flag :: "('b, bool) dev_prog \<Rightarrow> ('b, reply) dev_prog" where
  "reply_flag m = do { b \<leftarrow> m; State_Monad.return (no_reply\<lparr>r_flag := b\<rparr>) }"

text \<open>A call of the state machine, by the method of this file that serves it, else by the backend.\<close>

fun hwi_op :: "'b benv \<Rightarrow> pcall \<Rightarrow> ('b, reply) dev_prog" where
  "hwi_op B (P_setPreviewWindow w) = reply_rc (setPreviewWindow w)"
| "hwi_op B (P_setCallBacks cb) = reply_rc (setCallBacks cb)"
| "hwi_op B (P_enableMsgType m) = reply_rc (enableMsgType m)"
| "hwi_op B (P_disableMsgType m) = reply_rc (disableMsgType m)"
| "hwi_op B (P_msgTypeEnabled m) =
     do { n \<leftarrow> msgTypeEnabled m; State_Monad.return (no_reply\<lparr>r_out := n\<rparr>) }"
| "hwi_op B P_mPreviewWindow =
     do { w \<leftarrow> gets mPreviewWindow; State_Monad.return (no_reply\<lparr>r_addr := w\<rparr>) }"
| "hwi_op B P_preparePreview = reply_rc (preparePreview B)"
| "hwi_op B P_startPreview = reply_rc (startPreview B)"
| "hwi_op B P_unpreparePreview = do { unpreparePreview B; State_Monad.return no_reply }"
| "hwi_op B P_stopPreview = reply_rc (stopPreview B)"
| "hwi_op B P_release = reply_rc (release B)"
| "hwi_op B (P_storeMetaDataInBuffers n) = reply_rc (storeMetaDataInBuffers n)"
| "hwi_op B (P_dump fd) = reply_rc (dump fd)"
| "hwi_op B (P_sendCommand c a b) = do {
     (rc, a1) \<leftarrow> sendCommand B c a;
     State_Monad.return (no_reply\<lparr>r_rc := rc, r_out := a1\<rparr>) }"
| "hwi_op B P_startRecording = reply_rc (startRecording B)"
| "hwi_op B P_stopRecording = reply_rc (stopRecording B)"
| "hwi_op B P_getRecordingHintValue = reply_flag (query B Q_getRecordingHintValue)"
| "hwi_op B P_isZSLMode = reply_flag (query B Q_isZSLMode)"
| "hwi_op B P_isLongshotEnabled = reply_flag (gets mLongshotEnabled)"
| "hwi_op B P_takePicture = reply_rc (takePicture B)"
| "hwi_op B P_longShot = reply_rc (longShot B)"
| "hwi_op B P_cancelPicture = reply_rc (cancelPicture B)"
| "hwi_op B P_takeLiveSnapshot = xcall B B_createLiveSnapshotThread"
| "hwi_op B P_cancelLiveSnapshot = reply_rc (cancelLiveSnapshot B)"
| "hwi_op B (P_releaseRecordingFrame p) = reply_rc (releaseRecordingFrame B p)"
| "hwi_op B (P_stopChannel ch) = reply_rc (stopChannel B ch)"
| "hwi_op B (P_stopCaptureChannel destroy) = reply_rc (stopCaptureChannel B destroy)"
| "hwi_op B c = xcall B (B_other c)"

definition hwi_penv :: "'b benv \<Rightarrow> int32 \<Rightarrow> int32 \<Rightarrow> 'b hwi_dev penv" where
  "hwi_penv B msg_error server_died =
     \<lparr>p_call = \<lambda>c d. run_state (hwi_op B c) d, VANILLA_HAL = b_VANILLA_HAL B,
      CAMERA_CMD_LONGSHOT_ON = b_LONGSHOT_ON B, CAMERA_CMD_LONGSHOT_OFF = b_LONGSHOT_OFF B,
      CAMERA_MSG_ERROR = msg_error, CAMERA_ERROR_SERVER_DIED = server_died\<rparr>"

text \<open>The device as the constructor leaves it.\<close>

definition new_device :: "'b \<Rightarrow> 'b hwi_dev" where
  "new_device b = \<lparr>m_channels = Map.empty, live = [], next_channel = 0, double_delete = False,
     mPreviewWindow = NULL,
     mCallbacks = \<lparr>notify_cb = NULL, data_cb = NULL, data_cb_timestamp = NULL, get_memory = NULL, user = NULL\<rparr>,
     mMsgEnabled = 0, mStoreMetaDataInFrame = 0, mLongshotEnabled = False, mPrepSnapRun = False,
     mFPSReconfigure = False, backend = b\<rparr>"

lemmas device_defs = cancelPicture_def longshot_on_command_def longshot_off_command_def
  sendCommand_def command_if_def stop_camera_features_def add_video_channels_def
  preparePreview_def unpreparePreview_def startPreview_def stopPreview_def link_metadata_def
  startRecording_def stopRecording_def longShot_def needAdjustFPS_def takePicture_zsl_def
  open_capture_def start_capture_def takePicture_capture_def takePicture_raw_def takePicture_def
  setPreviewWindow_def reply_rc_def reply_flag_def hwi_penv_def no_reply_def new_device_def

end
