(* ===== verification/StateHoare.thy ===== *)
theory StateHoare
  imports CamPrelude
begin

text \<open>
  Hoare triples for programs in the state monad, for the components whose code is written in it:
  \<open>hoare P m Q\<close> says that from a state with \<open>P\<close> the program returns a value and a state with \<open>Q\<close>,
  and \<open>keeps I m\<close> that it keeps the invariant \<open>I\<close>. The rules are stated so that \<open>rule\<close> and \<open>intro\<close>
  follow the program.
\<close>

named_theorems keeps

definition hoare :: "('s \<Rightarrow> bool) \<Rightarrow> ('s, 'a) state \<Rightarrow> ('a \<Rightarrow> 's \<Rightarrow> bool) \<Rightarrow> bool" where
  "hoare P m Q \<longleftrightarrow> (\<forall>s. P s \<longrightarrow> Q (fst (run_state m s)) (snd (run_state m s)))"

abbreviation keeps :: "('s \<Rightarrow> bool) \<Rightarrow> ('s, 'a) state \<Rightarrow> bool" where
  "keeps I m \<equiv> hoare I m (\<lambda>_. I)"

lemma hoareI: "(\<And>s a s'. P s \<Longrightarrow> run_state m s = (a, s') \<Longrightarrow> Q a s') \<Longrightarrow> hoare P m Q"
  by (simp add: hoare_def prod_eq_iff)

lemma hoareD: "hoare P m Q \<Longrightarrow> P s \<Longrightarrow> run_state m s = (a, s') \<Longrightarrow> Q a s'"
  unfolding hoare_def by (metis fst_conv snd_conv)

lemma hoare_bind:
  assumes "hoare P m R" and "\<And>a. hoare (R a) (f a) Q"
  shows "hoare P (State_Monad.bind m f) Q"
  using assms by (auto simp: hoare_def State_Monad.bind_def split: prod.splits)

lemma hoare_return: "hoare (Q a) (State_Monad.return a) Q"
  by (simp add: hoare_def State_Monad.return_def)

lemma hoare_conseq: "hoare P m Q \<Longrightarrow> (\<And>s. P' s \<Longrightarrow> P s) \<Longrightarrow> (\<And>a s. Q a s \<Longrightarrow> Q' a s) \<Longrightarrow> hoare P' m Q'"
  by (simp add: hoare_def)

lemma hoare_post: "hoare P m Q \<Longrightarrow> (\<And>a s. Q a s \<Longrightarrow> Q' a s) \<Longrightarrow> hoare P m Q'"
  by (simp add: hoare_def)

lemma hoare_pre: "hoare P m Q \<Longrightarrow> (\<And>s. P' s \<Longrightarrow> P s) \<Longrightarrow> hoare P' m Q"
  by (simp add: hoare_def)

lemma hoare_if: "(b \<Longrightarrow> hoare P m Q) \<Longrightarrow> (\<not> b \<Longrightarrow> hoare P n Q) \<Longrightarrow> hoare P (if b then m else n) Q"
  by simp

lemma hoare_option:
  "(x = None \<Longrightarrow> hoare P m Q) \<Longrightarrow> (\<And>c. x = Some c \<Longrightarrow> hoare P (f c) Q) \<Longrightarrow>
   hoare P (case x of None \<Rightarrow> m | Some c \<Rightarrow> f c) Q"
  by (cases x) simp_all

lemma keeps_bind [keeps]:
  "keeps I m \<Longrightarrow> (\<And>a. keeps I (f a)) \<Longrightarrow> keeps I (State_Monad.bind m f)"
  by (rule hoare_bind)

lemma keeps_return [keeps]: "keeps I (State_Monad.return a)"
  by (rule hoare_return)

lemma keeps_only_if [keeps]: "keeps I m \<Longrightarrow> keeps I (only_if b m)"
  using keeps_return [of I "()"] by (simp add: only_if_def)

lemmas keeps_if [keeps] = hoare_if [where Q = "\<lambda>_. P" and P = P for P]
lemmas keeps_option [keeps] = hoare_option [where Q = "\<lambda>_. P" and P = P for P]

lemma hoare_ex: "(\<And>x. hoare (P x) m Q) \<Longrightarrow> hoare (\<lambda>s. \<exists>x. P x s) m Q"
  by (auto simp: hoare_def)

lemma hoare_fact: "(A \<Longrightarrow> hoare P m Q) \<Longrightarrow> hoare (\<lambda>s. A \<and> P s) m Q"
  by (auto simp: hoare_def)

end
