(* ===== verification/HwiInv.thy ===== *)
theory HwiInv
  imports HwiDevice StateHoare
begin

text \<open>
  Ownership of the channel objects: every object that has been created and not deleted is in the
  channel table, once, and no object is deleted twice. One lemma per operation of the device says
  what it does to the table; \<open>sound\<close> is the invariant they all keep.
\<close>

section \<open>Ownership\<close>

definition one_each :: "('k \<Rightarrow> nat option) \<Rightarrow> bool" where
  "one_each M \<longleftrightarrow> inj_on M (dom M)"

text \<open>
  \<open>holds M X\<close>: the channel table is \<open>M\<close>, and the live objects are those of the table and, apart from
  them, those of \<open>X\<close> (an object a function has created and not yet put in the table).
\<close>

definition holds :: "(qcamera_ch_type_enum_t \<Rightarrow> nat option) \<Rightarrow> nat set \<Rightarrow> 'b hwi_dev \<Rightarrow> bool" where
  "holds M X d \<longleftrightarrow> m_channels d = M \<and> \<not> double_delete d \<and> distinct (live d)
     \<and> set (live d) = ran M \<union> X \<and> ran M \<inter> X = {} \<and> one_each M
     \<and> (\<forall>c \<in> set (live d). c < next_channel d)"

definition sound :: "'b hwi_dev \<Rightarrow> bool" where
  "sound d \<longleftrightarrow> holds (m_channels d) {} d"

lemma holds_sound: "holds M {} d \<Longrightarrow> sound d"
  by (auto simp: holds_def sound_def)

lemma soundE: "sound d \<Longrightarrow> (\<And>M. holds M {} d \<Longrightarrow> m_channels d = M \<Longrightarrow> R) \<Longrightarrow> R"
  by (auto simp: sound_def)

lemma ran_remove:
  assumes "one_each M" and "M ch = Some c"
  shows "ran (M(ch := None)) = ran M - {c}"
proof -
  have only: "M x = Some c \<longleftrightarrow> x = ch" for x
    using assms inj_onD [of M "dom M" x ch] by (auto simp: one_each_def)
  show ?thesis
    using assms(2) by (auto simp: ran_def only split: if_splits) (use assms(2) in \<open>metis option.inject\<close>)
qed

lemma one_each_remove: "one_each M \<Longrightarrow> one_each (M(ch := None))"
  by (auto simp: one_each_def inj_on_def)

lemma one_each_insert:
  assumes "one_each M" "c \<notin> ran M"
  shows "one_each (M(ch \<mapsto> c))"
proof -
  have fresh: "M x \<noteq> Some c" for x
    using assms(2) by (auto simp: ran_def)
  show ?thesis
    unfolding one_each_def
  proof (rule inj_onI)
    fix x y assume "x \<in> dom (M(ch \<mapsto> c))" "y \<in> dom (M(ch \<mapsto> c))"
      "(M(ch \<mapsto> c)) x = (M(ch \<mapsto> c)) y"
    with assms(1) fresh [of x] fresh [of y] show "x = y"
      by (cases "x = ch"; cases "y = ch") (auto simp: one_each_def inj_on_def)
  qed
qed

section \<open>The operations on objects\<close>

lemma hoare_modify: "hoare (\<lambda>d. Q () (f d)) (modify f) Q"
  by (simp add: hoare_def modify_def)

lemma hoare_gets: "hoare (\<lambda>d. Q (f d) d) (gets f) Q"
  by (simp add: hoare_def gets_def)

lemma holds_backend [simp]: "holds M X (d\<lparr>backend := b\<rparr>) = holds M X d"
  by (simp add: holds_def)

lemma sound_backend [simp]: "sound (d\<lparr>backend := b\<rparr>) = sound d"
  by (simp add: sound_def holds_def)

text \<open>An invariant that does not speak of the backend is kept by every call of the backend.\<close>

lemma keeps_xcall:
  assumes "\<And>d b. I (d\<lparr>backend := b\<rparr>) = I d"
  shows "keeps I (xcall B c)" "keeps I (xcall_rc B c)" "keeps I (xcall_do B c)"
    "keeps I (query B q)" "keeps I (and_query b B q)"
proof -
  show x: "keeps I (xcall B c)" for c
    using assms by (auto simp: hoare_def xcall_def split: prod.splits)
  show "keeps I (xcall_rc B c)" "keeps I (xcall_do B c)" and q: "keeps I (query B q)"
    unfolding xcall_rc_def xcall_do_def query_def by (intro keeps x)+
  show "keeps I (and_query b B q)"
    unfolding and_query_def by (intro keeps q)
qed

lemmas holds_xcall = keeps_xcall [where I = "holds M X" for M X, OF holds_backend]
lemmas sound_xcall [keeps] = keeps_xcall [where I = sound, OF sound_backend]

lemma keeps_gets [keeps]: "keeps I (gets f)"
  by (simp add: hoare_def gets_def)

lemma new_object_holds:
  "hoare (holds M {}) (new_object B ch)
     (\<lambda>r d. case r of None \<Rightarrow> holds M {} d | Some c \<Rightarrow> holds M {c} d)"
proof -
  have new: "hoare (holds M {}) (State (\<lambda>d. (Some (next_channel d),
       d\<lparr>live := next_channel d # live d, next_channel := next_channel d + 1\<rparr>)))
     (\<lambda>r d. case r of None \<Rightarrow> holds M {} d | Some c \<Rightarrow> holds M {c} d)"
    by (fastforce simp: hoare_def holds_def)
  show ?thesis
    unfolding new_object_def
    by (intro hoare_bind [OF holds_xcall(1)] hoare_if new) (simp add: hoare_def State_Monad.return_def)
qed

lemma delete_object_holds: "hoare (holds M {c}) (delete_object c) (\<lambda>_. holds M {})"
  unfolding delete_object_def
  by (rule hoare_pre [OF hoare_modify]) (auto simp: holds_def distinct_remove1)

lemma drop_object_holds:
  assumes "M ch = Some c"
  shows "hoare (holds M {}) (do { delete_object c; clear_channel ch }) (\<lambda>_. holds (M(ch := None)) {})"
proof -
  have "hoare (holds M {}) (delete_object c) (\<lambda>_ d. holds (M(ch := None)) {} (d\<lparr>m_channels := (m_channels d)(ch := None)\<rparr>))"
    unfolding delete_object_def using assms
    by (intro hoare_pre [OF hoare_modify])
      (auto simp: holds_def ran_remove one_each_remove ranI intro: bexI)
  then show ?thesis
    unfolding clear_channel_def by (rule hoare_bind) (rule hoare_modify)
qed

lemma drop_channel_holds: "hoare (holds M {}) (drop_channel ch) (\<lambda>_. holds (M(ch := None)) {})"
proof (cases "M ch")
  case None
  then have "M(ch := None) = M" by auto
  with None show ?thesis
    by (auto simp: hoare_def drop_channel_def gets_def holds_def State_Monad.bind_def State_Monad.return_def)
next
  case (Some c)
  with drop_object_holds [of M ch c] show ?thesis
    by (auto simp: hoare_def drop_channel_def gets_def holds_def State_Monad.bind_def)
qed

lemma delChannel_holds:
  "hoare (holds M {}) (delChannel B ch True) (\<lambda>rc d. rc = NO_ERROR \<and> holds (M(ch := None)) {} d)"
proof -
  have "delChannel B ch True = do { drop_channel ch; State_Monad.return NO_ERROR }"
    by (simp add: delChannel_def drop_channel_def bind_assoc cong: option.case_cong)
  then show ?thesis
    by (auto intro!: hoare_bind [OF drop_channel_holds] hoare_pre [OF hoare_return])
qed

lemma install_channel_holds:
  assumes "M ch = None"
  shows "hoare (holds M {c}) (install_channel ch c)
    (\<lambda>rc d. rc = NO_ERROR \<and> holds (M(ch \<mapsto> c)) {} d)"
  using assms
  by (auto simp: hoare_def install_channel_def modify_def State_Monad.bind_def State_Monad.return_def
      holds_def ran_map_upd one_each_insert)

section \<open>Adding a channel\<close>

text \<open>What adding the channel \<open>ch\<close> to the table \<open>M\<close> leaves: a new object, or nothing at all.\<close>

definition added :: "(qcamera_ch_type_enum_t \<Rightarrow> nat option) \<Rightarrow> qcamera_ch_type_enum_t
    \<Rightarrow> int32 \<Rightarrow> 'b hwi_dev \<Rightarrow> bool" where
  "added M ch rc d \<longleftrightarrow> (if rc = NO_ERROR then \<exists>c. holds (M(ch \<mapsto> c)) {} d else holds M {} d)"

lemma install_added: "M ch = None \<Longrightarrow> hoare (holds M {c}) (install_channel ch c) (added M ch)"
  by (rule hoare_post [OF install_channel_holds]) (auto simp: added_def)

lemma delete_added:
  "rc \<noteq> NO_ERROR \<Longrightarrow>
   hoare (holds M {c}) (do { delete_object c; State_Monad.return rc }) (added M ch)"
  by (rule hoare_bind [OF delete_object_holds]) (simp add: hoare_def State_Monad.return_def added_def)

lemma with_stream_added:
  "hoare (holds M {c}) k (added M ch) \<Longrightarrow> hoare (holds M {c}) (with_stream B c t cb k) (added M ch)"
  unfolding with_stream_def by (intro hoare_bind [OF holds_xcall(2)] hoare_if delete_added)

lemma with_raw_stream_added:
  "hoare (holds M {c}) k (added M ch) \<Longrightarrow>
   hoare (holds M {c}) (with_raw_stream B c cb k) (added M ch)"
  unfolding with_raw_stream_def
  by (intro hoare_bind [OF holds_xcall(4)] hoare_if with_stream_added)

lemma with_channel_added:
  assumes "\<And>c. keeps (holds M {c}) attr" and "\<And>c. hoare (holds M {c}) (k c) (added M ch)"
  shows "hoare (holds M {}) (with_channel B ch' attr k) (added M ch)"
proof -
  have "hoare (\<lambda>d. case new of None \<Rightarrow> holds M {} d | Some c \<Rightarrow> holds M {c} d)
    (case new of None \<Rightarrow> State_Monad.return NO_MEMORY
      | Some c \<Rightarrow> do {
          a \<leftarrow> attr;
          rc \<leftarrow> xcall_rc B (B_init c a);
          if rc \<noteq> NO_ERROR then do { delete_object c; State_Monad.return rc } else k c }) (added M ch)" for new
  proof (cases new)
    case None
    then show ?thesis by (simp add: hoare_def State_Monad.return_def added_def)
  next
    case (Some c)
    have "hoare (holds M {c}) (do {
          a \<leftarrow> attr;
          rc \<leftarrow> xcall_rc B (B_init c a);
          if rc \<noteq> NO_ERROR then do { delete_object c; State_Monad.return rc } else k c }) (added M ch)"
      by (intro hoare_bind [OF assms(1)] hoare_bind [OF holds_xcall(2)] hoare_if delete_added assms(2))
    with Some show ?thesis by simp
  qed
  then show ?thesis
    unfolding with_channel_def by (intro hoare_bind [OF new_object_holds])
qed

lemmas adding = with_channel_added with_stream_added with_raw_stream_added install_added
  hoare_bind [OF holds_xcall(4)] hoare_bind [OF holds_xcall(3)] hoare_bind [OF keeps_gets]
  keeps_bind keeps_return keeps_gets holds_xcall

lemma addPreviewChannel_added:
  "hoare (holds M {}) (addPreviewChannel B)
     (added (M(QCAMERA_CH_TYPE_PREVIEW := None)) QCAMERA_CH_TYPE_PREVIEW)"
  unfolding addPreviewChannel_def
  by (intro hoare_bind [OF drop_channel_holds] adding) simp_all

lemma addVideoChannel_added:
  "hoare (holds M {}) (addVideoChannel B)
     (added (M(QCAMERA_CH_TYPE_VIDEO := None)) QCAMERA_CH_TYPE_VIDEO)"
  unfolding addVideoChannel_def
  by (intro hoare_bind [OF drop_channel_holds] adding) simp_all

lemma addSnapshotChannel_added:
  "hoare (holds M {}) (addSnapshotChannel B)
     (added (M(QCAMERA_CH_TYPE_SNAPSHOT := None)) QCAMERA_CH_TYPE_SNAPSHOT)"
  unfolding addSnapshotChannel_def
  by (intro hoare_bind [OF drop_channel_holds] adding) simp_all

lemma addRawChannel_added:
  "hoare (holds M {}) (addRawChannel B)
     (added (M(QCAMERA_CH_TYPE_RAW := None)) QCAMERA_CH_TYPE_RAW)"
  unfolding addRawChannel_def
  by (intro hoare_bind [OF drop_channel_holds] adding) simp_all

lemma addZSLChannel_added:
  "hoare (holds M {}) (addZSLChannel B)
     (added (M(QCAMERA_CH_TYPE_ZSL := None, QCAMERA_CH_TYPE_PREVIEW := None)) QCAMERA_CH_TYPE_ZSL)"
  unfolding addZSLChannel_def
  by (intro hoare_bind [OF drop_channel_holds] adding) simp_all

lemma addCaptureChannel_added:
  "hoare (holds M {}) (addCaptureChannel B)
     (added (M(QCAMERA_CH_TYPE_CAPTURE := None)) QCAMERA_CH_TYPE_CAPTURE)"
  unfolding addCaptureChannel_def
  by (intro hoare_bind [OF drop_channel_holds] adding) simp_all

lemma addMetaDataChannel_added:
  "hoare (holds M {}) (addMetaDataChannel B)
     (added (M(QCAMERA_CH_TYPE_METADATA := None)) QCAMERA_CH_TYPE_METADATA)"
  unfolding addMetaDataChannel_def
  by (intro hoare_bind [OF drop_channel_holds] adding) simp_all

section \<open>The channels of the preview\<close>

text \<open>
  The four channels \<^verbatim>\<open>unpreparePreview\<close> deletes. \<open>open_ch S\<close>: of those, exactly \<open>S\<close> are open;
  \<open>at_least S\<close>: those of \<open>S\<close> are.
\<close>

definition preview_types :: "qcamera_ch_type_enum_t set" where
  "preview_types = {QCAMERA_CH_TYPE_ZSL, QCAMERA_CH_TYPE_PREVIEW, QCAMERA_CH_TYPE_VIDEO,
     QCAMERA_CH_TYPE_SNAPSHOT}"

definition open_ch :: "qcamera_ch_type_enum_t set \<Rightarrow> 'b hwi_dev \<Rightarrow> bool" where
  "open_ch S d \<longleftrightarrow> sound d \<and> dom (m_channels d) \<inter> preview_types = S"

definition at_least :: "qcamera_ch_type_enum_t set \<Rightarrow> 'b hwi_dev \<Rightarrow> bool" where
  "at_least S d \<longleftrightarrow> sound d \<and> S \<subseteq> dom (m_channels d)"

lemma sound_at_least: "sound d = at_least {} d"
  by (simp add: at_least_def)

lemma at_least_open:
  "S \<subseteq> preview_types \<Longrightarrow> at_least S d \<longleftrightarrow> (\<exists>S'. open_ch S' d \<and> S \<subseteq> S')"
  by (auto simp: at_least_def open_ch_def)

lemma keeps_at_least:
  assumes "\<And>S. keeps (open_ch S) m" and "S \<subseteq> preview_types"
  shows "keeps (at_least S) m"
  using assms unfolding hoare_def by (auto simp: at_least_open)

lemma holds_open: "holds M {} d \<Longrightarrow> open_ch (dom M \<inter> preview_types) d"
  by (auto simp: open_ch_def holds_def sound_def)

lemma hoare_open:
  assumes "\<And>M. hoare (holds M {}) m (Q M)"
    and "\<And>M a d. dom M \<inter> preview_types = S \<Longrightarrow> Q M a d \<Longrightarrow> R a d"
  shows "hoare (open_ch S) m R"
proof (rule hoareI)
  fix d a d' assume "open_ch S d" "run_state m d = (a, d')"
  then show "R a d'"
    using assms(2) [OF _ hoareD [OF assms(1)]] by (auto simp: open_ch_def sound_def)
qed

lemma hoare_sound:
  assumes "\<And>M. hoare (holds M {}) m (Q M)" and "\<And>M a d. Q M a d \<Longrightarrow> sound d"
  shows "keeps sound m"
  using assms unfolding hoare_def sound_def by blast

lemma open_fields [simp]:
  "open_ch S (d\<lparr>backend := b\<rparr>) = open_ch S d"
  "open_ch S (d\<lparr>mPreviewWindow := w\<rparr>) = open_ch S d"
  "open_ch S (d\<lparr>mCallbacks := cb\<rparr>) = open_ch S d"
  "open_ch S (d\<lparr>mMsgEnabled := m\<rparr>) = open_ch S d"
  "open_ch S (d\<lparr>mStoreMetaDataInFrame := n\<rparr>) = open_ch S d"
  "open_ch S (d\<lparr>mLongshotEnabled := l\<rparr>) = open_ch S d"
  "open_ch S (d\<lparr>mPrepSnapRun := l\<rparr>) = open_ch S d"
  "open_ch S (d\<lparr>mFPSReconfigure := l\<rparr>) = open_ch S d"
  by (simp_all add: open_ch_def sound_def holds_def)

lemmas open_xcall [keeps] = keeps_xcall [where I = "open_ch S" for S, OF open_fields(1)]

lemma open_modify [keeps]: "(\<And>d. open_ch S (f d) = open_ch S d) \<Longrightarrow> keeps (open_ch S) (modify f)"
  by (simp add: hoare_def modify_def)

lemma keeps_prod [keeps]: "(\<And>a b. keeps I (f a b)) \<Longrightarrow> keeps I (case p of (a, b) \<Rightarrow> f a b)"
  by (cases p) simp

lemma open_stop [keeps]: "keeps (open_ch S) (stopChannel B ch)" "keeps (open_ch S) (stop B ch)"
  "keeps (open_ch S) (startChannel B ch)" "keeps (open_ch S) (delChannel B ch False)"
  unfolding stop_def stopChannel_def startChannel_def delChannel_def
  by (intro keeps; simp; intro keeps)+

lemma del_holds: "hoare (holds M {}) (del B ch) (\<lambda>_. holds (M(ch := None)) {})"
  unfolding del_def
  by (intro hoare_bind [OF delChannel_holds] hoare_pre [OF hoare_return]) simp

lemma del_open: "hoare (open_ch S) (del B ch) (\<lambda>_. open_ch (S - {ch}))"
  by (rule hoare_open [OF del_holds], drule holds_open) (auto simp: Int_Diff elim: back_subst)

lemma keeps_del [keeps]:
  "ch \<notin> preview_types \<Longrightarrow> keeps (open_ch S) (del B ch)"
  by (rule hoare_open [OF del_holds], drule holds_open) (auto simp: Int_Diff elim: back_subst)

text \<open>\<open>opened S ch\<close>: after adding \<open>ch\<close> to the open channels \<open>S\<close>.\<close>

definition opened :: "qcamera_ch_type_enum_t set \<Rightarrow> qcamera_ch_type_enum_t \<Rightarrow> int32
    \<Rightarrow> 'b hwi_dev \<Rightarrow> bool" where
  "opened S ch rc d \<longleftrightarrow> open_ch (if rc = NO_ERROR then insert ch S else S) d"

lemma added_opened:
  "added M ch rc d \<Longrightarrow> ch \<in> preview_types \<Longrightarrow> opened (dom M \<inter> preview_types) ch rc d"
  by (auto simp: added_def opened_def split: if_splits dest!: holds_open)

lemma added_other:
  "added M ch rc d \<Longrightarrow> ch \<notin> preview_types \<Longrightarrow> open_ch (dom M \<inter> preview_types) d"
  by (auto simp: added_def split: if_splits dest!: holds_open)

lemmas preview_types_simps = preview_types_def Int_Diff Diff_Int_distrib2

lemma addChannel_open:
  "hoare (open_ch S) (addPreviewChannel B) (opened (S - {QCAMERA_CH_TYPE_PREVIEW}) QCAMERA_CH_TYPE_PREVIEW)"
  "hoare (open_ch S) (addVideoChannel B) (opened (S - {QCAMERA_CH_TYPE_VIDEO}) QCAMERA_CH_TYPE_VIDEO)"
  "hoare (open_ch S) (addSnapshotChannel B)
     (opened (S - {QCAMERA_CH_TYPE_SNAPSHOT}) QCAMERA_CH_TYPE_SNAPSHOT)"
  "hoare (open_ch S) (addZSLChannel B)
     (opened (S - {QCAMERA_CH_TYPE_ZSL, QCAMERA_CH_TYPE_PREVIEW}) QCAMERA_CH_TYPE_ZSL)"
  by (rule hoare_open [OF addPreviewChannel_added] hoare_open [OF addVideoChannel_added]
      hoare_open [OF addSnapshotChannel_added] hoare_open [OF addZSLChannel_added],
      drule added_opened, simp add: preview_types_def, erule back_subst [of "\<lambda>X. opened X _ _ _"],
      auto simp: preview_types_def)+

lemma keeps_addChannel [keeps]:
  "keeps (open_ch S) (addCaptureChannel B)" "keeps (open_ch S) (addRawChannel B)"
  "keeps (open_ch S) (addMetaDataChannel B)"
  by (rule hoare_open [OF addCaptureChannel_added] hoare_open [OF addRawChannel_added]
      hoare_open [OF addMetaDataChannel_added],
      drule added_other, simp add: preview_types_def, erule back_subst [of "\<lambda>X. open_ch X _"],
      auto simp: preview_types_def)+

end
