(* ===== verification/HwiProps.thy ===== *)
theory HwiProps
  imports HwiInv
begin

text \<open>
  What the operations of the device do to its channels: each keeps the open preview channels, or
  changes them as stated; and the claims on the operations themselves.
\<close>

section \<open>Operations that keep the preview channels\<close>

lemma keeps_cancelPicture [keeps]: "keeps (open_ch S) (cancelPicture B)"
  unfolding cancelPicture_def by (intro keeps) (simp_all add: preview_types_def)

lemma keeps_sendCommand [keeps]: "keeps (open_ch S) (sendCommand B c a)"
  unfolding sendCommand_def longshot_on_command_def longshot_off_command_def
  by (intro keeps) simp_all

lemma keeps_stop_camera_features [keeps]: "keeps (open_ch S) (stop_camera_features B)"
  unfolding stop_camera_features_def command_if_def by (intro keeps)

lemma keeps_startPreview [keeps]: "keeps (open_ch S) (startPreview B)"
  unfolding startPreview_def by (intro keeps)

lemma keeps_link_metadata [keeps]: "keeps (open_ch S) (link_metadata B rc)"
  unfolding link_metadata_def by (intro keeps)

lemma keeps_recording_ops [keeps]:
  "keeps (open_ch S) (stopRecording B)" "keeps (open_ch S) (releaseRecordingFrame B p)"
  "keeps (open_ch S) (longShot B)" "keeps (open_ch S) (stopCaptureChannel B destroy)"
  "keeps (open_ch S) (cancelLiveSnapshot B)"
  unfolding stopRecording_def releaseRecordingFrame_def longShot_def stopCaptureChannel_def
    cancelLiveSnapshot_def
  by (intro keeps)+

lemma keeps_takeLiveSnapshot [keeps]: "keeps (open_ch S) (takeLiveSnapshot_internal B)"
  unfolding takeLiveSnapshot_internal_def by (intro keeps)

lemma keeps_takePicture_zsl [keeps]: "keeps (open_ch S) (takePicture_zsl B burst)"
  unfolding takePicture_zsl_def needAdjustFPS_def by (intro keeps) simp

lemma keeps_start_capture [keeps]: "keeps (open_ch S) (start_capture B c)"
  unfolding start_capture_def by (intro keeps) (simp_all add: preview_types_def)

lemma keeps_setters [keeps]:
  "keeps (open_ch S) (enableMsgType m)" "keeps (open_ch S) (disableMsgType m)"
  "keeps (open_ch S) (msgTypeEnabled m)" "keeps (open_ch S) (setPreviewWindow w)"
  "keeps (open_ch S) (setCallBacks cb)" "keeps (open_ch S) (storeMetaDataInBuffers n)"
  "keeps (open_ch S) (dump fd)"
  unfolding enableMsgType_def disableMsgType_def msgTypeEnabled_def setPreviewWindow_def
    setCallBacks_def storeMetaDataInBuffers_def dump_def
  by (intro keeps; simp)+

section \<open>Operations that change them\<close>

lemma takePicture_capture_open:
  "hoare (open_ch S) (takePicture_capture B) (\<lambda>_. open_ch (S - {QCAMERA_CH_TYPE_PREVIEW}))"
proof -
  have "hoare (open_ch S) (open_capture B) (\<lambda>_. open_ch (S - {QCAMERA_CH_TYPE_PREVIEW}))"
    unfolding open_capture_def
    by (intro hoare_bind [OF keeps_gets] hoare_if hoare_bind [OF keeps_addChannel(1)]
        hoare_bind [OF open_stop(2)] hoare_bind [OF del_open] keeps)
  then show ?thesis
    unfolding takePicture_capture_def by (rule hoare_bind) (intro keeps)
qed

lemma takePicture_raw_open:
  "hoare (open_ch S) (takePicture_raw B) (\<lambda>_. open_ch (S - {QCAMERA_CH_TYPE_PREVIEW}))"
  unfolding takePicture_raw_def
  by (rule hoare_bind [OF open_stop(2)], rule hoare_bind [OF del_open], intro keeps)
    (simp_all add: preview_types_def)

text \<open>Some set of preview channels with the property \<open>C\<close> is open.\<close>

definition some_open :: "(qcamera_ch_type_enum_t set \<Rightarrow> bool) \<Rightarrow> 'b hwi_dev \<Rightarrow> bool" where
  "some_open C d \<longleftrightarrow> (\<exists>S. C S \<and> open_ch S d)"

lemma some_openI: "open_ch S d \<Longrightarrow> C S \<Longrightarrow> some_open C d"
  by (auto simp: some_open_def)

lemma hoare_some_open: "(\<And>S. C S \<Longrightarrow> hoare (open_ch S) m Q) \<Longrightarrow> hoare (some_open C) m Q"
  by (auto simp: some_open_def hoare_def)

lemma at_least_some_open:
  "S \<subseteq> preview_types \<Longrightarrow> at_least S = some_open (\<lambda>S'. S \<subseteq> S')"
  by (auto simp: fun_eq_iff some_open_def at_least_open)

lemma open_ch_types: "open_ch S d \<Longrightarrow> S \<subseteq> preview_types"
  by (auto simp: open_ch_def)

lemma keeps_some_open: "(\<And>S. keeps (open_ch S) m) \<Longrightarrow> keeps (some_open C) m"
  by (auto simp: some_open_def hoare_def)

lemma takePicture_open:
  "hoare (open_ch S) (takePicture B) (\<lambda>_. some_open (\<lambda>S'. S - {QCAMERA_CH_TYPE_PREVIEW} \<subseteq> S'))"
  unfolding takePicture_def
  by (intro hoare_bind [OF open_xcall(4)] hoare_bind [OF open_xcall(3)] hoare_if
      hoare_bind [where R = "\<lambda>_. open_ch S"] open_xcall keeps_return
      hoare_post [OF keeps_takePicture_zsl] hoare_post [OF takePicture_capture_open]
      hoare_post [OF takePicture_raw_open])
    (auto elim: some_openI)

lemma unpreparePreview_open: "hoare (open_ch S) (unpreparePreview B) (\<lambda>_. open_ch {})"
proof -
  have "hoare (open_ch S) (unpreparePreview B) (\<lambda>_. open_ch (S - {QCAMERA_CH_TYPE_ZSL}
      - {QCAMERA_CH_TYPE_PREVIEW} - {QCAMERA_CH_TYPE_VIDEO} - {QCAMERA_CH_TYPE_SNAPSHOT}))"
    unfolding unpreparePreview_def by (intro hoare_bind [OF del_open] del_open)
  then show ?thesis
    by (rule hoare_conseq [of "open_ch S" for S])
      (auto simp: open_ch_def preview_types_def)
qed

lemma stopPreview_open: "hoare (open_ch S) (stopPreview B) (\<lambda>_. open_ch {})"
  unfolding stopPreview_def
  by (intro hoare_bind [OF open_stop(2)] hoare_bind [OF unpreparePreview_open] keeps)

text \<open>
  \<open>grown S Xs rc\<close>: on success the channels of one of \<open>Xs\<close> are open, and no others that were not
  open before; on failure no channel is open that was not.
\<close>

definition grown :: "qcamera_ch_type_enum_t set \<Rightarrow> qcamera_ch_type_enum_t set set \<Rightarrow> int32
    \<Rightarrow> 'b hwi_dev \<Rightarrow> bool" where
  "grown S Xs rc = some_open (\<lambda>S'. if rc = NO_ERROR then \<exists>X \<in> Xs. X \<subseteq> S' \<and> S' \<subseteq> X \<union> S else S' \<subseteq> S)"

lemma grownI:
  "open_ch S' d \<Longrightarrow> if rc = NO_ERROR then \<exists>X \<in> Xs. X \<subseteq> S' \<and> S' \<subseteq> X \<union> S else S' \<subseteq> S \<Longrightarrow> grown S Xs rc d"
  unfolding grown_def by (rule some_openI)

lemma hoare_grown:
  assumes "\<And>S' X. rc = NO_ERROR \<Longrightarrow> X \<in> Xs \<Longrightarrow> X \<subseteq> S' \<Longrightarrow> S' \<subseteq> X \<union> S \<Longrightarrow> hoare (open_ch S') m Q"
    and "\<And>S'. rc \<noteq> NO_ERROR \<Longrightarrow> S' \<subseteq> S \<Longrightarrow> hoare (open_ch S') m Q"
  shows "hoare (grown S Xs rc) m Q"
  unfolding grown_def using assms by (intro hoare_some_open) (auto split: if_splits)

lemma opened_grown: "opened (S - D) ch rc d \<Longrightarrow> grown S {{ch}} rc d"
  unfolding opened_def by (erule grownI) auto

lemma return_grown: "hoare (open_ch S) (State_Monad.return NO_ERROR) (grown S {{}})"
  by (rule hoare_pre [OF hoare_return]) (auto elim: grownI)

lemma grown_mono: "grown S Xs rc d \<Longrightarrow> Xs \<subseteq> Ys \<Longrightarrow> grown S Ys rc d"
  unfolding grown_def some_open_def by (cases "rc = NO_ERROR") (simp_all, blast)

lemma add_video_channels_grown:
  "hoare (open_ch S) (add_video_channels B)
     (grown S {{QCAMERA_CH_TYPE_VIDEO}, {QCAMERA_CH_TYPE_VIDEO, QCAMERA_CH_TYPE_SNAPSHOT}})"
  (is "hoare _ _ ?Q")
proof -
  let ?snap = "\<lambda>low large. if \<not> large \<and> \<not> low then addChannel B QCAMERA_CH_TYPE_SNAPSHOT
     else State_Monad.return NO_ERROR"
  have snap: "hoare (open_ch S) (?snap low large) (grown S {{}, {QCAMERA_CH_TYPE_SNAPSHOT}})" for low large
    unfolding addChannel.simps
    by (intro hoare_if hoare_post [OF addChannel_open(3)] hoare_post [OF return_grown])
      (auto dest: opened_grown elim: grown_mono)
  have video: "hoare (open_ch S') (do {
       rc \<leftarrow> addChannel B QCAMERA_CH_TYPE_VIDEO;
       only_if (rc \<noteq> NO_ERROR) (del B QCAMERA_CH_TYPE_SNAPSHOT);
       State_Monad.return rc }) ?Q"
    if S': "X \<in> {{}, {QCAMERA_CH_TYPE_SNAPSHOT}}" "X \<subseteq> S'" "S' \<subseteq> X \<union> S" for X S'
  proof -
    have "hoare (opened (S' - {QCAMERA_CH_TYPE_VIDEO}) QCAMERA_CH_TYPE_VIDEO rc)
      (do { only_if (rc \<noteq> NO_ERROR) (del B QCAMERA_CH_TYPE_SNAPSHOT); State_Monad.return rc }) ?Q" for rc
    proof (cases "rc = NO_ERROR")
      case True
      with S' show ?thesis
        by (simp add: only_if_def opened_def [abs_def])
          (intro hoare_pre [OF hoare_return], erule grownI, auto)
    next
      case False
      with S' show ?thesis
        by (simp add: only_if_def opened_def [abs_def])
          (intro hoare_bind [OF del_open] hoare_pre [OF hoare_return], erule grownI, auto)
    qed
    then show ?thesis
      unfolding addChannel.simps by (intro hoare_bind [OF addChannel_open(2)])
  qed
  show ?thesis
    unfolding add_video_channels_def
    by (intro hoare_bind [OF open_xcall(4)] hoare_bind [OF open_xcall(5)] hoare_bind [OF snap]
        hoare_grown hoare_if video hoare_pre [OF hoare_return])
      (auto elim: grownI)
qed

text \<open>The sets of channels a preview runs on, by mode.\<close>

definition preview_sets :: "qcamera_ch_type_enum_t set set" where
  "preview_sets = {{QCAMERA_CH_TYPE_ZSL}, {QCAMERA_CH_TYPE_PREVIEW},
     {QCAMERA_CH_TYPE_PREVIEW, QCAMERA_CH_TYPE_VIDEO},
     {QCAMERA_CH_TYPE_PREVIEW, QCAMERA_CH_TYPE_VIDEO, QCAMERA_CH_TYPE_SNAPSHOT}}"

definition video_sets :: "bool \<Rightarrow> qcamera_ch_type_enum_t set set" where
  "video_sets hint = (if hint then {{QCAMERA_CH_TYPE_VIDEO}, {QCAMERA_CH_TYPE_VIDEO, QCAMERA_CH_TYPE_SNAPSHOT}}
     else {{}})"

lemma preview_last_grown:
  assumes "X \<in> video_sets recordingHint" "X \<subseteq> S'" "S' \<subseteq> X \<union> S"
  shows "hoare (open_ch S') (do {
         rc \<leftarrow> addChannel B QCAMERA_CH_TYPE_PREVIEW;
         if rc \<noteq> NO_ERROR then do {
           only_if recordingHint (do { del B QCAMERA_CH_TYPE_SNAPSHOT; del B QCAMERA_CH_TYPE_VIDEO });
           State_Monad.return rc }
         else do {
           only_if (\<not> recordingHint) (xcall_do B (B_waitDefferedWork Job_metadata));
           State_Monad.return rc } }) (grown S preview_sets)"
proof -
  have undo: "hoare (open_ch T) (only_if recordingHint
      (do { del B QCAMERA_CH_TYPE_SNAPSHOT; del B QCAMERA_CH_TYPE_VIDEO }))
    (\<lambda>_. open_ch (if recordingHint then T - {QCAMERA_CH_TYPE_SNAPSHOT} - {QCAMERA_CH_TYPE_VIDEO} else T))" for T
    by (cases recordingHint)
      (simp_all add: only_if_def keeps_return hoare_bind [OF del_open del_open])
  have wait: "keeps (open_ch T) (only_if (\<not> recordingHint) (xcall_do B (B_waitDefferedWork Job_metadata)))" for T
    by (intro keeps)
  have "hoare (opened (S' - {QCAMERA_CH_TYPE_PREVIEW}) QCAMERA_CH_TYPE_PREVIEW rc)
     (if rc \<noteq> NO_ERROR then do {
           only_if recordingHint (do { del B QCAMERA_CH_TYPE_SNAPSHOT; del B QCAMERA_CH_TYPE_VIDEO });
           State_Monad.return rc }
         else do {
           only_if (\<not> recordingHint) (xcall_do B (B_waitDefferedWork Job_metadata));
           State_Monad.return rc }) (grown S preview_sets)" for rc
  proof (cases "rc = NO_ERROR")
    case True
    with assms show ?thesis
      by (simp add: opened_def [abs_def])
        (rule hoare_bind [OF wait], rule hoare_pre [OF hoare_return], erule grownI,
          auto simp: preview_sets_def video_sets_def split: if_splits)
  next
    case False
    with assms show ?thesis
      by (simp add: opened_def [abs_def])
        (rule hoare_bind [OF undo], rule hoare_pre [OF hoare_return], erule grownI,
          auto simp: preview_sets_def video_sets_def split: if_splits)
  qed
  then show ?thesis
    unfolding addChannel.simps by (intro hoare_bind [OF addChannel_open(1)])
qed

lemma preparePreview_grown:
  "hoare (open_ch S) (preparePreview B) (grown S preview_sets)"
proof -
  have zsl: "hoare (open_ch S) (addChannel B QCAMERA_CH_TYPE_ZSL) (grown S preview_sets)"
    unfolding addChannel.simps
    by (rule hoare_post [OF addChannel_open(4)])
      (auto dest!: opened_grown elim!: grown_mono simp: preview_sets_def)
  have video: "hoare (open_ch S) (if recordingHint then add_video_channels B else State_Monad.return NO_ERROR)
    (grown S (video_sets recordingHint))" for recordingHint
    by (auto simp: video_sets_def intro: add_video_channels_grown return_grown)
  have features: "keeps (open_ch S) (only_if recordingHint (stop_camera_features B))" for recordingHint
    by (intro keeps)
  show ?thesis
    unfolding preparePreview_def
    by (intro hoare_bind [OF open_xcall(4)] hoare_bind [OF open_xcall(5)] hoare_if zsl
        hoare_bind [OF features] hoare_bind [OF video] hoare_grown preview_last_grown
        hoare_pre [OF hoare_return])
      (auto elim: grownI)
qed

section \<open>What a successful start means\<close>

lemma startChannel_open:
  "hoare (open_ch S) (startChannel B ch)
     (\<lambda>rc d. open_ch S d \<and> (rc = NO_ERROR \<longrightarrow> m_channels d ch \<noteq> None))"
  by (auto simp: hoare_def startChannel_def gets_def xcall_rc_def xcall_def State_Monad.bind_def
      State_Monad.return_def split: prod.splits option.splits)

lemma startPreview_open:
  "hoare (open_ch S) (startPreview B) (\<lambda>rc. some_open (\<lambda>S'. S' = S
     \<and> (rc = NO_ERROR \<longrightarrow> QCAMERA_CH_TYPE_ZSL \<in> S \<or> QCAMERA_CH_TYPE_PREVIEW \<in> S)))"
  (is "hoare _ _ ?Q")
proof -
  have zsl: "hoare (open_ch S) (startChannel B QCAMERA_CH_TYPE_ZSL) ?Q"
    by (rule hoare_post [OF startChannel_open])
      (auto simp: some_open_def open_ch_def preview_types_def)
  have preview: "hoare (open_ch S) (startChannel B QCAMERA_CH_TYPE_PREVIEW) ?Q"
    by (rule hoare_post [OF startChannel_open])
      (auto simp: some_open_def open_ch_def preview_types_def)
  have rest: "hoare (?Q rc) (do {
       caf \<leftarrow> query B Q_isContinuousPictureFocus;
       only_if caf (xcall_do B B_cancelAutoFocus);
       State_Monad.return rc }) ?Q" for rc
    by (rule hoare_bind [where R = "\<lambda>_. ?Q rc"], rule keeps_some_open, intro keeps,
        rule hoare_bind [where R = "\<lambda>_. ?Q rc"], rule keeps_some_open, intro keeps, rule hoare_return)
  show ?thesis
    unfolding startPreview_def
    by (intro hoare_bind [OF open_xcall(3)] hoare_bind [OF open_xcall(4)]
        hoare_bind [OF open_xcall(5)] hoare_if zsl hoare_bind [OF preview] rest)
qed

abbreviation sound_open :: "'b hwi_dev \<Rightarrow> bool" where
  "sound_open \<equiv> some_open (\<lambda>_. True)"

lemma sound_open: "sound d = sound_open d"
  by (auto simp: some_open_def open_ch_def)

lemma hoare_sound_open: "(\<And>S. hoare (open_ch S) m Q) \<Longrightarrow> hoare sound_open m Q"
  by (rule hoare_some_open)

lemma startRecording_open:
  "hoare (open_ch S) (startRecording B)
     (\<lambda>rc. some_open (\<lambda>S'. rc = NO_ERROR \<longrightarrow> QCAMERA_CH_TYPE_VIDEO \<in> S'))"
  (is "hoare _ _ ?Q")
proof -
  have restart: "hoare (open_ch S) (if \<not> hint then do {
              _ \<leftarrow> stopPreview B;
              xcall_do B (B_updateRecordingHintValue True);
              rc \<leftarrow> preparePreview B;
              if rc = NO_ERROR then startChannel B QCAMERA_CH_TYPE_PREVIEW else State_Monad.return rc }
            else State_Monad.return NO_ERROR) (\<lambda>_. sound_open)" for hint
    by (intro hoare_if hoare_bind [OF stopPreview_open] hoare_bind [OF open_xcall(3)]
        hoare_bind [OF preparePreview_grown] hoare_grown hoare_post [OF open_stop(3)]
        hoare_pre [OF hoare_return])
      (auto simp: some_open_def)
  have link: "hoare sound_open (if low then link_metadata B rc else State_Monad.return rc)
    (\<lambda>_. sound_open)" for low rc
    by (rule keeps_some_open) (intro keeps)
  have start: "hoare sound_open (startChannel B QCAMERA_CH_TYPE_VIDEO) ?Q"
    by (intro hoare_some_open hoare_post [OF startChannel_open])
      (auto simp: some_open_def open_ch_def preview_types_def)
  have query: "keeps sound_open (query B Q_isLowPowerEnabled)"
    by (rule keeps_some_open) (intro keeps)
  show ?thesis
    unfolding startRecording_def
    by (intro hoare_bind [OF open_xcall(4)] hoare_bind [OF restart] hoare_bind [OF query]
        hoare_bind [OF link] hoare_if start hoare_pre [OF hoare_return])
      (auto simp: some_open_def)
qed

section \<open>Release\<close>

lemma release_channels_holds:
  "hoare (holds M {}) (release_channels B chs) (\<lambda>_. holds (M |` (- set chs)) {})"
proof (induction chs arbitrary: M)
  case Nil
  then show ?case by (simp add: keeps_return)
next
  case (Cons ch chs)
  have stop: "keeps (holds M {}) (stop B ch)"
    unfolding stop_def stopChannel_def
    by (intro keeps holds_xcall)
  have del: "hoare (holds M {}) (only_if (c \<noteq> None) (do { stop B ch; del B ch }))
    (\<lambda>_. holds (M(ch := None)) {})" if "c = M ch" for c
  proof (cases c)
    case None
    then have "M(ch := None) = M" using that by auto
    then show ?thesis using None by (simp add: only_if_def keeps_return)
  next
    case (Some x)
    then show ?thesis
      by (simp add: only_if_def) (rule hoare_bind [OF stop del_holds])
  qed
  have eq: "(M(ch := None)) |` (- set chs) = M |` (- set (ch # chs))"
    by (auto simp: restrict_map_def fun_eq_iff)
  have rest: "hoare (holds (M(ch := None)) {}) (release_channels B chs)
    (\<lambda>_. holds (M |` (- set (ch # chs))) {})"
    unfolding eq [symmetric] by (rule Cons)
  have gets: "hoare (holds M {}) (gets (\<lambda>d. m_channels d ch)) (\<lambda>c d. c = M ch \<and> holds M {} d)"
    by (simp add: hoare_def gets_def holds_def)
  show ?case
    unfolding release_channels.simps
    by (rule hoare_bind [OF gets], rule hoare_fact, rule hoare_bind [OF del rest])
qed

lemma release_holds: "hoare (holds M {}) (release B) (\<lambda>rc d. rc = NO_ERROR \<and> holds Map.empty {} d)"
proof -
  have "M |` (- set all_channel_types) = Map.empty"
  proof
    fix ch show "(M |` (- set all_channel_types)) ch = Map.empty ch"
      by (cases ch) (simp_all add: all_channel_types_def)
  qed
  with release_channels_holds [of M B all_channel_types]
  have "hoare (holds M {}) (release_channels B all_channel_types) (\<lambda>_. holds Map.empty {})" by simp
  then show ?thesis
    unfolding release_def by (rule hoare_bind) (rule hoare_pre [OF hoare_return], simp)
qed

end
