(* ===== verification/SmParent.thy ===== *)
theory SmParent
  imports SmRuns StateHoare
begin

text \<open>
  The machine and its parent. The history of a run replays on the parent: the machine changes its
  parent only by the calls it records. From this, two interfaces a parent can provide to the
  machine, \<open>camera_parent\<close> (every call keeps an invariant) and \<open>recording_parent\<close> (recording needs a
  resource that only some calls take away), and what every run of the machine makes of them.
\<close>

section \<open>The history replays\<close>

fun replay :: "'h penv \<Rightarrow> (pcall \<times> reply) list \<Rightarrow> 'h \<Rightarrow> 'h option" where
  "replay E [] h = Some h"
| "replay E ((c, r) # xs) h =
     (case p_call E c h of (r', h') \<Rightarrow> if r' = r then replay E xs h' else None)"

lemma replay_append: "replay E (xs @ ys) h = Option.bind (replay E xs h) (replay E ys)"
  by (induction E xs h rule: replay.induct) (auto split: prod.splits)

definition since :: "'h penv \<Rightarrow> 'h sm \<Rightarrow> 'h sm \<Rightarrow> bool" where
  "since E s0 s \<longleftrightarrow>
     (\<exists>new. hist s = hist s0 @ new \<and> replay E new (m_parent s0) = Some (m_parent s))"

lemma since_refl: "since E s s"
  by (simp add: since_def)

lemma keeps_parent [keeps]: "keeps (since E s0) (parent E c)"
  by (auto simp: hoare_def since_def replay_append split: prod.splits)

lemma keeps_set_m_state [keeps]: "keeps (since E s0) (set_m_state q)"
  by (auto simp: hoare_def since_def)

lemma keeps_calls [keeps]:
  "keeps (since E s0) (call E c)" "keeps (since E s0) (call_rc E c)"
  "keeps (since E s0) (call_flag E c)" "keeps (since E s0) (call_addr E c)"
  unfolding call_def call_rc_def call_flag_def call_addr_def by (intro keeps)+

lemma keeps_statements [keeps]:
  "keeps (since E s0) (signal_def E evt rc)" "keeps (since E s0) (signal_evt E evt rc)"
  "keeps (since E s0) (signal_enabled E evt v)" "keeps (since E s0) (prepare_and_start E)"
  "keeps (since E s0) (notify_server_died E)"
  unfolding sm_body by (intro keeps)+

lemma keeps_case_bodies [keeps]:
  "keeps (since E s0) (call_and_signal E evt c)" "keeps (since E s0) (do_msgTypeEnabled E n)"
  "keeps (since E s0) (do_getParameters E)" "keeps (since E s0) (do_registerFaceImage E p)"
  "keeps (since E s0) (do_sendCommand E cm)" "keeps (since E s0) (invalid_operation E evt)"
  unfolding sm_body by (intro keeps)+

lemma keeps_internal [keeps]:
  "keeps (since E s0) (previewing_internal E i)"
  "keeps (since E s0) (prepareSnapshot_internal E i)"
  "keeps (since E s0) (picTaking_internal E i)"
  by (cases i; simp; intro keeps)+

lemma keeps_helpers [keeps]:
  "keeps (since E s0) (reprocess_stage_done E)" "keeps (since E s0) (notify_capture E t)"
  "keeps (since E s0) (longShot_or_invalid E)" "keeps (since E s0) (sendCommand_longshot_off E cm)"
  "keeps (since E s0) (zsl_or_longshot E)" "keeps (since E s0) (setParams_no_restart E p)"
  "keeps (since E s0) (previewPicTaking_cancel E)"
  unfolding reprocess_stage_done_def notify_capture_def longShot_or_invalid_def
    sendCommand_longshot_off_def zsl_or_longshot_def setParams_no_restart_def
    previewPicTaking_cancel_def
  by (intro keeps)+

lemma keeps_previewing_helpers [keeps]:
  "keeps (since E s0) (previewing_takePicture E)" "keeps (since E s0) (previewing_sendCommand E cm)"
  "keeps (since E s0) (setParams_with_restart E q p)"
  unfolding previewing_takePicture_def previewing_sendCommand_def setParams_with_restart_def
  by (intro keeps)+

lemma keeps_stopped: "keeps (since E s0) (procEvtPreviewStoppedState E e)"
  by (cases e; simp; intro keeps)

lemma keeps_ready: "keeps (since E s0) (procEvtPreviewReadyState E e)"
  by (cases e; simp; intro keeps)

lemma keeps_previewing: "keeps (since E s0) (procEvtPreviewingState E e)"
  by (cases e; simp; intro keeps)

lemma keeps_prepareSnapshot: "keeps (since E s0) (procEvtPrepareSnapshotState E e)"
  unfolding procEvtPrepareSnapshotState_def
  by (cases e; simp; intro keeps)

lemma keeps_picTaking: "keeps (since E s0) (procEvtPicTakingState E e)"
  by (cases e; simp; intro keeps)

lemma keeps_recording: "keeps (since E s0) (procEvtRecordingState E e)"
  by (cases e; simp; intro keeps)

lemma keeps_videoPicTaking: "keeps (since E s0) (procEvtVideoPicTakingState E e)"
  by (cases e; simp; intro keeps)

lemma keeps_previewPicTaking: "keeps (since E s0) (procEvtPreviewPicTakingState E e)"
  by (cases e; simp; intro keeps)

lemmas keeps_handlers = keeps_stopped keeps_ready keeps_previewing keeps_prepareSnapshot
  keeps_picTaking keeps_recording keeps_videoPicTaking keeps_previewPicTaking

lemma since_step: "since E s (sm_step E e s)"
proof -
  have "since E s (snd (run_state (stateMachine E e) s))"
    unfolding run_state_stateMachine
    using keeps_handlers [of E s e, unfolded hoare_def] since_refl [of E s]
    by (cases "m_state s") simp_all
  then show ?thesis by (simp add: sm_step_def)
qed

lemma replay_step:
  "replay E (new_calls s (sm_step E e s)) (m_parent s) = Some (m_parent (sm_step E e s))"
  using since_step [of E s e] by (auto simp: since_def new_calls_def)

section \<open>A parent with an invariant\<close>

locale camera_parent =
  fixes E :: "'h penv" and I :: "'h \<Rightarrow> bool"
  assumes call_keeps: "I h \<Longrightarrow> p_call E c h = (r, h') \<Longrightarrow> I h'"
begin

lemma replay_keeps: "I h \<Longrightarrow> replay E xs h = Some h' \<Longrightarrow> I h'"
proof (induction xs arbitrary: h)
  case (Cons x xs)
  obtain c r h1 where "x = (c, r)" "p_call E c h = (r, h1)" "replay E xs h1 = Some h'"
    using Cons.prems(2) by (cases x) (auto split: prod.splits if_splits)
  with Cons call_keeps show ?case by blast
qed simp

lemma step_keeps: "I (m_parent s) \<Longrightarrow> I (m_parent (sm_step E e s))"
  by (rule replay_keeps [OF _ replay_step])

lemma run_keeps: "I (m_parent s) \<Longrightarrow> I (m_parent (sm_run E es s))"
  by (induction es arbitrary: s) (simp_all add: step_keeps)

end

section \<open>A parent that records\<close>

text \<open>The calls that may take away what recording runs on.\<close>

fun closes :: "pcall \<Rightarrow> bool" where
  "closes P_preparePreview = True"
| "closes P_unpreparePreview = True"
| "closes P_stopPreview = True"
| "closes P_release = True"
| "closes P_startRecording = True"
| "closes c = False"

text \<open>No such call while recording is on.\<close>

fun undisturbed :: "bool \<Rightarrow> (pcall \<times> reply) list \<Rightarrow> bool" where
  "undisturbed b [] = True"
| "undisturbed b ((c, r) # xs) = ((b \<longrightarrow> \<not> closes c) \<and> undisturbed (recording_on b [(c, r)]) xs)"

lemma undisturbed_off:
  "\<forall>c \<in> fst ` set xs. c \<noteq> P_startRecording \<Longrightarrow> undisturbed False xs"
proof (induction xs)
  case (Cons x xs)
  moreover obtain c r where "x = (c, r)" by (cases x)
  ultimately show ?case by (cases c) auto
qed simp

lemma undisturbed_append [simp]:
  "undisturbed b (xs @ ys) \<longleftrightarrow> undisturbed b xs \<and> undisturbed (recording_on b xs) ys"
proof (induction xs arbitrary: b)
  case (Cons x xs)
  then show ?case
    using recording_on_append [of b "[x]" xs] by (cases x) auto
qed simp

definition mild :: "'h sm \<Rightarrow> 'h sm \<Rightarrow> bool" where
  "mild s s' \<longleftrightarrow> (\<exists>new. hist s' = hist s @ new \<and> undisturbed (recording_state (m_state s)) new)"

lemma internal_mild:
  "run_state (previewing_internal E i) s = (rc, s') \<Longrightarrow> mild s s'"
  "run_state (prepareSnapshot_internal E i) s = (rc, s') \<Longrightarrow> mild s s'"
  "run_state (picTaking_internal E i) s = (rc, s') \<Longrightarrow> mild s s'"
  by (cases i; auto simp: mild_def sm_body split: prod.splits)+

lemmas mild_defs = sm_body api_result_def mild_def

lemma recording_mild:
  assumes "run_state (procEvtRecordingState E e) s = (rc, s')"
    and "m_state s = QCAMERA_SM_STATE_RECORDING"
  shows "mild s s'"
proof (cases "\<exists>i. e = EVT_INTERNAL i")
  case True
  with assms(1) show ?thesis by (auto dest: internal_mild)
next
  case False
  with assms show ?thesis by (cases e) (auto simp: mild_defs split: prod.splits if_splits)
qed

lemma videoPicTaking_mild:
  assumes "run_state (procEvtVideoPicTakingState E e) s = (rc, s')"
    and "m_state s = QCAMERA_SM_STATE_VIDEO_PIC_TAKING"
  shows "mild s s'"
proof (cases "\<exists>i. e = EVT_INTERNAL i")
  case True
  with assms(1) show ?thesis by (auto dest: internal_mild)
next
  case False
  with assms show ?thesis by (cases e) (auto simp: mild_defs split: prod.splits if_splits)
qed

lemma previewing_mild:
  assumes "run_state (procEvtPreviewingState E e) s = (rc, s')"
    and "m_state s = QCAMERA_SM_STATE_PREVIEWING"
  shows "mild s s'"
proof (cases "\<exists>i. e = EVT_INTERNAL i")
  case True
  with assms(1) show ?thesis by (auto dest: internal_mild)
next
  case False
  with assms show ?thesis by (cases e) (auto simp: mild_defs split: prod.splits if_splits)
qed

lemma previewPicTaking_mild:
  assumes "run_state (procEvtPreviewPicTakingState E e) s = (rc, s')"
    and "m_state s = QCAMERA_SM_STATE_PREVIEW_PIC_TAKING"
  shows "mild s s'"
proof (cases "\<exists>i. e = EVT_INTERNAL i")
  case True
  with assms(1) show ?thesis by (auto dest: internal_mild)
next
  case False
  with assms show ?thesis by (cases e) (auto simp: mild_defs split: prod.splits if_splits)
qed

text \<open>In the other states recording is off and is not started.\<close>

lemma step_undisturbed:
  "undisturbed (recording_state (m_state s)) (new_calls s (sm_step E e s))"
proof (cases "permitted (m_state s) P_startRecording \<or> recording_state (m_state s)")
  case True
  have "run_state (stateMachine E e) s = (sm_rc E e s, sm_step E e s)"
    by (simp add: sm_rc_def sm_step_def)
  with True have "mild s (sm_step E e s)"
    unfolding run_state_stateMachine
    by (cases "m_state s")
      (simp_all add: recording_mild videoPicTaking_mild previewing_mild previewPicTaking_mild)
  then show ?thesis by (auto simp: mild_def new_calls_def)
next
  case False
  then have "P_startRecording \<notin> fst ` set (new_calls s (sm_step E e s))"
    using sm_calls [of P_startRecording s E e] by auto
  then have "undisturbed False (new_calls s (sm_step E e s))"
    by (intro undisturbed_off) metis
  with False show ?thesis by simp
qed

locale recording_parent = camera_parent E I for E :: "'h penv" and I +
  fixes V :: "'h \<Rightarrow> bool"
  assumes start_opens:
      "I h \<Longrightarrow> p_call E P_startRecording h = (r, h') \<Longrightarrow> r_rc r = NO_ERROR \<Longrightarrow> V h'"
    and open_stays: "I h \<Longrightarrow> V h \<Longrightarrow> \<not> closes c \<Longrightarrow> p_call E c h = (r, h') \<Longrightarrow> V h'"
begin

lemma call_recording:
  assumes "I h" "b \<Longrightarrow> V h" "b \<longrightarrow> \<not> closes c" "p_call E c h = (r, h')" "recording_on b [(c, r)]"
  shows "V h'"
proof (cases "c = P_startRecording")
  case True
  with assms show ?thesis by (cases b) (auto dest: start_opens)
next
  case False
  with assms have b and "\<not> closes c" by (cases c; simp)+
  with assms show ?thesis by (blast dest: open_stays)
qed

lemma replay_recording:
  "I h \<Longrightarrow> (b \<Longrightarrow> V h) \<Longrightarrow> undisturbed b xs \<Longrightarrow> replay E xs h = Some h' \<Longrightarrow> recording_on b xs \<Longrightarrow> V h'"
proof (induction xs arbitrary: h b)
  case (Cons x xs)
  obtain c r h1 where x: "x = (c, r)" "p_call E c h = (r, h1)" "replay E xs h1 = Some h'"
    using Cons.prems(4) by (cases x) (auto split: prod.splits if_splits)
  have "I h1" using Cons.prems(1) x(2) by (rule call_keeps)
  moreover have "recording_on b [(c, r)] \<Longrightarrow> V h1"
    using Cons.prems x by (intro call_recording [of h b c r h1]) auto
  moreover have "recording_on (recording_on b [(c, r)]) xs"
    using Cons.prems(5) recording_on_append [of b "[(c, r)]" xs] by (simp add: x(1))
  ultimately show ?case
    using Cons.IH [of h1 "recording_on b [(c, r)]"] Cons.prems(3) x by simp
qed simp

lemma run_recording:
  assumes "I (m_parent s)" "recording_state (m_state s) \<Longrightarrow> V (m_parent s)"
    and "recording_state (m_state (sm_run E es s))"
  shows "V (m_parent (sm_run E es s))"
  using assms
proof (induction es arbitrary: s)
  case (Cons e es)
  have "V (m_parent (sm_step E e s))" if "recording_state (m_state (sm_step E e s))"
    using replay_recording [OF Cons.prems(1) Cons.prems(2) step_undisturbed replay_step] that
    by (simp add: sm_recording)
  with Cons step_keeps show ?case by simp
qed simp

end

end
