(* ===== verification/HwiRuns.thy ===== *)
theory HwiRuns
  imports HwiProps SmParent
begin

text \<open>
  The state machine over the device. The device provides the interfaces \<open>camera_parent\<close> (with the
  ownership of the channels as the invariant) and \<open>recording_parent\<close> (with the video channel as
  what recording runs on), so what the machine makes of them holds of every run on the device.
\<close>

section \<open>Every call of the machine\<close>

lemma keeps_reply [keeps]:
  "keeps I m \<Longrightarrow> keeps I (reply_rc m)" "keeps I n \<Longrightarrow> keeps I (reply_flag n)"
  unfolding reply_rc_def reply_flag_def by (intro keeps; assumption)+

lemma keeps_plain_op:
  assumes "\<not> closes c" "c \<noteq> P_takePicture"
  shows "keeps (open_ch S) (hwi_op B c)"
  using assms by (cases c; simp; intro keeps)

lemma hoare_reply:
  "hoare P m (\<lambda>rc. Q (no_reply\<lparr>r_rc := rc\<rparr>)) \<Longrightarrow> hoare P (reply_rc m) Q"
  unfolding reply_rc_def by (erule hoare_bind) (rule hoare_return)

lemma open_ch_some: "open_ch S d \<Longrightarrow> sound_open d"
  by (auto simp: some_open_def)

lemma hwi_op_sound: "hoare (open_ch S) (hwi_op B c) (\<lambda>_. sound_open)"
proof (cases "\<not> closes c \<and> c \<noteq> P_takePicture")
  case True
  then show ?thesis
    by (intro hoare_post [OF keeps_plain_op open_ch_some]) auto
next
  case False
  have sound: "some_open C d \<Longrightarrow> sound_open d" for C d
    by (auto simp: some_open_def)
  have "hoare (open_ch S) (preparePreview B) (\<lambda>_. sound_open)"
    by (rule hoare_post [OF preparePreview_grown]) (auto simp: grown_def intro: sound)
  moreover have "hoare (open_ch S) (stopPreview B) (\<lambda>_. sound_open)"
    by (rule hoare_post [OF stopPreview_open open_ch_some])
  moreover have "hoare (open_ch S) (startRecording B) (\<lambda>_. sound_open)"
    by (rule hoare_post [OF startRecording_open sound])
  moreover have "hoare (open_ch S) (takePicture B) (\<lambda>_. sound_open)"
    by (rule hoare_post [OF takePicture_open sound])
  moreover have "hoare (open_ch S) (unpreparePreview B \<bind> (\<lambda>_. State_Monad.return no_reply)) (\<lambda>_. sound_open)"
    by (intro hoare_bind [OF unpreparePreview_open] hoare_pre [OF hoare_return] open_ch_some)
  moreover have "hoare (open_ch S) (release B) (\<lambda>_. sound_open)"
    by (rule hoare_open [OF release_holds]) (auto dest: holds_open open_ch_some)
  ultimately show ?thesis
    using False by (cases c; simp add: hoare_reply)
qed

lemma hwi_op_video:
  assumes "\<not> closes c" and "QCAMERA_CH_TYPE_VIDEO \<in> S"
  shows "hoare (open_ch S) (hwi_op B c) (\<lambda>_. some_open (\<lambda>S. QCAMERA_CH_TYPE_VIDEO \<in> S))"
proof (cases "c = P_takePicture")
  case True
  then show ?thesis
    using assms(2)
    by simp (intro hoare_reply hoare_post [OF takePicture_open], auto simp: some_open_def)
next
  case False
  then show ?thesis
    using assms by (intro hoare_post [OF keeps_plain_op]) (auto simp: some_open_def)
qed

lemma hwi_start_recording:
  "hoare (open_ch S) (hwi_op B P_startRecording)
    (\<lambda>r. some_open (\<lambda>S'. r_rc r = NO_ERROR \<longrightarrow> QCAMERA_CH_TYPE_VIDEO \<in> S'))"
  by (simp, rule hoare_reply, rule hoare_post [OF startRecording_open]) simp

definition video_open :: "'b hwi_dev \<Rightarrow> bool" where
  "video_open d \<longleftrightarrow> m_channels d QCAMERA_CH_TYPE_VIDEO \<noteq> None"

lemma video_open_iff:
  "open_ch S d \<Longrightarrow> video_open d \<longleftrightarrow> QCAMERA_CH_TYPE_VIDEO \<in> S"
  by (auto simp: video_open_def open_ch_def preview_types_def)

interpretation device: recording_parent "hwi_penv B msg_error server_died" sound video_open
  for B :: "'b benv" and msg_error server_died
proof
  fix h h' :: "'b hwi_dev" and c r
  assume h: "sound h" and "p_call (hwi_penv B msg_error server_died) c h = (r, h')"
  then have run: "run_state (hwi_op B c) h = (r, h')" by (simp add: hwi_penv_def)
  from h obtain S where S: "open_ch S h" by (auto simp: sound_open some_open_def)
  show "sound h'"
    using hoareD [OF hwi_op_sound S run] by (simp add: sound_open)
  show "video_open h'" if "video_open h" "\<not> closes c"
    using hoareD [OF hwi_op_video S run] S that by (auto simp: some_open_def video_open_iff)
next
  fix h h' :: "'b hwi_dev" and r
  assume h: "sound h" and "p_call (hwi_penv B msg_error server_died) P_startRecording h = (r, h')"
    and ok: "r_rc r = NO_ERROR"
  then have run: "run_state (hwi_op B P_startRecording) h = (r, h')" by (simp add: hwi_penv_def)
  from h obtain S where S: "open_ch S h" by (auto simp: sound_open some_open_def)
  show "video_open h'"
    using hoareD [OF hwi_start_recording S run] ok by (auto simp: some_open_def video_open_iff)
qed

lemma new_device_sound: "sound (new_device b)"
  by (simp add: sound_def holds_def new_device_def one_each_def)

text \<open>
  A backend whose calls return the statuses \<open>rc\<close> and the flags \<open>yes\<close>, except that it has memory and
  that it keeps the recording hint. The constants stand in for those of \<^verbatim>\<open>system/camera.h\<close>.
\<close>

definition told :: "(bcall \<Rightarrow> bool) \<Rightarrow> (bcall \<Rightarrow> int32) \<Rightarrow> bool benv" where
  "told yes rc = \<lparr>b_call = \<lambda>c hint. (\<lparr>r_rc = rc c,
       r_flag = (case c of B_new ch \<Rightarrow> True
         | B_query q \<Rightarrow> if q = Q_getRecordingHintValue then hint else yes c
         | _ \<Rightarrow> yes c), r_out = 0, r_addr = NULL\<rparr>,
       case c of B_updateRecordingHintValue v \<Rightarrow> v | _ \<Rightarrow> hint),
     b_VANILLA_HAL = False, b_LONGSHOT_ON = 1, b_LONGSHOT_OFF = 2, b_HISTOGRAM_ON = 3,
     b_HISTOGRAM_OFF = 4, b_START_FACE_DETECTION = 5, b_STOP_FACE_DETECTION = 6\<rparr>"

definition always_ok :: "bool benv" where
  "always_ok = told (\<lambda>c. False) (\<lambda>c. NO_ERROR)"

text \<open>A run of the machine over a new device.\<close>

definition device_run :: "'b benv \<Rightarrow> int32 \<Rightarrow> int32 \<Rightarrow> 'b \<Rightarrow> sm_event list \<Rightarrow> 'b hwi_dev sm" where
  "device_run B msg_error server_died b es =
     sm_run (hwi_penv B msg_error server_died) es (sm_init (new_device b))"

lemmas run_defs = device_run_def sm_init_def sm_step_def run_state_stateMachine sm_body
  channel_defs device_defs always_ok_def told_def

lemma device_run_sound: "sound (m_parent (device_run B msg_error server_died b es))"
  unfolding device_run_def by (rule device.run_keeps) (simp add: sm_init_def new_device_sound)

lemma release_step:
  assumes "m_state s = QCAMERA_SM_STATE_PREVIEW_STOPPED" and "sound (m_parent s)"
  shows "holds Map.empty {} (m_parent (sm_step (hwi_penv B msg_error server_died) RELEASE s))"
proof -
  obtain r h where rel: "run_state (release B) (m_parent s) = (r, h)" by fastforce
  have h: "holds Map.empty {} h"
    using hoareD [OF release_holds _ rel] assms(2) by (simp add: sound_def)
  then show ?thesis
    using assms(1) rel
    by (simp add: sm_step_def run_state_stateMachine sm_body hwi_penv_def reply_rc_def xcall_def
        split: prod.splits)
qed

text \<open>The preview channels that are open.\<close>

definition open_channels :: "'b hwi_dev \<Rightarrow> qcamera_ch_type_enum_t set" where
  "open_channels d = dom (m_channels d) \<inter> preview_types"

section \<open>Properties\<close>

text \<open>
  C3. In every run of the machine on the device, whatever the backend answers, the live channel
  objects are exactly those of the channel table, each there once: none leaks, none is deleted
  twice, and no two channel types share one.
\<close>

theorem device_owns_channels:
  "let d = m_parent (device_run B msg_error server_died b es)
   in \<not> double_delete d \<and> distinct (live d) \<and> set (live d) = ran (m_channels d)
      \<and> inj_on (m_channels d) (dom (m_channels d))"
  using device_run_sound [of B msg_error server_died b es]
  by (simp add: sound_def holds_def one_each_def Let_def)

text \<open>
  When the machine is in the state in which it releases the device, a \<^verbatim>\<open>RELEASE\<close> leaves no
  channel object alive and an empty channel table.
\<close>

theorem device_release:
  assumes "m_state (device_run B msg_error server_died b es) = QCAMERA_SM_STATE_PREVIEW_STOPPED"
  shows "live (m_parent (device_run B msg_error server_died b (es @ [RELEASE]))) = []
    \<and> m_channels (m_parent (device_run B msg_error server_died b (es @ [RELEASE]))) = Map.empty"
  using release_step [OF assms device_run_sound, of B msg_error server_died]
  by (simp add: device_run_def holds_def sm_run_def)

theorem device_release_witness:
  "live (m_parent (device_run always_ok 1 100 False ([START_PREVIEW, STOP_PREVIEW] @ [RELEASE]))) = []"
  by (rule device_release [THEN conjunct1]) (simp add: run_defs)

text \<open>
  C8. Whenever the machine is in one of the two recording states, the video channel is in the
  channel table.
\<close>

theorem recording_has_video_channel:
  assumes "recording_state (m_state (device_run B msg_error server_died b es))"
  shows "m_channels (m_parent (device_run B msg_error server_died b es)) QCAMERA_CH_TYPE_VIDEO \<noteq> None"
proof -
  have "video_open (m_parent (device_run B msg_error server_died b es))"
    using assms unfolding device_run_def
    by (intro device.run_recording) (simp_all add: sm_init_def new_device_sound)
  then show ?thesis by (simp add: video_open_def)
qed

theorem recording_has_video_channel_witness:
  "m_channels (m_parent (device_run always_ok 1 100 False [SET_PREVIEW_WINDOW 7, START_PREVIEW, START_RECORDING]))
     QCAMERA_CH_TYPE_VIDEO \<noteq> None"
  by (rule recording_has_video_channel) (simp add: run_defs)

text \<open>
  C23. \<^verbatim>\<open>preparePreview\<close> is all or nothing: when it fails, none of the four preview channels is open
  that was not open before; when it succeeds, the channels of one of the four modes (ZSL; preview
  alone; preview and video, with or without snapshot) are open, and no others beside those that
  were.
\<close>

theorem preparePreview_all_or_nothing:
  assumes "set (live d) = ran (m_channels d)" "inj_on (m_channels d) (dom (m_channels d))"
    and "distinct (live d)" "\<forall>c \<in> set (live d). c < next_channel d" "\<not> double_delete d"
    and "run_state (preparePreview B) d = (rc, d')"
  shows "if rc = NO_ERROR
    then \<exists>X \<in> preview_sets. X \<subseteq> open_channels d' \<and> open_channels d' \<subseteq> X \<union> open_channels d
    else open_channels d' \<subseteq> open_channels d"
proof -
  have "open_ch (open_channels d) d"
    using assms(1-5) by (simp add: open_ch_def sound_def holds_def one_each_def open_channels_def)
  from hoareD [OF preparePreview_grown this assms(6)] show ?thesis
    by (auto simp: grown_def some_open_def open_ch_def open_channels_def split: if_splits)
qed

theorem preparePreview_all_or_nothing_witness:
  "(if fst (run_state (preparePreview always_ok) (new_device True)) = NO_ERROR
    then \<exists>X \<in> preview_sets. X \<subseteq> open_channels (snd (run_state (preparePreview always_ok) (new_device True)))
      \<and> open_channels (snd (run_state (preparePreview always_ok) (new_device True)))
         \<subseteq> X \<union> open_channels (new_device True)
    else open_channels (snd (run_state (preparePreview always_ok) (new_device True)))
      \<subseteq> open_channels (new_device True))"
  by (rule preparePreview_all_or_nothing) (simp_all add: new_device_def)

text \<open>
  The message mask: enabling a set of message types turns on those bits and disabling it turns
  them off, leaving the other bits alone; asking reads back the bits of the set.
\<close>

theorem message_mask:
  "let on = snd (run_state (enableMsgType m) d); off = snd (run_state (disableMsgType m) d);
       bits = (word_of_int m :: 32 word)
   in fst (run_state (msgTypeEnabled m) on) = sint bits
    \<and> fst (run_state (msgTypeEnabled m) off) = 0
    \<and> and (mMsgEnabled on) (not bits) = and (mMsgEnabled d) (not bits)
    \<and> and (mMsgEnabled off) (not bits) = and (mMsgEnabled d) (not bits)"
proof -
  have "and (or (mMsgEnabled d) x) x = x" "and (and (mMsgEnabled d) (not x)) x = 0"
    "and (or (mMsgEnabled d) x) (not x) = and (mMsgEnabled d) (not x)"
    "and (and (mMsgEnabled d) (not x)) (not x) = and (mMsgEnabled d) (not x)" for x
    by (rule bit_word_eqI; auto simp: bit_simps)+
  then show ?thesis
    by (simp add: enableMsgType_def disableMsgType_def msgTypeEnabled_def modify_def gets_def Let_def
        State_Monad.bind_def State_Monad.return_def)
qed

section \<open>Errors that get lost\<close>

text \<open>
  With the low power mode, \<^verbatim>\<open>startRecording\<close> overwrites the status of the preview it restarts by that
  of the link of the metadata stream: the preview did not start, and recording is reported on.
\<close>

theorem startRecording_forgets_preview_error:
  "let B = told (\<lambda>c. case c of B_query q \<Rightarrow> q = Q_isLowPowerEnabled \<or> q = Q_metadataStream | _ \<Rightarrow> False)
         (\<lambda>c. case c of B_start n \<Rightarrow> if n = 2 then UNKNOWN_ERROR else NO_ERROR | _ \<Rightarrow> NO_ERROR);
       s = device_run B 1 100 False [SET_PREVIEW_WINDOW 7, START_PREVIEW, START_RECORDING]
   in m_state s = QCAMERA_SM_STATE_RECORDING
    \<and> m_channels (m_parent s) QCAMERA_CH_TYPE_PREVIEW = Some 2"
  by (simp add: run_defs)

text \<open>
  A picture with longshot but without ZSL: \<^verbatim>\<open>takePicture\<close> deletes the preview channel, then fails to
  add the capture channel; the machine goes back to previewing, with no preview channel.
\<close>

theorem longshot_picture_loses_preview:
  "let B = told (\<lambda>c. case c of B_query q \<Rightarrow> q = Q_isYuvPictureFormat | _ \<Rightarrow> False)
         (\<lambda>c. case c of B_init n a \<Rightarrow> if n = 1 then NO_MEMORY else NO_ERROR | _ \<Rightarrow> NO_ERROR);
       s = device_run B 1 100 False [SET_PREVIEW_WINDOW 7, START_PREVIEW,
         SEND_COMMAND \<lparr>cmd = 1, arg1 = 0, arg2 = 0\<rparr>, TAKE_PICTURE]
   in m_state s = QCAMERA_SM_STATE_PREVIEWING \<and> live (m_parent s) = []"
  by (simp add: run_defs)

text \<open>
  A picture whose advanced capture does not start: \<^verbatim>\<open>takePicture\<close> returns the error with the capture
  channel still in the table, configured and started, and the machine stops the preview.
\<close>

theorem failed_picture_leaves_capture:
  "let B = told (\<lambda>c. case c of B_query q \<Rightarrow> q = Q_isYuvPictureFormat \<or> q = Q_isBracketCapture
           | B_queuePostview n \<Rightarrow> True | _ \<Rightarrow> False)
         (\<lambda>c. case c of B_startAdvancedCapture n \<Rightarrow> UNKNOWN_ERROR | _ \<Rightarrow> NO_ERROR);
       s = device_run B 1 100 False [SET_PREVIEW_WINDOW 7, START_PREVIEW, TAKE_PICTURE]
   in m_state s = QCAMERA_SM_STATE_PREVIEW_STOPPED
    \<and> m_channels (m_parent s) QCAMERA_CH_TYPE_CAPTURE = Some 1"
  by (simp add: run_defs)

end
