(* ===== verification/CStrings.thy ===== *)
theory CStrings
  imports Main
begin

text \<open>
  The functions of the C library the parameter code uses on strings: \<^verbatim>\<open>strchr\<close>, \<^verbatim>\<open>strtol\<close> in base 10,
  \<^verbatim>\<open>sprintf\<close> with \<^verbatim>\<open>%d\<close> and \<^verbatim>\<open>strtok_r\<close> with one delimiter. A C string is the list of its characters
  without the final zero; a pointer into a string is the suffix it points to, so \<^verbatim>\<open>*end\<close> is the first
  character of the suffix, and the zero when the suffix is empty.
\<close>

section \<open>Characters\<close>

abbreviation code :: "char \<Rightarrow> nat" where "code c \<equiv> of_char c"

definition isspace :: "char \<Rightarrow> bool" where
  "isspace c \<longleftrightarrow> code c = 32 \<or> 9 \<le> code c \<and> code c \<le> 13"

definition isdigit :: "char \<Rightarrow> bool" where
  "isdigit c \<longleftrightarrow> 48 \<le> code c \<and> code c \<le> 57"

definition digit :: "nat \<Rightarrow> char" where
  "digit n = char_of (48 + n)"

lemma code_digit [simp]: "n < 10 \<Longrightarrow> code (digit n) = 48 + n"
  by (simp add: digit_def)

lemma isdigit_digit [simp]: "n < 10 \<Longrightarrow> isdigit (digit n)"
  by (simp add: isdigit_def)

section \<open>strchr\<close>

definition strchr :: "string \<Rightarrow> char \<Rightarrow> string option" where
  "strchr s c = (if c \<in> set s then Some (dropWhile (\<lambda>x. x \<noteq> c) s) else None)"

text \<open>The characters from a pointer up to a later pointer into the same string.\<close>

definition upto_ptr :: "string \<Rightarrow> string \<Rightarrow> string" where
  "upto_ptr a b = take (length a - length b) a"

lemma strchr_None: "strchr s c = None \<longleftrightarrow> c \<notin> set s"
  by (simp add: strchr_def)

lemma strchr_append: "c \<notin> set k \<Longrightarrow> strchr (k @ c # r) c = Some (c # r)"
  by (induction k) (auto simp: strchr_def)

lemma strchr_SomeE:
  assumes "strchr s c = Some b"
  obtains k r where "s = k @ c # r" "c \<notin> set k" "b = c # r"
proof -
  from assms have "c \<in> set s" using strchr_None [of s c] by auto
  then obtain k r where "s = k @ c # r" "c \<notin> set k"
    by (auto dest: split_list_first)
  with assms show thesis by (intro that [of k r]) (simp_all add: strchr_append)
qed

lemma upto_ptr_append [simp]: "upto_ptr (k @ r) r = k"
  by (simp add: upto_ptr_def)

section \<open>sprintf and strtol\<close>

fun dec_nat :: "nat \<Rightarrow> string" where
  "dec_nat n = (if n < 10 then [digit n] else dec_nat (n div 10) @ [digit (n mod 10)])"

declare dec_nat.simps [simp del]

definition format_d :: "int \<Rightarrow> string" where
  "format_d v = (if v < 0 then ''-'' @ dec_nat (nat (- v)) else dec_nat (nat v))"

definition digits_value :: "string \<Rightarrow> nat" where
  "digits_value ds = foldl (\<lambda>n c. 10 * n + (code c - 48)) 0 ds"

text \<open>
  \<^verbatim>\<open>strtol\<close> for a \<^verbatim>\<open>long\<close> of \<open>L\<close> bits: the value, limited to the range of \<^verbatim>\<open>long\<close>, and the end pointer;
  the start and 0 when there is no number.
\<close>

definition clamp_long :: "nat \<Rightarrow> int \<Rightarrow> int" where
  "clamp_long L v = max (- (2 ^ (L - 1))) (min (2 ^ (L - 1) - 1) v)"

definition strtol10 :: "nat \<Rightarrow> string \<Rightarrow> int \<times> string" where
  "strtol10 L s =
     (let t = dropWhile isspace s;
          neg = (take 1 t = ''-'');
          t = (if take 1 t = ''-'' \<or> take 1 t = ''+'' then tl t else t);
          ds = takeWhile isdigit t
      in if ds = [] then (0, s)
         else (clamp_long L (if neg then - int (digits_value ds) else int (digits_value ds)),
               dropWhile isdigit t))"

text \<open>The conversion of a \<^verbatim>\<open>long\<close> to \<^verbatim>\<open>int\<close>.\<close>

definition to_int :: "int \<Rightarrow> int" where
  "to_int v = (v + 2 ^ 31) mod 2 ^ 32 - 2 ^ 31"

definition int32_range :: "int \<Rightarrow> bool" where
  "int32_range v \<longleftrightarrow> - (2 ^ 31) \<le> v \<and> v < 2 ^ 31"

lemma to_int_id: "int32_range v \<Longrightarrow> to_int v = v"
  by (simp add: to_int_def int32_range_def)

lemma digits_value_dec_nat [simp]: "digits_value (dec_nat n) = n"
  by (induction n rule: dec_nat.induct) (subst dec_nat.simps, auto simp: digits_value_def)

lemma isdigit_dec_nat: "c \<in> set (dec_nat n) \<Longrightarrow> isdigit c"
  by (induction n rule: dec_nat.induct) (subst (asm) (2) dec_nat.simps, auto split: if_splits)

lemma dec_nat_not_Nil [simp]: "dec_nat n \<noteq> []"
  by (subst dec_nat.simps) simp

lemma isdigit_not: "isdigit c \<Longrightarrow> c \<noteq> CHR ''-'' \<and> c \<noteq> CHR ''+'' \<and> \<not> isspace c
    \<and> c \<noteq> CHR ''x'' \<and> c \<noteq> CHR '','' \<and> c \<noteq> CHR ''='' \<and> c \<noteq> CHR '';''"
  by (auto simp: isdigit_def isspace_def)

lemma dec_nat_Cons: "\<exists>c cs. dec_nat n = c # cs \<and> isdigit c"
proof -
  obtain c cs where "dec_nat n = c # cs" by (cases "dec_nat n") simp_all
  with isdigit_dec_nat [of c n] show ?thesis by simp
qed

text \<open>A number of the range of \<^verbatim>\<open>long\<close> is read back, and the end pointer is behind it.\<close>

lemma strtol10_format_d:
  assumes v: "- (2 ^ (L - 1)) \<le> v" "v < 2 ^ (L - 1)" and rest: "r = [] \<or> \<not> isdigit (hd r)"
  shows "strtol10 L (format_d v @ r) = (v, r)"
proof -
  have digits: "takeWhile isdigit (dec_nat n @ r) = dec_nat n"
    "dropWhile isdigit (dec_nat n @ r) = r" for n
    using rest isdigit_dec_nat [of _ n]
    by (cases r; simp add: takeWhile_append2 dropWhile_append2)+
  have clamp: "clamp_long L v = v"
    using v by (simp add: clamp_long_def)
  show ?thesis
  proof (cases "v < 0")
    case True
    then have "format_d v @ r = CHR ''-'' # dec_nat (nat (- v)) @ r"
      by (simp add: format_d_def)
    with True clamp digits show ?thesis
      by (simp add: strtol10_def Let_def isspace_def)
  next
    case False
    obtain c cs where c: "dec_nat (nat v) = c # cs" "isdigit c"
      using dec_nat_Cons [of "nat v"] by auto
    with False clamp digits [of "nat v"] show ?thesis
      using isdigit_not [OF c(2)] digits_value_dec_nat [of "nat v"]
      by (simp add: strtol10_def Let_def format_d_def)
  qed
qed

lemma strtol10_shorter: "length (snd (strtol10 L s)) \<le> length s"
proof -
  have "length (dropWhile isdigit (if b then tl (dropWhile isspace s) else dropWhile isspace s)) \<le> length s" for b
    using length_dropWhile_le [of isdigit "if b then tl (dropWhile isspace s) else dropWhile isspace s"]
      length_dropWhile_le [of isspace s] by (cases b) auto
  then show ?thesis by (simp add: strtol10_def Let_def)
qed

text \<open>
  \<^verbatim>\<open>strtol\<close> in base 0: hexadecimal behind \<^verbatim>\<open>0x\<close>, octal behind another \<^verbatim>\<open>0\<close>, decimal otherwise; the value
  only.
\<close>

definition digit_of :: "char \<Rightarrow> nat" where
  "digit_of c = (if isdigit c then code c - 48
     else if 97 \<le> code c \<and> code c \<le> 122 then code c - 87
     else if 65 \<le> code c \<and> code c \<le> 90 then code c - 55 else 36)"

definition number_in :: "nat \<Rightarrow> string \<Rightarrow> nat" where
  "number_in b s = foldl (\<lambda>n c. b * n + digit_of c) 0 (takeWhile (\<lambda>c. digit_of c < b) s)"

definition number0 :: "string \<Rightarrow> nat" where
  "number0 t =
     (if take 2 t \<in> {''0x'', ''0X''} \<and> drop 2 t \<noteq> [] \<and> digit_of (hd (drop 2 t)) < 16
      then number_in 16 (drop 2 t)
      else if take 1 t = ''0'' then number_in 8 t
      else number_in 10 t)"

definition strtol0 :: "nat \<Rightarrow> string \<Rightarrow> int" where
  "strtol0 L s =
     (let t = dropWhile isspace s;
          neg = (take 1 t = ''-'');
          t = (if take 1 t = ''-'' \<or> take 1 t = ''+'' then tl t else t)
      in clamp_long L (if neg then - int (number0 t) else int (number0 t)))"

lemma digit_of_less_10: "digit_of c < 10 \<longleftrightarrow> isdigit c"
  by (auto simp: digit_of_def isdigit_def)

lemma number_in_10: "number_in 10 s = digits_value (takeWhile isdigit s)"
proof -
  have "foldl (\<lambda>n c. 10 * n + digit_of c) a ds = foldl (\<lambda>n c. 10 * n + (code c - 48)) a ds"
    if "\<forall>c\<in>set ds. isdigit c" for a ds
    using that by (induction ds arbitrary: a) (simp_all add: digit_of_def)
  then show ?thesis
    by (simp add: number_in_def digit_of_less_10 digits_value_def set_takeWhileD [THEN conjunct2])
qed

lemma dec_nat_first: "0 < n \<Longrightarrow> take 1 (dec_nat n) \<noteq> ''0''"
proof (induction n rule: dec_nat.induct)
  case (1 n)
  show ?case
  proof (cases "n < 10")
    case True
    then have "code (digit n) \<noteq> code CHR ''0''" using 1(2) by simp
    then have "digit n \<noteq> CHR ''0''" by metis
    with True show ?thesis by (simp add: dec_nat.simps)
  next
    case False
    then have "take 1 (dec_nat (n div 10)) \<noteq> ''0''" using 1 by simp
    moreover obtain c cs where "dec_nat (n div 10) = c # cs" using dec_nat_Cons by blast
    ultimately show ?thesis using False by (subst dec_nat.simps) simp
  qed
qed

text \<open>What \<^verbatim>\<open>%d\<close> prints is never taken for octal.\<close>

lemma number0_dec_nat [simp]: "number0 (dec_nat n) = n"
proof (cases "n = 0")
  case True
  then have "dec_nat n = ''0''" by (simp add: dec_nat.simps digit_def char_of_def bit_Suc_0_iff)
  then show ?thesis using True by (simp add: number0_def number_in_def digit_of_def isdigit_def)
next
  case False
  have tw: "takeWhile isdigit (dec_nat n) = dec_nat n"
    by (subst takeWhile_eq_all_conv) (simp add: isdigit_dec_nat)
  have "number_in 10 (dec_nat n) = n" unfolding number_in_10 tw by simp
  moreover have 1: "take 1 (dec_nat n) \<noteq> ''0''" using False dec_nat_first by simp
  moreover have "take 2 (dec_nat n) \<notin> {''0x'', ''0X''}" using 1 by (cases "dec_nat n") auto
  ultimately show ?thesis by (simp add: number0_def)
qed

lemma strtol0_format_d:
  assumes v: "- (2 ^ (L - 1)) \<le> v" "v < 2 ^ (L - 1)"
  shows "strtol0 L (format_d v) = v"
proof -
  have clamp: "clamp_long L v = v" using v by (simp add: clamp_long_def)
  show ?thesis
  proof (cases "v < 0")
    case True
    with clamp show ?thesis by (simp add: strtol0_def format_d_def isspace_def)
  next
    case False
    obtain c cs where c: "dec_nat (nat v) = c # cs" "isdigit c"
      using dec_nat_Cons [of "nat v"] by auto
    then have "strtol0 L (dec_nat (nat v)) = clamp_long L (int (number0 (dec_nat (nat v))))"
      using isdigit_not [OF c(2)] by (simp add: strtol0_def Let_def del: number0_dec_nat)
    with False clamp show ?thesis by (simp add: format_d_def)
  qed
qed

section \<open>Lengths\<close>

lemma length_dec_nat: "n < 10 ^ Suc k \<Longrightarrow> length (dec_nat n) \<le> Suc k"
proof (induction k arbitrary: n)
  case 0
  then show ?case by (simp add: dec_nat.simps)
next
  case (Suc k)
  then have "n div 10 < 10 ^ Suc k" by (simp add: less_mult_imp_div_less)
  with Suc.IH [of "n div 10"] show ?case by (subst dec_nat.simps) simp
qed

lemma length_format_d:
  assumes "int32_range v"
  shows "length (format_d v) \<le> 11"
proof -
  have "nat v < 10 ^ Suc 9" "nat (- v) < 10 ^ Suc 9"
    using assms by (auto simp: int32_range_def nat_less_iff)
  then have "length (dec_nat (nat v)) \<le> Suc 9" "length (dec_nat (nat (- v))) \<le> Suc 9"
    by (blast intro: length_dec_nat)+
  then show ?thesis by (simp add: format_d_def)
qed

section \<open>strtok_r\<close>

text \<open>The tokens of the calls of \<^verbatim>\<open>strtok_r\<close> with one delimiter: the non-empty pieces, in order.\<close>

function strtok :: "char \<Rightarrow> string \<Rightarrow> string list" where
  "strtok c s =
     (let t = dropWhile (\<lambda>x. x = c) s
      in if t = [] then []
         else takeWhile (\<lambda>x. x \<noteq> c) t # strtok c (tl (dropWhile (\<lambda>x. x \<noteq> c) t)))"
  by auto

termination
proof (relation "measure (length \<circ> snd)", simp)
  fix c :: char and s t assume t: "t = dropWhile (\<lambda>x. x = c) s" "t \<noteq> []"
  have "length (tl (dropWhile (\<lambda>x. x \<noteq> c) t)) < length t"
    using t(2) length_dropWhile_le [of "\<lambda>x. x \<noteq> c" t]
    by (simp add: less_eq_Suc_le [symmetric] length_greater_0_conv [symmetric] del: length_greater_0_conv)
  also have "length t \<le> length s" using t(1) by (simp add: length_dropWhile_le)
  finally show "((c, tl (dropWhile (\<lambda>x. x \<noteq> c) t)), c, s) \<in> measure (length \<circ> snd)" by simp
qed

declare strtok.simps [simp del]

end
