(* ===== verification/CamParams.thy ===== *)
theory CamParams
  imports CStrings "HOL-Library.Char_ord" "HOL-Library.List_Lexorder"
begin

text \<open>
  The key/value parameters of the camera (\<^verbatim>\<open>camera/compat/CameraParameters.cpp\<close>): the map, its text
  form, and the parsing of sizes and formats. The map class \<^verbatim>\<open>DefaultKeyedVector\<close> of Android's
  \<^verbatim>\<open>libutils\<close> is not part of the repository: its operations are the record \<open>keyed_vector_ops\<close>, and
  what the code relies on is the interface \<open>keyed_vector\<close>.
\<close>

section \<open>The map class\<close>

record 'm keyed_vector_ops =
  kv_clear :: "'m \<Rightarrow> 'm"
  kv_size :: "'m \<Rightarrow> nat"
  keyAt :: "'m \<Rightarrow> nat \<Rightarrow> string"
  valueAt :: "'m \<Rightarrow> nat \<Rightarrow> string"
  kv_add :: "string \<Rightarrow> string \<Rightarrow> 'm \<Rightarrow> 'm"
  replaceValueFor :: "string \<Rightarrow> string \<Rightarrow> 'm \<Rightarrow> 'm"
  valueFor :: "'m \<Rightarrow> string \<Rightarrow> string"
  removeItem :: "string \<Rightarrow> 'm \<Rightarrow> 'm"

definition kv_items :: "'m keyed_vector_ops \<Rightarrow> 'm \<Rightarrow> (string \<times> string) list" where
  "kv_items V m = map (\<lambda>i. (keyAt V m i, valueAt V m i)) [0..<kv_size V m]"

definition kv_map :: "'m keyed_vector_ops \<Rightarrow> 'm \<Rightarrow> string \<Rightarrow> string option" where
  "kv_map V m = map_of (kv_items V m)"

section \<open>CameraParameters\<close>

definition KEY_PREVIEW_SIZE :: string where "KEY_PREVIEW_SIZE = ''preview-size''"
definition KEY_VIDEO_SIZE :: string where "KEY_VIDEO_SIZE = ''video-size''"
definition KEY_PICTURE_SIZE :: string where "KEY_PICTURE_SIZE = ''picture-size''"
definition KEY_PREVIEW_FRAME_RATE :: string where "KEY_PREVIEW_FRAME_RATE = ''preview-frame-rate''"
definition KEY_PREVIEW_FPS_RANGE :: string where "KEY_PREVIEW_FPS_RANGE = ''preview-fps-range''"
definition KEY_PREVIEW_FORMAT :: string where "KEY_PREVIEW_FORMAT = ''preview-format''"
definition KEY_PICTURE_FORMAT :: string where "KEY_PICTURE_FORMAT = ''picture-format''"
definition KEY_PREFERRED_PREVIEW_SIZE_FOR_VIDEO :: string where
  "KEY_PREFERRED_PREVIEW_SIZE_FOR_VIDEO = ''preferred-preview-size-for-video''"
definition KEY_SUPPORTED_PREVIEW_SIZES :: string where
  "KEY_SUPPORTED_PREVIEW_SIZES = ''preview-size-values''"
definition KEY_SUPPORTED_VIDEO_SIZES :: string where
  "KEY_SUPPORTED_VIDEO_SIZES = ''video-size-values''"
definition KEY_SUPPORTED_PICTURE_SIZES :: string where
  "KEY_SUPPORTED_PICTURE_SIZES = ''picture-size-values''"
definition KEY_SUPPORTED_PREVIEW_FORMATS :: string where
  "KEY_SUPPORTED_PREVIEW_FORMATS = ''preview-format-values''"

lemmas key_defs = KEY_PREVIEW_SIZE_def KEY_VIDEO_SIZE_def KEY_PICTURE_SIZE_def
  KEY_PREVIEW_FRAME_RATE_def KEY_PREVIEW_FPS_RANGE_def KEY_PREVIEW_FORMAT_def
  KEY_PICTURE_FORMAT_def KEY_PREFERRED_PREVIEW_SIZE_FOR_VIDEO_def KEY_SUPPORTED_PREVIEW_SIZES_def
  KEY_SUPPORTED_VIDEO_SIZES_def KEY_SUPPORTED_PICTURE_SIZES_def KEY_SUPPORTED_PREVIEW_FORMATS_def

definition flatten :: "'m keyed_vector_ops \<Rightarrow> 'm \<Rightarrow> string" where
  "flatten V m =
     (let n = kv_size V m
      in fold (\<lambda>i s. s @ keyAt V m i @ ''='' @ valueAt V m i @ (if i \<noteq> n - 1 then '';'' else ''''))
           [0..<n] '''')"

text \<open>The loop of \<^verbatim>\<open>unflatten\<close> after the map was cleared.\<close>

function unflatten_loop :: "'m keyed_vector_ops \<Rightarrow> string \<Rightarrow> 'm \<Rightarrow> 'm" where
  "unflatten_loop V a m = (case strchr a CHR ''='' of
     None \<Rightarrow> m
   | Some b \<Rightarrow>
       let k = upto_ptr a b; a = tl b
       in case strchr a CHR '';'' of
            None \<Rightarrow> kv_add V k a m
          | Some b \<Rightarrow> unflatten_loop V (tl b) (kv_add V k (upto_ptr a b) m))"
  by pat_completeness auto

termination
  by (relation "measure (\<lambda>(V, a, m). length a)") (auto elim!: strchr_SomeE)

declare unflatten_loop.simps [simp del]

definition unflatten :: "'m keyed_vector_ops \<Rightarrow> string \<Rightarrow> 'm \<Rightarrow> 'm" where
  "unflatten V params m = unflatten_loop V params (kv_clear V m)"

definition has_separator :: "string \<Rightarrow> bool" where
  "has_separator s \<longleftrightarrow> strchr s CHR ''='' \<noteq> None \<or> strchr s CHR '';'' \<noteq> None"

definition set_param :: "'m keyed_vector_ops \<Rightarrow> string \<Rightarrow> string \<Rightarrow> 'm \<Rightarrow> 'm" where
  "set_param V key val m =
     (if has_separator key then m
      else if has_separator val then m
      else replaceValueFor V key val m)"

definition set_int :: "'m keyed_vector_ops \<Rightarrow> string \<Rightarrow> int \<Rightarrow> 'm \<Rightarrow> 'm" where
  "set_int V key v m = set_param V key (format_d v) m"

text \<open>\<^verbatim>\<open>get\<close>: a null pointer for an empty value.\<close>

definition get_param :: "'m keyed_vector_ops \<Rightarrow> string \<Rightarrow> 'm \<Rightarrow> string option" where
  "get_param V key m =
     (let v = valueFor V m key in if length v = 0 then None else Some v)"

definition getInt :: "nat \<Rightarrow> 'm keyed_vector_ops \<Rightarrow> string \<Rightarrow> 'm \<Rightarrow> int" where
  "getInt L V key m =
     (case get_param V key m of None \<Rightarrow> - 1 | Some v \<Rightarrow> to_int (strtol0 L v))"

definition isEmpty_params :: "'m keyed_vector_ops \<Rightarrow> 'm \<Rightarrow> bool" where
  "isEmpty_params V m \<longleftrightarrow> kv_size V m = 0"

definition remove_param :: "'m keyed_vector_ops \<Rightarrow> string \<Rightarrow> 'm \<Rightarrow> 'm" where
  "remove_param V key m = removeItem V key m"

section \<open>Pairs and sizes\<close>

text \<open>
  \<^verbatim>\<open>parse_pair\<close>, for a \<^verbatim>\<open>long\<close> of \<open>L\<close> bits: the two numbers and the end pointer, or the error.
\<close>

definition parse_pair :: "nat \<Rightarrow> string \<Rightarrow> char \<Rightarrow> ((int \<times> int) \<times> string) option" where
  "parse_pair L str delim =
     (let (w, end) = strtol10 L str
      in if take 1 end \<noteq> [delim] then None
         else let (h, end) = strtol10 L (tl end) in Some ((to_int w, to_int h), end))"

lemma parse_pair_shorter:
  assumes "parse_pair L str c = Some (p, end)"
  shows "length end < length str"
proof -
  obtain w e h where e: "strtol10 L str = (w, e)" "take 1 e = [c]" "strtol10 L (tl e) = (h, end)"
    using assms by (auto simp: parse_pair_def Let_def split: prod.splits if_splits)
  then have "length end \<le> length (tl e)" using strtol10_shorter [of L "tl e"] by simp
  also have "\<dots> < length e" using e(2) by (cases e) auto
  also have "\<dots> \<le> length str" using strtol10_shorter [of L str] e(1) by simp
  finally show ?thesis .
qed

function parseSizesList_loop :: "nat \<Rightarrow> string \<Rightarrow> (int \<times> int) list \<Rightarrow> (int \<times> int) list" where
  "parseSizesList_loop L str sizes = (case parse_pair L str CHR ''x'' of
     None \<Rightarrow> sizes
   | Some (sz, end) \<Rightarrow>
       if end \<noteq> '''' \<and> hd end \<noteq> CHR '','' then sizes
       else if end = '''' then sizes @ [sz]
       else parseSizesList_loop L (tl end) (sizes @ [sz]))"
  by pat_completeness auto

termination
  by (relation "measure (\<lambda>(L, str, sizes). length str)")
    (auto dest!: parse_pair_shorter)

declare parseSizesList_loop.simps [simp del]

definition parseSizesList :: "nat \<Rightarrow> string option \<Rightarrow> (int \<times> int) list \<Rightarrow> (int \<times> int) list" where
  "parseSizesList L sizesStr sizes =
     (case sizesStr of None \<Rightarrow> sizes | Some s \<Rightarrow> parseSizesList_loop L s sizes)"

text \<open>The setters and getters of a size differ in the key only.\<close>

definition format_size :: "int \<Rightarrow> int \<Rightarrow> string" where
  "format_size w h = format_d w @ ''x'' @ format_d h"

definition set_size :: "'m keyed_vector_ops \<Rightarrow> string \<Rightarrow> int \<Rightarrow> int \<Rightarrow> 'm \<Rightarrow> 'm" where
  "set_size V key w h m = set_param V key (format_size w h) m"

definition get_pair :: "nat \<Rightarrow> 'm keyed_vector_ops \<Rightarrow> string \<Rightarrow> char \<Rightarrow> 'm \<Rightarrow> int \<times> int" where
  "get_pair L V key c m = (case get_param V key m of
     None \<Rightarrow> (- 1, - 1)
   | Some p \<Rightarrow> (case parse_pair L p c of None \<Rightarrow> (- 1, - 1) | Some (wh, end) \<Rightarrow> wh))"

definition setPreviewSize :: "'m keyed_vector_ops \<Rightarrow> int \<Rightarrow> int \<Rightarrow> 'm \<Rightarrow> 'm" where
  "setPreviewSize V = set_size V KEY_PREVIEW_SIZE"

definition getPreviewSize :: "nat \<Rightarrow> 'm keyed_vector_ops \<Rightarrow> 'm \<Rightarrow> int \<times> int" where
  "getPreviewSize L V = get_pair L V KEY_PREVIEW_SIZE CHR ''x''"

definition setVideoSize :: "'m keyed_vector_ops \<Rightarrow> int \<Rightarrow> int \<Rightarrow> 'm \<Rightarrow> 'm" where
  "setVideoSize V = set_size V KEY_VIDEO_SIZE"

definition getVideoSize :: "nat \<Rightarrow> 'm keyed_vector_ops \<Rightarrow> 'm \<Rightarrow> int \<times> int" where
  "getVideoSize L V = get_pair L V KEY_VIDEO_SIZE CHR ''x''"

definition setPictureSize :: "'m keyed_vector_ops \<Rightarrow> int \<Rightarrow> int \<Rightarrow> 'm \<Rightarrow> 'm" where
  "setPictureSize V = set_size V KEY_PICTURE_SIZE"

definition getPictureSize :: "nat \<Rightarrow> 'm keyed_vector_ops \<Rightarrow> 'm \<Rightarrow> int \<times> int" where
  "getPictureSize L V = get_pair L V KEY_PICTURE_SIZE CHR ''x''"

definition getPreviewFpsRange :: "nat \<Rightarrow> 'm keyed_vector_ops \<Rightarrow> 'm \<Rightarrow> int \<times> int" where
  "getPreviewFpsRange L V = get_pair L V KEY_PREVIEW_FPS_RANGE CHR '',''"

definition getSupportedPreviewSizes ::
    "nat \<Rightarrow> 'm keyed_vector_ops \<Rightarrow> 'm \<Rightarrow> (int \<times> int) list \<Rightarrow> (int \<times> int) list" where
  "getSupportedPreviewSizes L V m sizes =
     parseSizesList L (get_param V KEY_SUPPORTED_PREVIEW_SIZES m) sizes"

definition getSupportedVideoSizes ::
    "nat \<Rightarrow> 'm keyed_vector_ops \<Rightarrow> 'm \<Rightarrow> (int \<times> int) list \<Rightarrow> (int \<times> int) list" where
  "getSupportedVideoSizes L V m sizes =
     parseSizesList L (get_param V KEY_SUPPORTED_VIDEO_SIZES m) sizes"

definition getSupportedPictureSizes ::
    "nat \<Rightarrow> 'm keyed_vector_ops \<Rightarrow> 'm \<Rightarrow> (int \<times> int) list \<Rightarrow> (int \<times> int) list" where
  "getSupportedPictureSizes L V m sizes =
     parseSizesList L (get_param V KEY_SUPPORTED_PICTURE_SIZES m) sizes"

definition getPreferredPreviewSizeForVideo ::
    "nat \<Rightarrow> 'm keyed_vector_ops \<Rightarrow> 'm \<Rightarrow> int \<times> int" where
  "getPreferredPreviewSizeForVideo L V = get_pair L V KEY_PREFERRED_PREVIEW_SIZE_FOR_VIDEO CHR ''x''"

definition setPreviewFrameRate :: "'m keyed_vector_ops \<Rightarrow> int \<Rightarrow> 'm \<Rightarrow> 'm" where
  "setPreviewFrameRate V = set_int V KEY_PREVIEW_FRAME_RATE"

definition getPreviewFrameRate :: "nat \<Rightarrow> 'm keyed_vector_ops \<Rightarrow> 'm \<Rightarrow> int" where
  "getPreviewFrameRate L V = getInt L V KEY_PREVIEW_FRAME_RATE"

definition setPreviewFormat :: "'m keyed_vector_ops \<Rightarrow> string \<Rightarrow> 'm \<Rightarrow> 'm" where
  "setPreviewFormat V = set_param V KEY_PREVIEW_FORMAT"

definition getPreviewFormat :: "'m keyed_vector_ops \<Rightarrow> 'm \<Rightarrow> string option" where
  "getPreviewFormat V = get_param V KEY_PREVIEW_FORMAT"

definition setPictureFormat :: "'m keyed_vector_ops \<Rightarrow> string \<Rightarrow> 'm \<Rightarrow> 'm" where
  "setPictureFormat V = set_param V KEY_PICTURE_FORMAT"

definition getPictureFormat :: "'m keyed_vector_ops \<Rightarrow> 'm \<Rightarrow> string option" where
  "getPictureFormat V = get_param V KEY_PICTURE_FORMAT"

section \<open>Formats\<close>

text \<open>
  The constants \<^verbatim>\<open>HAL_PIXEL_FORMAT_...\<close> of Android's \<^verbatim>\<open>system/graphics.h\<close> are a parameter.
\<close>

record hal_pixel_formats =
  YCrCb_420_SP :: int
  YCbCr_422_SP :: int
  YCbCr_422_I :: int
  YV12 :: int
  RGB_565 :: int
  RGBA_8888 :: int
  RAW16 :: int

definition previewFormatToEnum :: "hal_pixel_formats \<Rightarrow> string option \<Rightarrow> int" where
  "previewFormatToEnum P format = (case format of
     None \<Rightarrow> YCrCb_420_SP P
   | Some f \<Rightarrow>
       if f = ''yuv422sp'' then YCbCr_422_SP P
       else if f = ''yuv420sp'' then YCrCb_420_SP P
       else if f = ''yuv422i-yuyv'' then YCbCr_422_I P
       else if f = ''yuv420p'' then YV12 P
       else if f = ''rgb565'' then RGB_565 P
       else if f = ''rgba8888'' then RGBA_8888 P
       else if f = ''bayer-rggb'' then RAW16 P
       else - 1)"

definition getSupportedPreviewFormats ::
    "hal_pixel_formats \<Rightarrow> 'm keyed_vector_ops \<Rightarrow> 'm \<Rightarrow> int list \<Rightarrow> int list" where
  "getSupportedPreviewFormats P V m formats = (case get_param V KEY_SUPPORTED_PREVIEW_FORMATS m of
     None \<Rightarrow> formats
   | Some s \<Rightarrow> fold (\<lambda>fmt fs.
         let actual = previewFormatToEnum P (Some fmt)
         in if actual \<noteq> - 1 then fs @ [actual] else fs) (strtok CHR '','' s) formats)"

section \<open>The text form\<close>

text \<open>
  The text of a list of entries, and the entries that survive it: no separator where it would be
  mistaken.
\<close>

fun text_of :: "(string \<times> string) list \<Rightarrow> string" where
  "text_of [] = ''''"
| "text_of [(k, v)] = k @ ''='' @ v"
| "text_of ((k, v) # xs) = k @ ''='' @ v @ '';'' @ text_of xs"

definition clean :: "string \<times> string \<Rightarrow> bool" where
  "clean kv \<longleftrightarrow> CHR ''='' \<notin> set (fst kv) \<and> CHR '';'' \<notin> set (snd kv)"

lemma text_of_snoc:
  "text_of (xs @ [(k, v)]) = concat (map (\<lambda>(k, v). k @ ''='' @ v @ '';'') xs) @ k @ ''='' @ v"
  by (induction xs rule: text_of.induct) auto

lemma fold_append_concat: "fold (\<lambda>i s. s @ f i) xs acc = acc @ concat (map f xs)"
  by (induction xs arbitrary: acc) simp_all

lemma flatten_text_of: "flatten V m = text_of (kv_items V m)"
proof (cases "kv_size V m")
  case (Suc n)
  have "concat (map (\<lambda>i. keyAt V m i @ ''='' @ valueAt V m i @ (if i \<noteq> n then '';'' else '''')) [0..<n]) =
      concat (map (\<lambda>i. keyAt V m i @ ''='' @ valueAt V m i @ '';'') [0..<n])"
    by (intro arg_cong [of _ _ concat] map_cong) simp_all
  then show ?thesis
    by (simp add: flatten_def kv_items_def Suc fold_append_concat text_of_snoc comp_def)
qed (simp add: flatten_def kv_items_def)

lemma unflatten_loop_text_of:
  assumes "\<forall>kv\<in>set xs. clean kv"
  shows "unflatten_loop V (text_of xs) m = fold (\<lambda>(k, v). kv_add V k v) xs m"
  using assms
proof (induction xs arbitrary: m rule: text_of.induct)
  case 1
  show ?case by (simp add: unflatten_loop.simps [of V "[]"] strchr_def)
next
  case (2 k v)
  then show ?case
    by (simp add: unflatten_loop.simps [of V "k @ CHR ''='' # v"] strchr_append clean_def
        strchr_None [THEN iffD2])
next
  case (3 k v x xs)
  then show ?case
    by (subst unflatten_loop.simps)
      (simp add: strchr_append clean_def upto_ptr_append [of v "CHR '';'' # r" for r])
qed

end
