(* ===== verification/CamParamsProps.thy ===== *)
theory CamParamsProps
  imports CamParams
begin

text \<open>
  The laws of the map class as an interface, the sorted list of entries that provides them, and the
  properties of the parameters: what every operation keeps, the round trip through the text form,
  the round trips of numbers and sizes, and the buffers they are printed to.
\<close>

section \<open>The map class\<close>

locale keyed_vector =
  fixes V :: "'m keyed_vector_ops" and ok :: "'m \<Rightarrow> bool"
  assumes distinct_keys: "ok m \<Longrightarrow> distinct (map fst (kv_items V m))"
    and clear_map: "ok m \<Longrightarrow> kv_map V (kv_clear V m) = Map.empty"
    and add_map: "ok m \<Longrightarrow> kv_map V (kv_add V k v m) = (kv_map V m)(k \<mapsto> v)"
    and replace_map: "ok m \<Longrightarrow> kv_map V (replaceValueFor V k v m) = (kv_map V m)(k \<mapsto> v)"
    and remove_map: "ok m \<Longrightarrow> kv_map V (removeItem V k m) = (kv_map V m)(k := None)"
    and value_of: "ok m \<Longrightarrow> valueFor V m k = (case kv_map V m k of None \<Rightarrow> '''' | Some v \<Rightarrow> v)"
    and ok_clear [simp]: "ok m \<Longrightarrow> ok (kv_clear V m)"
    and ok_add [simp]: "ok m \<Longrightarrow> ok (kv_add V k v m)"
    and ok_replace [simp]: "ok m \<Longrightarrow> ok (replaceValueFor V k v m)"
    and ok_remove [simp]: "ok m \<Longrightarrow> ok (removeItem V k m)"
begin

lemmas maps = clear_map add_map replace_map remove_map

lemma map_of_items: "ok m \<Longrightarrow> (k, v) \<in> set (kv_items V m) \<longleftrightarrow> kv_map V m k = Some v"
  using distinct_keys [of m] by (simp add: kv_map_def)

text \<open>An entry is clean when its text can be read back.\<close>

definition all_clean :: "'m \<Rightarrow> bool" where
  "all_clean m \<longleftrightarrow> (\<forall>k v. kv_map V m k = Some v \<longrightarrow> clean (k, v))"

lemma all_clean_items: "ok m \<Longrightarrow> all_clean m \<longleftrightarrow> (\<forall>kv\<in>set (kv_items V m). clean kv)"
  by (auto simp: all_clean_def map_of_items)

lemma fold_add:
  assumes "ok m"
  shows "ok (fold (\<lambda>(k, v). kv_add V k v) xs m)
    \<and> kv_map V (fold (\<lambda>(k, v). kv_add V k v) xs m) = kv_map V m ++ map_of (rev xs)"
  using assms by (induction xs arbitrary: m) (auto simp: add_map map_add_def fun_eq_iff split: option.splits)

lemma unflatten_flatten:
  assumes "ok m" "ok m'" "all_clean m"
  shows "kv_map V (unflatten V (flatten V m) m') = kv_map V m"
proof -
  have "kv_map V (unflatten V (flatten V m) m') = map_of (rev (kv_items V m))"
    using assms by (simp add: unflatten_def flatten_text_of unflatten_loop_text_of all_clean_items
        fold_add [THEN conjunct2] clear_map)
  also have "\<dots> = map_of (kv_items V m)"
    using distinct_keys [OF assms(1)]
    by (intro map_of_eqI) (auto simp: rev_map [symmetric] fun_eq_iff map_of_eq_Some_iff)
  finally show ?thesis by (simp add: kv_map_def)
qed

text \<open>What \<^verbatim>\<open>unflatten\<close> adds is clean, whatever it reads.\<close>

lemma all_clean_upd:
  assumes "all_clean m" "clean (k, v)" "kv_map V m' = (kv_map V m)(k \<mapsto> v)"
  shows "all_clean m'"
  using assms by (auto simp: all_clean_def split: if_splits)

lemma unflatten_loop_clean:
  assumes "ok m" "all_clean m"
  shows "ok (unflatten_loop V a m) \<and> all_clean (unflatten_loop V a m)"
  using assms
proof (induction a arbitrary: m rule: length_induct)
  case (1 a)
  show ?case
  proof (cases "strchr a CHR ''=''")
    case None
    then show ?thesis using 1 by (simp add: unflatten_loop.simps [of V a])
  next
    case (Some b)
    then obtain k r where a: "a = k @ CHR ''='' # r" "CHR ''='' \<notin> set k" "b = CHR ''='' # r"
      by (rule strchr_SomeE)
    show ?thesis
    proof (cases "strchr r CHR '';''")
      case None
      then have "clean (k, r)" using a(2) by (simp add: clean_def strchr_None)
      then have "all_clean (kv_add V k r m)"
        using all_clean_upd [of m k r] 1(2,3) by (simp add: add_map)
      moreover have "unflatten_loop V a m = kv_add V k r m"
        using None Some a by (subst unflatten_loop.simps) simp
      ultimately show ?thesis using 1(2) by simp
    next
      case semi: (Some c)
      then obtain v r' where r: "r = v @ CHR '';'' # r'" "CHR '';'' \<notin> set v" "c = CHR '';'' # r'"
        by (rule strchr_SomeE)
      have "all_clean (kv_add V k v m)"
        using a(2) r(2) 1(2,3) all_clean_upd [of m k v] by (simp add: add_map clean_def)
      moreover have "length r' < length a" using a r by simp
      ultimately have "ok (unflatten_loop V r' (kv_add V k v m))
          \<and> all_clean (unflatten_loop V r' (kv_add V k v m))"
        using 1(1,2) by (blast intro: ok_add)
      moreover have "unflatten_loop V a m = unflatten_loop V r' (kv_add V k v m)"
        using Some semi a r by (subst unflatten_loop.simps) simp
      ultimately show ?thesis by simp
    qed
  qed
qed

lemma unflatten_clean:
  assumes "ok m"
  shows "ok (unflatten V a m)" "all_clean (unflatten V a m)"
proof -
  have "all_clean (kv_clear V m)" using assms by (simp add: all_clean_def clear_map)
  with assms show "ok (unflatten V a m)" "all_clean (unflatten V a m)"
    by (simp_all add: unflatten_def unflatten_loop_clean)
qed

lemma set_param_clean:
  assumes "ok m" "all_clean m"
  shows "ok (set_param V k v m)" "all_clean (set_param V k v m)"
  using assms all_clean_upd [of m k v "replaceValueFor V k v m"]
  by (auto simp: set_param_def has_separator_def strchr_None clean_def replace_map)

lemma set_param_map:
  assumes "ok m" "\<not> has_separator k" "\<not> has_separator v"
  shows "kv_map V (set_param V k v m) = (kv_map V m)(k \<mapsto> v)"
  using assms by (simp add: set_param_def replace_map)

lemma get_param_map:
  assumes "ok m"
  shows "get_param V k m = (if kv_map V m k = Some '''' then None else kv_map V m k)"
  using assms by (simp add: get_param_def value_of split: option.splits)

end

section \<open>The map class as a sorted list\<close>

text \<open>What \<^verbatim>\<open>DefaultKeyedVector\<close> documents: the entries sorted by key, and an empty default.\<close>

fun entry_put :: "string \<Rightarrow> string \<Rightarrow> (string \<times> string) list \<Rightarrow> (string \<times> string) list" where
  "entry_put k v [] = [(k, v)]"
| "entry_put k v ((k', v') # xs) =
     (if k < k' then (k, v) # (k', v') # xs
      else if k = k' then (k, v) # xs
      else (k', v') # entry_put k v xs)"

definition entries_ok :: "(string \<times> string) list \<Rightarrow> bool" where
  "entries_ok xs \<longleftrightarrow> sorted_wrt (<) (map fst xs)"

definition sorted_vector :: "(string \<times> string) list keyed_vector_ops" where
  "sorted_vector = \<lparr>kv_clear = (\<lambda>xs. []), kv_size = length,
     keyAt = (\<lambda>xs i. fst (xs ! i)), valueAt = (\<lambda>xs i. snd (xs ! i)),
     kv_add = entry_put, replaceValueFor = entry_put,
     valueFor = (\<lambda>xs k. case map_of xs k of None \<Rightarrow> '''' | Some v \<Rightarrow> v),
     removeItem = (\<lambda>k. filter (\<lambda>e. fst e \<noteq> k))\<rparr>"

lemma set_entry_put: "fst ` set (entry_put k v xs) = insert k (fst ` set xs)"
proof (induction xs)
  case (Cons e xs)
  then show ?case by (cases e) (simp add: insert_commute)
qed simp

lemma entries_ok_Cons:
  "entries_ok ((k, v) # xs) \<longleftrightarrow> (\<forall>x\<in>fst ` set xs. k < x) \<and> entries_ok xs"
  by (simp add: entries_ok_def)

lemma entries_ok_put: "entries_ok xs \<Longrightarrow> entries_ok (entry_put k v xs)"
proof (induction xs)
  case (Cons e xs)
  then show ?case
    by (cases e) (fastforce simp: entries_ok_Cons set_entry_put intro: less_trans)
qed (simp add: entries_ok_def)

lemma map_of_entry_put: "entries_ok xs \<Longrightarrow> map_of (entry_put k v xs) = (map_of xs)(k \<mapsto> v)"
  by (induction xs) (auto simp: entries_ok_Cons fun_upd_twist)

lemma map_of_remove: "map_of (filter (\<lambda>e. fst e \<noteq> k) xs) = (map_of xs)(k := None)"
  by (induction xs) auto

lemma entries_distinct: "entries_ok xs \<Longrightarrow> distinct (map fst xs)"
  unfolding entries_ok_def by (induction xs) auto

lemma items_sorted_vector [simp]: "kv_items sorted_vector xs = xs"
  by (simp add: kv_items_def sorted_vector_def map_nth)

interpretation entries: keyed_vector sorted_vector entries_ok
proof
  fix m k v assume ok: "entries_ok m"
  show "distinct (map fst (kv_items sorted_vector m))" using ok by (simp add: entries_distinct)
  show "kv_map sorted_vector (kv_clear sorted_vector m) = Map.empty"
    by (simp add: kv_map_def) (simp add: sorted_vector_def)
  show "kv_map sorted_vector (kv_add sorted_vector k v m) = (kv_map sorted_vector m)(k \<mapsto> v)"
    "kv_map sorted_vector (replaceValueFor sorted_vector k v m) = (kv_map sorted_vector m)(k \<mapsto> v)"
    using ok by (simp_all add: kv_map_def) (simp_all add: sorted_vector_def map_of_entry_put)
  show "kv_map sorted_vector (removeItem sorted_vector k m) = (kv_map sorted_vector m)(k := None)"
    by (simp add: kv_map_def) (simp add: sorted_vector_def map_of_remove)
  show "valueFor sorted_vector m k
      = (case kv_map sorted_vector m k of None \<Rightarrow> '''' | Some v \<Rightarrow> v)"
    by (simp add: kv_map_def) (simp add: sorted_vector_def)
  show "entries_ok (kv_clear sorted_vector m)" "entries_ok (kv_add sorted_vector k v m)"
    "entries_ok (replaceValueFor sorted_vector k v m)" "entries_ok (removeItem sorted_vector k m)"
    using ok by (simp_all add: sorted_vector_def entries_ok_put)
      (simp_all add: entries_ok_def sorted_wrt_map sorted_wrt_filter)
qed

section \<open>Every sequence of operations\<close>

text \<open>The operations that change the map; every setter is one of the first two.\<close>

datatype param_call = Set_call string string | Set_int_call string int | Remove_call string
  | Unflatten_call string

fun run_call :: "'m keyed_vector_ops \<Rightarrow> param_call \<Rightarrow> 'm \<Rightarrow> 'm" where
  "run_call V (Set_call k v) m = set_param V k v m"
| "run_call V (Set_int_call k i) m = set_int V k i m"
| "run_call V (Remove_call k) m = remove_param V k m"
| "run_call V (Unflatten_call s) m = unflatten V s m"

context keyed_vector
begin

lemma remove_clean:
  assumes "ok m" "all_clean m"
  shows "ok (remove_param V k m)" "all_clean (remove_param V k m)"
  using assms by (simp_all add: remove_param_def all_clean_def remove_map)

lemma run_call_clean:
  assumes "ok m" "all_clean m"
  shows "ok (run_call V c m)" "all_clean (run_call V c m)"
  using assms
  by (cases c; simp add: set_param_clean set_int_def unflatten_clean remove_clean)+

lemma run_calls_clean:
  assumes "ok m" "all_clean m"
  shows "ok (fold (run_call V) cs m) \<and> all_clean (fold (run_call V) cs m)"
  using assms by (induction cs arbitrary: m) (simp_all add: run_call_clean)

lemma all_clean_empty: "isEmpty_params V m \<Longrightarrow> all_clean m"
  by (simp add: isEmpty_params_def all_clean_def kv_map_def kv_items_def)

lemma roundtrip:
  assumes "ok m" "isEmpty_params V m" "ok m'"
  shows "kv_map V (unflatten V (flatten V (fold (run_call V) cs m)) m')
    = kv_map V (fold (run_call V) cs m)"
  using run_calls_clean [OF assms(1) all_clean_empty [OF assms(2)], of cs]
  by (intro unflatten_flatten assms) simp_all

lemma get_set:
  assumes "ok m"
  shows "get_param V k' (set_param V k v m)
    = (if has_separator k \<or> has_separator v \<or> k' \<noteq> k then get_param V k' m
       else if v = '''' then None else Some v)"
proof (cases "has_separator k \<or> has_separator v")
  case True
  then have "set_param V k v m = m" by (auto simp: set_param_def)
  with True show ?thesis by auto
next
  case False
  with assms show ?thesis by (simp add: set_param_def get_param_map replace_map)
qed

end

section \<open>Numbers, sizes and formats\<close>

lemma no_separator_dec_nat: "CHR ''='' \<notin> set (dec_nat n)" "CHR '';'' \<notin> set (dec_nat n)"
  using isdigit_dec_nat [of "CHR ''=''" n] isdigit_dec_nat [of "CHR '';''" n]
  by (auto simp: isdigit_def)

lemma has_separator_format: "\<not> has_separator (format_d v)" "\<not> has_separator (format_size w h)"
  using no_separator_dec_nat
  by (auto simp: has_separator_def strchr_None format_d_def format_size_def)

lemma key_no_separator:
  "\<not> has_separator KEY_PREVIEW_SIZE" "\<not> has_separator KEY_VIDEO_SIZE"
  "\<not> has_separator KEY_PICTURE_SIZE" "\<not> has_separator KEY_PREVIEW_FRAME_RATE"
  by (simp_all add: key_defs has_separator_def strchr_def)

lemma int32_long:
  assumes "int32_range v" "32 \<le> L"
  shows "- (2 ^ (L - 1)) \<le> v" "v < 2 ^ (L - 1)"
proof -
  have "(2::int) ^ 31 \<le> 2 ^ (L - 1)" using assms(2) by (intro power_increasing) simp_all
  with assms(1) show "- (2 ^ (L - 1)) \<le> v" "v < 2 ^ (L - 1)" by (auto simp: int32_range_def)
qed

lemma parse_pair_format_size:
  assumes "int32_range w" "int32_range h" "32 \<le> L" "r = [] \<or> \<not> isdigit (hd r)"
  shows "parse_pair L (format_size w h @ r) CHR ''x'' = Some ((w, h), r)"
  using assms int32_long [of w L] int32_long [of h L]
  by (simp add: parse_pair_def format_size_def strtol10_format_d to_int_id isdigit_def)

context keyed_vector
begin

lemma get_pair_set_size:
  assumes "ok m" "int32_range w" "int32_range h" "32 \<le> L" "\<not> has_separator k"
  shows "get_pair L V k CHR ''x'' (set_size V k w h m) = (w, h)"
  using assms parse_pair_format_size [of w h L "[]"]
  by (simp add: get_pair_def set_size_def get_set has_separator_format) (simp add: format_size_def)

lemma get_pair_set_other:
  assumes "ok m" "k' \<noteq> k"
  shows "get_pair L V k' c (set_size V k w h m) = get_pair L V k' c m"
  using assms by (simp add: get_pair_def set_size_def get_set)

lemma getInt_set_int:
  assumes "ok m" "int32_range v" "32 \<le> L" "\<not> has_separator k"
  shows "getInt L V k (set_int V k v m) = v"
  using assms int32_long [of v L]
  by (auto simp: getInt_def set_int_def get_set has_separator_format strtol0_format_d to_int_id)
    (auto simp: format_d_def split: if_splits)

end

fun sizes_text :: "(int \<times> int) list \<Rightarrow> string" where
  "sizes_text [] = ''''"
| "sizes_text [(w, h)] = format_size w h"
| "sizes_text ((w, h) # xs) = format_size w h @ '','' @ sizes_text xs"

lemma parseSizesList_loop_text:
  assumes "32 \<le> L" "\<forall>(w, h)\<in>set xs. int32_range w \<and> int32_range h" "xs \<noteq> []"
    "r = [] \<or> \<not> isdigit (hd r) \<and> hd r \<noteq> CHR '',''"
  shows "parseSizesList_loop L (sizes_text xs @ r) acc
    = acc @ (if r = [] then xs else butlast xs)"
  using assms
proof (induction xs arbitrary: acc rule: sizes_text.induct)
  case (2 w h)
  then have "parse_pair L (format_size w h @ r) CHR ''x'' = Some ((w, h), r)"
    by (intro parse_pair_format_size) auto
  with 2(4) show ?case
    by (subst parseSizesList_loop.simps) auto
next
  case (3 w h x xs)
  have "parse_pair L (format_size w h @ CHR '','' # sizes_text (x # xs) @ r) CHR ''x''
      = Some ((w, h), CHR '','' # sizes_text (x # xs) @ r)"
    using 3 by (intro parse_pair_format_size) (auto simp: isdigit_def)
  with 3 show ?case
    by (subst parseSizesList_loop.simps) simp
qed simp

fun commas :: "string list \<Rightarrow> string" where
  "commas [] = ''''"
| "commas [s] = s"
| "commas (s # ss) = s @ '','' @ commas ss"

lemma strtok_piece:
  assumes "p \<noteq> []" "c \<notin> set p" "r = [] \<or> hd r = c"
  shows "strtok c (p @ r) = p # strtok c (tl r)"
proof -
  have "dropWhile (\<lambda>x. x = c) (p @ r) = p @ r" using assms by (cases p) auto
  moreover have "takeWhile (\<lambda>x. x \<noteq> c) (p @ r) = p @ takeWhile (\<lambda>x. x \<noteq> c) r"
    using assms(2) by (intro takeWhile_append2) auto
  moreover have "dropWhile (\<lambda>x. x \<noteq> c) (p @ r) = dropWhile (\<lambda>x. x \<noteq> c) r"
    using assms(2) by (intro dropWhile_append2) auto
  moreover have "takeWhile (\<lambda>x. x \<noteq> c) r = []" "dropWhile (\<lambda>x. x \<noteq> c) r = r"
    using assms(3) by (cases r; simp)+
  ultimately show ?thesis using assms by (subst strtok.simps) simp
qed

lemma strtok_Nil [simp]: "strtok c [] = []"
  by (subst strtok.simps) simp

lemma strtok_commas:
  assumes "\<forall>s\<in>set ss. s \<noteq> [] \<and> CHR '','' \<notin> set s"
  shows "strtok CHR '','' (commas ss) = ss"
  using assms
proof (induction ss rule: commas.induct)
  case (2 s)
  then show ?case using strtok_piece [of s "CHR '',''" "[]"] by simp
qed (simp_all add: strtok_piece)

lemma fold_formats:
  "fold (\<lambda>fmt fs. let actual = previewFormatToEnum P (Some fmt)
      in if actual \<noteq> - 1 then fs @ [actual] else fs) ss formats
    = formats @ filter (\<lambda>e. e \<noteq> - 1) (map (\<lambda>f. previewFormatToEnum P (Some f)) ss)"
  by (induction ss arbitrary: formats) (simp_all add: Let_def)

section \<open>Properties\<close>

text \<open>
  C17. The parameters survive their text form: after any sequence of calls of the setters, \<^verbatim>\<open>remove\<close>
  and \<^verbatim>\<open>unflatten\<close> of arbitrary text, on a new object, \<^verbatim>\<open>unflatten\<close> of the text \<^verbatim>\<open>flatten\<close> makes gives a
  map that answers every key as before, whatever map it is read into.
\<close>

theorem params_text_roundtrip:
  assumes "keyed_vector V ok" "ok m0" "isEmpty_params V m0" "ok m1"
  shows "kv_map V (unflatten V (flatten V (fold (run_call V) calls m0)) m1)
    = kv_map V (fold (run_call V) calls m0)"
  by (rule keyed_vector.roundtrip [OF assms])

theorem params_text_roundtrip_witness:
  "kv_map sorted_vector (unflatten sorted_vector (flatten sorted_vector
      (fold (run_call sorted_vector)
        [Unflatten_call '';a=b=c;zoom=3'', Set_call ''rotation'' ''90''] [])) [])
    = kv_map sorted_vector (fold (run_call sorted_vector)
        [Unflatten_call '';a=b=c;zoom=3'', Set_call ''rotation'' ''90''] [])"
  by (rule params_text_roundtrip [OF entries.keyed_vector_axioms])
    (simp_all add: entries_ok_def isEmpty_params_def sorted_vector_def)

text \<open>
  \<^verbatim>\<open>get\<close> after \<^verbatim>\<open>set\<close>: the value, or a null pointer for the empty value; a key or a value with a
  separator changes nothing, and no other key is changed.
\<close>

theorem params_get_set:
  assumes "keyed_vector V ok" "ok m"
  shows "get_param V k' (set_param V k v m)
    = (if has_separator k \<or> has_separator v \<or> k' \<noteq> k then get_param V k' m
       else if v = '''' then None else Some v)"
  by (rule keyed_vector.get_set [OF assms])

theorem params_get_set_witness:
  "get_param sorted_vector ''zoom'' (set_param sorted_vector ''zoom'' ''3;4'' [(''zoom'', ''1'')])
    = Some ''1''"
  using params_get_set [OF entries.keyed_vector_axioms, of "[(''zoom'', ''1'')]" "''zoom''" "''zoom''" "''3;4''"]
  by (simp add: entries_ok_def has_separator_def strchr_def get_param_def sorted_vector_def)

text \<open>
  C39. The sizes and the frame rate of the preview, the video and the picture read back as they were
  set, for all 32-bit numbers, where a \<^verbatim>\<open>long\<close> has at least 32 bits; setting the preview size leaves
  the other two.
\<close>

theorem params_sizes_roundtrip:
  assumes "keyed_vector V ok" "ok m" "int32_range w" "int32_range h" "32 \<le> L"
  shows "getPreviewSize L V (setPreviewSize V w h m) = (w, h)
    \<and> getVideoSize L V (setVideoSize V w h m) = (w, h)
    \<and> getPictureSize L V (setPictureSize V w h m) = (w, h)
    \<and> getPreviewFrameRate L V (setPreviewFrameRate V w m) = w
    \<and> getVideoSize L V (setPreviewSize V w h m) = getVideoSize L V m
    \<and> getPictureSize L V (setPreviewSize V w h m) = getPictureSize L V m"
  using assms(2-)
    keyed_vector.get_pair_set_size [OF assms(1-5) key_no_separator(1)]
    keyed_vector.get_pair_set_size [OF assms(1-5) key_no_separator(2)]
    keyed_vector.get_pair_set_size [OF assms(1-5) key_no_separator(3)]
    keyed_vector.getInt_set_int [OF assms(1,2,3,5) key_no_separator(4)]
  by (simp add: getPreviewSize_def setPreviewSize_def getVideoSize_def setVideoSize_def
      getPictureSize_def setPictureSize_def getPreviewFrameRate_def setPreviewFrameRate_def)
    (simp add: key_defs keyed_vector.get_pair_set_other [OF assms(1,2)])

theorem params_sizes_roundtrip_witness:
  "getPreviewSize 64 sorted_vector (setPreviewSize sorted_vector 640 (- 480) []) = (640, - 480)"
  using params_sizes_roundtrip [OF entries.keyed_vector_axioms, of "[]" 640 "- 480" 64]
  by (simp add: entries_ok_def int32_range_def)

text \<open>
  The character arrays the numbers and sizes are printed to hold every 32-bit number with the
  final zero: 16 characters in \<^verbatim>\<open>set(key, int)\<close>, 32 in the setters of a size.
\<close>

theorem params_print_buffers:
  assumes "int32_range w" "int32_range h"
  shows "length (format_d w) + 1 \<le> 16 \<and> length (format_size w h) + 1 \<le> 32"
  using length_format_d [OF assms(1)] length_format_d [OF assms(2)] by (simp add: format_size_def)

theorem params_print_buffers_witness: "length (format_size (- 2147483648) (- 2147483648)) + 1 \<le> 32"
  using params_print_buffers [of "- 2147483648" "- 2147483648"] by (simp add: int32_range_def)

text \<open>
  A list of sizes, as the drivers publish it, is read back and added to the vector; text that
  goes on with anything but a comma after a number loses the last size only, and text that does not
  begin with a size adds nothing.
\<close>

theorem params_sizes_list:
  assumes "32 \<le> L" "\<forall>(w, h)\<in>set xs. int32_range w \<and> int32_range h" "xs \<noteq> []"
  shows "parseSizesList L (Some (sizes_text xs)) acc = acc @ xs
    \<and> (\<not> isdigit c \<and> c \<noteq> CHR '','' \<longrightarrow>
        parseSizesList L (Some (sizes_text xs @ c # r)) acc = acc @ butlast xs)
    \<and> (\<not> isdigit c \<and> \<not> isspace c \<and> c \<notin> {CHR ''-'', CHR ''+'', CHR ''x''} \<longrightarrow>
        parseSizesList L (Some (c # r)) acc = acc)"
proof -
  have "parse_pair L (c # r) CHR ''x'' = None"
    if "\<not> isdigit c \<and> \<not> isspace c \<and> c \<notin> {CHR ''-'', CHR ''+'', CHR ''x''}"
    using that by (simp add: parse_pair_def strtol10_def Let_def)
  then show ?thesis
    using parseSizesList_loop_text [OF assms, of "[]" acc]
      parseSizesList_loop_text [OF assms, of "c # r" acc]
    by (auto simp: parseSizesList_def parseSizesList_loop.simps [of L "c # r"])
qed

theorem params_sizes_list_witness:
  "parseSizesList 64 (Some (sizes_text [(640, 480), (320, 240)] @ CHR ''*'' # [])) [(1, 2)]
    = [(1, 2), (640, 480)]"
  using params_sizes_list [of 64 "[(640, 480), (320, 240)]" "[(1, 2)]" "CHR ''*''" "[]"]
  by (simp add: int32_range_def isdigit_def)

text \<open>
  The supported preview formats are the constants of the known names of the list, in order.
\<close>

theorem params_formats:
  assumes "keyed_vector V ok" "ok m" "\<forall>s\<in>set ss. s \<noteq> [] \<and> CHR '','' \<notin> set s" "ss \<noteq> []"
    "\<not> has_separator (commas ss)"
  shows "getSupportedPreviewFormats P V (set_param V KEY_SUPPORTED_PREVIEW_FORMATS (commas ss) m) fs
    = fs @ filter (\<lambda>e. e \<noteq> - 1) (map (\<lambda>s. previewFormatToEnum P (Some s)) ss)"
proof -
  have "commas ss \<noteq> ''''" using assms(3,4) by (cases ss rule: commas.cases) auto
  moreover have "\<not> has_separator KEY_SUPPORTED_PREVIEW_FORMATS"
    by (simp add: key_defs has_separator_def strchr_def)
  ultimately show ?thesis
    using assms(5) by (simp add: getSupportedPreviewFormats_def keyed_vector.get_set [OF assms(1,2)]
        strtok_commas [OF assms(3)] fold_formats)
qed

theorem params_formats_witness:
  "getSupportedPreviewFormats \<lparr>YCrCb_420_SP = 17, YCbCr_422_SP = 16, YCbCr_422_I = 20, YV12 = 842094169,
      RGB_565 = 4, RGBA_8888 = 1, RAW16 = 32\<rparr> sorted_vector
      (set_param sorted_vector KEY_SUPPORTED_PREVIEW_FORMATS (commas [''yuv420sp'', ''jpeg'', ''yuv420p'']) []) []
    = [17, 842094169]"
  using params_formats [OF entries.keyed_vector_axioms, of "[]" "[''yuv420sp'', ''jpeg'', ''yuv420p'']"
      "\<lparr>YCrCb_420_SP = 17, YCbCr_422_SP = 16, YCbCr_422_I = 20, YV12 = 842094169,
        RGB_565 = 4, RGBA_8888 = 1, RAW16 = 32\<rparr>" "[]"]
  by (simp add: entries_ok_def has_separator_def strchr_def previewFormatToEnum_def)

end
