(* ===== verification/ExtraData.thy ===== *)
theory ExtraData
  imports "HOL-Library.Word" "HOL-Library.Monad_Syntax"
begin

text \<open>
  The extra data of video buffers (\<^verbatim>\<open>hardware/media/mm-video-v4l2/vidc/common/src/extra_data_handler.cpp\<close>):
  the bit reader and writer over the 100 bytes of \<^verbatim>\<open>rbsp_buf\<close>, Exp-Golomb codes, the frame packing
  message, the NAL unit around it, the slice table and the loop over the sections of a buffer.
  Memory is a list of bytes and an access outside of it is \<open>None\<close>, so a theorem that a result is
  \<open>Some\<close> says that no byte outside of the buffers is read or written.
\<close>

unbundle bit_operations_syntax

section \<open>Bytes, words and shifts\<close>

type_synonym u8 = "8 word"
type_synonym u32 = "32 word"

definition rd :: "u8 list \<Rightarrow> nat \<Rightarrow> u8 option" where
  "rd b i = (if i < length b then Some (b ! i) else None)"

definition wr :: "u8 list \<Rightarrow> nat \<Rightarrow> u8 \<Rightarrow> u8 list option" where
  "wr b i v = (if i < length b then Some (b[i := v]) else None)"

definition wr_bytes :: "u8 list \<Rightarrow> nat \<Rightarrow> u8 list \<Rightarrow> u8 list option" where
  "wr_bytes m off bs =
     (if off + length bs \<le> length m then Some (take off m @ bs @ drop (off + length bs) m) else None)"

text \<open>
  A 32-bit shift by 32 or more is undefined in C++: its value is a parameter, any function of the
  operands. Signed shifts and sums wrap.
\<close>

record oversize =
  over_left :: "u32 \<Rightarrow> nat \<Rightarrow> u32"
  over_right :: "u32 \<Rightarrow> nat \<Rightarrow> u32"

definition shl :: "oversize \<Rightarrow> u32 \<Rightarrow> nat \<Rightarrow> u32" where
  "shl X w n = (if n < 32 then push_bit n w else over_left X w n)"

definition shr :: "oversize \<Rightarrow> u32 \<Rightarrow> nat \<Rightarrow> u32" where
  "shr X w n = (if n < 32 then drop_bit n w else over_right X w n)"

text \<open>The difference of two 32-bit numbers.\<close>

definition minus32 :: "nat \<Rightarrow> nat \<Rightarrow> nat" where
  "minus32 a b = (if b \<le> a then a - b else 2 ^ 32 + a - b)"

section \<open>State\<close>

text \<open>The 18 words of \<^verbatim>\<open>OMX_QCOM_FRAME_PACK_ARRANGEMENT\<close> from \<^verbatim>\<open>id\<close> on.\<close>

record frame_pack =
  fp_id :: u32
  cancel_flag :: u32
  fp_type :: u32
  quincunx_sampling_flag :: u32
  content_interpretation_type :: u32
  spatial_flipping_flag :: u32
  frame0_flipped_flag :: u32
  field_views_flag :: u32
  current_frame_is_frame0_flag :: u32
  frame0_self_contained_flag :: u32
  frame1_self_contained_flag :: u32
  frame0_grid_position_x :: u32
  frame0_grid_position_y :: u32
  frame1_grid_position_x :: u32
  frame1_grid_position_y :: u32
  reserved_byte :: u32
  repetition_period :: u32
  extension_flag :: u32

record extra_data_handler =
  frame_packing_arrangement :: frame_pack
  rbsp_buf :: "u8 list"
  bit_ptr :: nat
  byte_ptr :: nat
  pack_sei :: bool
  sei_payload_type :: u32

definition SEI_PAYLOAD_FRAME_PACKING_ARRANGEMENT :: nat where
  "SEI_PAYLOAD_FRAME_PACKING_ARRANGEMENT = 45"
definition H264_START_CODE :: nat where "H264_START_CODE = 1"
definition NAL_TYPE_SEI :: nat where "NAL_TYPE_SEI = 6"
definition H264_EMULATION_BYTE :: nat where "H264_EMULATION_BYTE = 3"

lemmas h264_defs = SEI_PAYLOAD_FRAME_PACKING_ARRANGEMENT_def H264_START_CODE_def
  NAL_TYPE_SEI_def H264_EMULATION_BYTE_def

text \<open>The constructor leaves \<^verbatim>\<open>bit_ptr\<close> and \<^verbatim>\<open>byte_ptr\<close> as they are.\<close>

definition new_handler :: "nat \<Rightarrow> nat \<Rightarrow> extra_data_handler" where
  "new_handler bits bytes =
     \<lparr>frame_packing_arrangement =
        \<lparr>fp_id = 0, cancel_flag = 1, fp_type = 0, quincunx_sampling_flag = 0,
         content_interpretation_type = 0, spatial_flipping_flag = 0, frame0_flipped_flag = 0,
         field_views_flag = 0, current_frame_is_frame0_flag = 0, frame0_self_contained_flag = 0,
         frame1_self_contained_flag = 0, frame0_grid_position_x = 0, frame0_grid_position_y = 0,
         frame1_grid_position_x = 0, frame1_grid_position_y = 0, reserved_byte = 0,
         repetition_period = 0, extension_flag = 0\<rparr>,
      rbsp_buf = replicate 100 0, bit_ptr = bits, byte_ptr = bytes, pack_sei = False,
      sei_payload_type = - 1\<rparr>"

section \<open>Reading bits\<close>

text \<open>The loop of \<^verbatim>\<open>d_u\<close>: the remaining bits and \<^verbatim>\<open>bins\<close> at its end.\<close>

function d_u_loop :: "nat \<Rightarrow> u32 \<Rightarrow> nat \<Rightarrow> extra_data_handler \<Rightarrow> ((nat \<times> u32) \<times> extra_data_handler) option" where
  "d_u_loop rem bins shift h =
     (if bit_ptr h \<le> rem then do {
        let bins = push_bit shift bins;
        let shift = 8 - bit_ptr h;
        b \<leftarrow> rd (rbsp_buf h) (byte_ptr h);
        d_u_loop (rem - bit_ptr h) (bins OR ucast (drop_bit shift (push_bit shift b))) shift
          (h\<lparr>bit_ptr := 8, byte_ptr := byte_ptr h + 1\<rparr>) }
      else Some ((rem, bins), h))"
  by pat_completeness auto

termination
  by (relation "measures [\<lambda>(rem, bins, shift, h). rem, \<lambda>(rem, bins, shift, h). if bit_ptr h = 0 then 1 else 0]")
    auto

declare d_u_loop.simps [simp del]

definition d_u :: "nat \<Rightarrow> extra_data_handler \<Rightarrow> (u32 \<times> extra_data_handler) option" where
  "d_u num_bits h = do {
     ((rem, bins), h) \<leftarrow> d_u_loop num_bits 0 0 h;
     if rem \<noteq> 0 then do {
       b \<leftarrow> rd (rbsp_buf h) (byte_ptr h);
       let bins = push_bit rem bins OR ucast (drop_bit (8 - rem) (push_bit (8 - bit_ptr h) b));
       let h = h\<lparr>bit_ptr := bit_ptr h - rem\<rparr>;
       Some (bins, if bit_ptr h = 0 then h\<lparr>bit_ptr := 8, byte_ptr := byte_ptr h + 1\<rparr> else h) }
     else Some (bins, h) }"

text \<open>A read of one bit moves forward in the same buffer.\<close>

lemma d_u_1_forward:
  assumes "d_u (Suc 0) h = Some (b, h')"
  shows "rbsp_buf h' = rbsp_buf h \<and> byte_ptr h < length (rbsp_buf h)
    \<and> (byte_ptr h < byte_ptr h' \<or> byte_ptr h' = byte_ptr h \<and> bit_ptr h' < bit_ptr h)"
proof -
  consider "bit_ptr h = 0" | "bit_ptr h = 1" | "1 < bit_ptr h" by linarith
  then show ?thesis
    using assms by cases (simp_all add: d_u_def d_u_loop.simps rd_def Let_def
        split: bind_splits if_splits; auto)+
qed

function d_ue_zeros :: "nat \<Rightarrow> extra_data_handler \<Rightarrow> (nat \<times> extra_data_handler) option" where
  "d_ue_zeros lead_zeros h =
     (case d_u (Suc 0) h of None \<Rightarrow> None
      | Some (b, h) \<Rightarrow> if b = 0 then d_ue_zeros (lead_zeros + 1) h else Some (lead_zeros, h))"
  by pat_completeness auto

termination
  by (relation "measures [\<lambda>(z, h). length (rbsp_buf h) - byte_ptr h, \<lambda>(z, h). bit_ptr h]")
    (auto dest!: d_u_1_forward)

declare d_ue_zeros.simps [simp del]

definition d_ue :: "oversize \<Rightarrow> extra_data_handler \<Rightarrow> (u32 \<times> extra_data_handler) option" where
  "d_ue X h = do {
     (lead_zeros, h) \<leftarrow> d_ue_zeros 0 h;
     (v, h) \<leftarrow> d_u lead_zeros h;
     Some (shl X 1 lead_zeros - 1 + v, h) }"

text \<open>A field of the message: \<open>n\<close> bits stored by \<open>put\<close>.\<close>

definition get_u :: "nat \<Rightarrow> (u32 \<Rightarrow> frame_pack \<Rightarrow> frame_pack) \<Rightarrow> extra_data_handler \<Rightarrow> extra_data_handler option" where
  "get_u n put h = do {
     (v, h) \<leftarrow> d_u n h;
     Some (h\<lparr>frame_packing_arrangement := put v (frame_packing_arrangement h)\<rparr>) }"

definition get_ue :: "oversize \<Rightarrow> (u32 \<Rightarrow> frame_pack \<Rightarrow> frame_pack) \<Rightarrow> extra_data_handler \<Rightarrow> extra_data_handler option" where
  "get_ue X put h = do {
     (v, h) \<leftarrow> d_ue X h;
     Some (h\<lparr>frame_packing_arrangement := put v (frame_packing_arrangement h)\<rparr>) }"

text \<open>The condition under which the message has the four grid positions.\<close>

definition has_grid :: "frame_pack \<Rightarrow> bool" where
  "has_grid f \<longleftrightarrow> quincunx_sampling_flag f = 0 \<and> fp_type f \<noteq> 5"

definition parse_grid :: "extra_data_handler \<Rightarrow> extra_data_handler option" where
  "parse_grid h = do {
     h \<leftarrow> get_u 4 (\<lambda>v f. f\<lparr>frame0_grid_position_x := v\<rparr>) h;
     h \<leftarrow> get_u 4 (\<lambda>v f. f\<lparr>frame0_grid_position_y := v\<rparr>) h;
     h \<leftarrow> get_u 4 (\<lambda>v f. f\<lparr>frame1_grid_position_x := v\<rparr>) h;
     get_u 4 (\<lambda>v f. f\<lparr>frame1_grid_position_y := v\<rparr>) h }"

definition parse_flags :: "extra_data_handler \<Rightarrow> extra_data_handler option" where
  "parse_flags h = do {
     h \<leftarrow> get_u 7 (\<lambda>v f. f\<lparr>fp_type := v\<rparr>) h;
     h \<leftarrow> get_u 1 (\<lambda>v f. f\<lparr>quincunx_sampling_flag := v\<rparr>) h;
     h \<leftarrow> get_u 6 (\<lambda>v f. f\<lparr>content_interpretation_type := v\<rparr>) h;
     h \<leftarrow> get_u 1 (\<lambda>v f. f\<lparr>spatial_flipping_flag := v\<rparr>) h;
     h \<leftarrow> get_u 1 (\<lambda>v f. f\<lparr>frame0_flipped_flag := v\<rparr>) h;
     h \<leftarrow> get_u 1 (\<lambda>v f. f\<lparr>field_views_flag := v\<rparr>) h;
     h \<leftarrow> get_u 1 (\<lambda>v f. f\<lparr>current_frame_is_frame0_flag := v\<rparr>) h;
     h \<leftarrow> get_u 1 (\<lambda>v f. f\<lparr>frame0_self_contained_flag := v\<rparr>) h;
     get_u 1 (\<lambda>v f. f\<lparr>frame1_self_contained_flag := v\<rparr>) h }"

definition parse_frame_pack :: "oversize \<Rightarrow> extra_data_handler \<Rightarrow> extra_data_handler option" where
  "parse_frame_pack X h = do {
     h \<leftarrow> get_ue X (\<lambda>v f. f\<lparr>fp_id := v\<rparr>) h;
     h \<leftarrow> get_u 1 (\<lambda>v f. f\<lparr>cancel_flag := v\<rparr>) h;
     h \<leftarrow> if cancel_flag (frame_packing_arrangement h) = 0 then do {
            h \<leftarrow> parse_flags h;
            h \<leftarrow> if has_grid (frame_packing_arrangement h) then parse_grid h else Some h;
            h \<leftarrow> get_u 8 (\<lambda>v f. f\<lparr>reserved_byte := v\<rparr>) h;
            get_ue X (\<lambda>v f. f\<lparr>repetition_period := v\<rparr>) h }
          else Some h;
     get_u 1 (\<lambda>v f. f\<lparr>extension_flag := v\<rparr>) h }"

section \<open>Writing bits\<close>

function e_u_loop :: "oversize \<Rightarrow> u32 \<Rightarrow> nat \<Rightarrow> extra_data_handler \<Rightarrow> ((u32 \<times> nat) \<times> extra_data_handler) option" where
  "e_u_loop X symbol rem h =
     (if bit_ptr h \<le> rem then do {
        let shift = rem - bit_ptr h;
        b \<leftarrow> rd (rbsp_buf h) (byte_ptr h);
        buf \<leftarrow> wr (rbsp_buf h) (byte_ptr h) (b OR ucast (shr X symbol shift));
        e_u_loop X (shr X (shl X symbol (minus32 32 shift)) (minus32 32 shift)) (rem - bit_ptr h)
          (h\<lparr>rbsp_buf := buf, byte_ptr := byte_ptr h + 1, bit_ptr := 8\<rparr>) }
      else Some ((symbol, rem), h))"
  by pat_completeness auto

termination
  by (relation "measures [\<lambda>(X, symbol, rem, h). rem, \<lambda>(X, symbol, rem, h). if bit_ptr h = 0 then 1 else 0]")
    auto

declare e_u_loop.simps [simp del]

definition e_u :: "oversize \<Rightarrow> u32 \<Rightarrow> nat \<Rightarrow> extra_data_handler \<Rightarrow> extra_data_handler option" where
  "e_u X symbol num_bits h = do {
     ((symbol, rem), h) \<leftarrow> e_u_loop X symbol num_bits h;
     if rem \<noteq> 0 then do {
       let shift = bit_ptr h - rem;
       b \<leftarrow> rd (rbsp_buf h) (byte_ptr h);
       buf \<leftarrow> wr (rbsp_buf h) (byte_ptr h) (b OR ucast (push_bit shift symbol));
       let h = h\<lparr>rbsp_buf := buf, bit_ptr := bit_ptr h - rem\<rparr>;
       Some (if bit_ptr h = 0 then h\<lparr>bit_ptr := 8, byte_ptr := byte_ptr h + 1\<rparr> else h) }
     else Some h }"

text \<open>The loop of \<^verbatim>\<open>e_ue\<close>, which ends after at most \<open>k\<close> halvings.\<close>

fun halvings :: "nat \<Rightarrow> u32 \<Rightarrow> nat" where
  "halvings 0 nn = 0"
| "halvings (Suc k) nn = (if nn = 0 then 0 else Suc (halvings k (drop_bit 1 nn)))"

definition e_ue :: "oversize \<Rightarrow> u32 \<Rightarrow> extra_data_handler \<Rightarrow> extra_data_handler option" where
  "e_ue X symbol h =
     (let nn = drop_bit 1 (symbol + 1);
          i = halvings 33 nn;
          sym_len = 2 * i + 1;
          info = symbol + 1 - shl X 1 i;
          sufix_len = shl X 1 (sym_len div 2);
          info = sufix_len OR (info AND (sufix_len - 1))
      in e_u X info sym_len h)"

definition create_flags :: "oversize \<Rightarrow> frame_pack \<Rightarrow> extra_data_handler \<Rightarrow> extra_data_handler option" where
  "create_flags X f h = do {
     h \<leftarrow> e_u X (fp_type f) 7 h;
     h \<leftarrow> e_u X (quincunx_sampling_flag f) 1 h;
     h \<leftarrow> e_u X (content_interpretation_type f) 6 h;
     h \<leftarrow> e_u X (spatial_flipping_flag f) 1 h;
     h \<leftarrow> e_u X (frame0_flipped_flag f) 1 h;
     h \<leftarrow> e_u X (field_views_flag f) 1 h;
     h \<leftarrow> e_u X (current_frame_is_frame0_flag f) 1 h;
     h \<leftarrow> e_u X (frame0_self_contained_flag f) 1 h;
     e_u X (frame1_self_contained_flag f) 1 h }"

definition create_grid :: "oversize \<Rightarrow> frame_pack \<Rightarrow> extra_data_handler \<Rightarrow> extra_data_handler option" where
  "create_grid X f h = do {
     h \<leftarrow> e_u X (frame0_grid_position_x f) 4 h;
     h \<leftarrow> e_u X (frame0_grid_position_y f) 4 h;
     h \<leftarrow> e_u X (frame1_grid_position_x f) 4 h;
     e_u X (frame1_grid_position_y f) 4 h }"

definition create_frame_pack :: "oversize \<Rightarrow> extra_data_handler \<Rightarrow> extra_data_handler option" where
  "create_frame_pack X h =
     (let f = frame_packing_arrangement h in do {
        h \<leftarrow> e_ue X (fp_id f) h;
        h \<leftarrow> e_u X (cancel_flag f) 1 h;
        h \<leftarrow> if cancel_flag f = 0 then do {
               h \<leftarrow> create_flags X f h;
               h \<leftarrow> if has_grid f then create_grid X f h else Some h;
               h \<leftarrow> e_u X (reserved_byte f) 8 h;
               e_ue X (repetition_period f) h }
             else Some h;
        e_u X (extension_flag f) 1 h })"

section \<open>NAL units\<close>

text \<open>The loop of \<^verbatim>\<open>parse_rbsp\<close> that removes the emulation bytes, over the bytes from the pointer on.\<close>

function rbsp_loop :: "u8 list \<Rightarrow> nat \<Rightarrow> nat \<Rightarrow> nat \<Rightarrow> u8 list \<Rightarrow> u8 list option" where
  "rbsp_loop buf len i j out =
     (if i < len then do {
        b0 \<leftarrow> rd buf i;
        b1 \<leftarrow> rd buf (i + 1);
        escaped \<leftarrow> if unat b0 + unat b1 = 0 then do {
             b2 \<leftarrow> rd buf (i + 2);
             Some (unat b2 = H264_EMULATION_BYTE \<and> i + 2 < len) }
           else Some False;
        out \<leftarrow> wr out j b0;
        if escaped then do {
          out \<leftarrow> wr out (j + 1) b1;
          rbsp_loop buf len (i + 3) (j + 2) out }
        else rbsp_loop buf len (i + 1) (j + 1) out }
      else Some out)"
  by pat_completeness auto

termination
  by (relation "measure (\<lambda>(buf, len, i, j, out). len - i)") auto

declare rbsp_loop.simps [simp del]

text \<open>\<^verbatim>\<open>parse_rbsp\<close>: the type of the NAL unit, or -1.\<close>

definition parse_rbsp :: "u8 list \<Rightarrow> nat \<Rightarrow> extra_data_handler \<Rightarrow> (int \<times> extra_data_handler) option" where
  "parse_rbsp buf len h = do {
     let h = h\<lparr>bit_ptr := 8, byte_ptr := 0\<rparr>;
     b0 \<leftarrow> rd buf 0;
     b1 \<leftarrow> rd buf 1;
     b2 \<leftarrow> rd buf 2;
     let startcode = unat b0 * 2 ^ 16 + unat b1 * 2 ^ 8 + unat b2;
     (startcode, i) \<leftarrow> if startcode = 0 then do { b3 \<leftarrow> rd buf 3; Some (unat b3, 4) }
       else Some (startcode, 3);
     if startcode \<noteq> H264_START_CODE then Some (- 1, h)
     else do {
       b \<leftarrow> rd buf i;
       if drop_bit 7 (b AND 0x80) \<noteq> 0 then Some (- 1, h)
       else do {
         out \<leftarrow> rbsp_loop buf len (i + 1) 0 (rbsp_buf h);
         Some (uint (b AND 0x1F), h\<lparr>rbsp_buf := out\<rparr>) } } }"

text \<open>A number in the header of a message: bytes 255 and a last byte, added up.\<close>

function read_sum :: "u32 \<Rightarrow> extra_data_handler \<Rightarrow> (u32 \<times> extra_data_handler) option" where
  "read_sum acc h =
     (if byte_ptr h < length (rbsp_buf h) then
        let b = rbsp_buf h ! byte_ptr h; acc = acc + ucast b; h' = h\<lparr>byte_ptr := byte_ptr h + 1\<rparr>
        in if b = 0xFF then read_sum acc h' else Some (acc, h')
      else None)"
  by pat_completeness auto

termination
  by (relation "measure (\<lambda>(t, h). length (rbsp_buf h) - byte_ptr h)") auto

declare read_sum.simps [simp del]

text \<open>The marker and the padding after a message: whether they are right.\<close>

definition parse_trailing :: "extra_data_handler \<Rightarrow> (bool \<times> extra_data_handler) option" where
  "parse_trailing h =
     (if bit_ptr h \<noteq> 8 then do {
        (marker, h) \<leftarrow> d_u 1 h;
        if marker \<noteq> 0 then
          if bit_ptr h \<noteq> 8 then do {
            (pad, h) \<leftarrow> d_u (bit_ptr h) h;
            Some (pad = 0, h) }
          else Some (True, h)
        else Some (False, h) }
      else Some (True, h))"

definition parse_sei :: "oversize \<Rightarrow> u8 list \<Rightarrow> nat \<Rightarrow> extra_data_handler \<Rightarrow> (int \<times> extra_data_handler) option" where
  "parse_sei X buffer buffer_length h = do {
     (nal_unit_type, h) \<leftarrow> parse_rbsp buffer buffer_length h;
     if nal_unit_type \<noteq> int NAL_TYPE_SEI then Some (- 1, h)
     else do {
       (payload_type, h) \<leftarrow> read_sum 0 h;
       (payload_size, h) \<leftarrow> read_sum 0 h;
       h \<leftarrow> if unat payload_type = SEI_PAYLOAD_FRAME_PACKING_ARRANGEMENT then parse_frame_pack X h
           else Some h;
       (right, h) \<leftarrow> parse_trailing h;
       Some (if right then 1 else - 1, h) } }"

text \<open>The bytes \<^verbatim>\<open>create_rbsp\<close> writes for the payload, and its count of them.\<close>

function rbsp_bytes :: "u8 list \<Rightarrow> nat \<Rightarrow> nat \<Rightarrow> nat \<Rightarrow> (u8 list \<times> nat) option" where
  "rbsp_bytes rbsp n i j =
     (if i < n then do {
        b0 \<leftarrow> rd rbsp i;
        if i + 1 < n then do {
          b1 \<leftarrow> rd rbsp (i + 1);
          if unat b0 + unat b1 = 0 then do {
            (bs, j) \<leftarrow> rbsp_bytes rbsp n (i + 2) (j + 3);
            Some (b0 # b1 # of_nat H264_EMULATION_BYTE # bs, j) }
          else do {
            (bs, j) \<leftarrow> rbsp_bytes rbsp n (i + 2) (j + 2);
            Some (b0 # b1 # bs, j) } }
        else do {
          (bs, j) \<leftarrow> rbsp_bytes rbsp n (i + 2) (j + 1);
          Some (b0 # bs, j) } }
      else Some ([], j))"
  by pat_completeness auto

termination
  by (relation "measure (\<lambda>(rbsp, n, i, j). n - i)") auto

declare rbsp_bytes.simps [simp del]

definition create_rbsp :: "nat \<Rightarrow> extra_data_handler \<Rightarrow> (u8 list \<times> nat) option" where
  "create_rbsp nalu_type h = do {
     (bs, j) \<leftarrow> rbsp_bytes (rbsp_buf h) (byte_ptr h) 0 7;
     Some ([0, 0, 0, of_nat H264_START_CODE, of_nat nalu_type,
            ucast (sei_payload_type h AND 0xFF), of_nat (minus32 (byte_ptr h) 1)] @ bs, j) }"

definition align_message :: "oversize \<Rightarrow> extra_data_handler \<Rightarrow> extra_data_handler option" where
  "align_message X h =
     (if bit_ptr h \<noteq> 8 then do {
        h \<leftarrow> e_u X 1 1 h;
        if bit_ptr h \<noteq> 8 then e_u X 0 (bit_ptr h) h else Some h }
      else Some h)"

text \<open>\<^verbatim>\<open>create_sei\<close>: the bytes it writes to the buffer and the length it returns.\<close>

definition create_sei :: "oversize \<Rightarrow> extra_data_handler \<Rightarrow> ((u8 list \<times> nat) \<times> extra_data_handler) option" where
  "create_sei X h = do {
     let h = h\<lparr>byte_ptr := 0, bit_ptr := 8\<rparr>;
     (r, h) \<leftarrow> if unat (sei_payload_type h) = SEI_PAYLOAD_FRAME_PACKING_ARRANGEMENT then do {
           h \<leftarrow> create_frame_pack X h;
           h \<leftarrow> align_message X h;
           h \<leftarrow> e_u X 1 1 h;
           h \<leftarrow> e_u X 0 7 h;
           r \<leftarrow> create_rbsp NAL_TYPE_SEI h;
           Some (r, h) }
         else Some (([], 0), h);
     Some (r, h\<lparr>pack_sei := False, sei_payload_type := - 1\<rparr>) }"

definition set_frame_pack_data :: "frame_pack \<Rightarrow> extra_data_handler \<Rightarrow> extra_data_handler" where
  "set_frame_pack_data f h = h\<lparr>frame_packing_arrangement := f, pack_sei := True,
     sei_payload_type := of_nat SEI_PAYLOAD_FRAME_PACKING_ARRANGEMENT\<rparr>"

definition get_frame_pack_data :: "extra_data_handler \<Rightarrow> frame_pack" where
  "get_frame_pack_data h = frame_packing_arrangement h"

end
