(* ===== verification/ExtraBits.thy ===== *)
theory ExtraBits
  imports ExtraData
begin

text \<open>
  Bits of the byte buffer by position, most significant first, and what reading and writing bits does
  at a position. A handler whose pointers stand at bit position \<open>q\<close> of its buffer is \<open>at q h\<close>.
\<close>

section \<open>Positions\<close>

definition bitat :: "u8 list \<Rightarrow> nat \<Rightarrow> bool" where
  "bitat b k = bit (b ! (k div 8)) (7 - k mod 8)"

definition at :: "nat \<Rightarrow> extra_data_handler \<Rightarrow> extra_data_handler" where
  "at q h = h\<lparr>byte_ptr := q div 8, bit_ptr := 8 - q mod 8\<rparr>"

lemma at_simps [simp]:
  "rbsp_buf (at q h) = rbsp_buf h" "byte_ptr (at q h) = q div 8" "bit_ptr (at q h) = 8 - q mod 8"
  "frame_packing_arrangement (at q h) = frame_packing_arrangement h"
  "sei_payload_type (at q h) = sei_payload_type h" "pack_sei (at q h) = pack_sei h"
  "at q (at p h) = at q h"
  "at q (h\<lparr>rbsp_buf := b\<rparr>) = (at q h)\<lparr>rbsp_buf := b\<rparr>"
  "at q (h\<lparr>frame_packing_arrangement := f\<rparr>) = (at q h)\<lparr>frame_packing_arrangement := f\<rparr>"
  by (simp_all add: at_def)

lemma byte_pos [simp]: "r < 8 \<Longrightarrow> (8 * B + r) div 8 = B" "r < 8 \<Longrightarrow> (8 * B + r) mod 8 = r" for r :: nat
  by simp_all

lemma bitat_pos: "r < 8 \<Longrightarrow> bitat b (8 * B + r) = bit (b ! B) (7 - r)"
  by (simp add: bitat_def)

lemma at_self: "bit_ptr h = 8 \<Longrightarrow> h = at (8 * byte_ptr h) h"
  by (simp add: at_def)

lemma bit_u8 [simp]: "8 \<le> n \<Longrightarrow> \<not> bit (b :: u8) n"
  using bit_imp_le_length [of b n] by auto

text \<open>The bits of a byte after the first \<open>r\<close>, and of them the first \<open>n\<close>.\<close>

lemma bit_mid:
  fixes b :: u8
  assumes "r + n \<le> 8" "r < 8"
  shows "bit (ucast (drop_bit (8 - n) (push_bit r b)) :: u32) j \<longleftrightarrow> j < n \<and> bit b (8 - n - r + j)"
  using assms by (auto simp: bit_simps algebra_simps)

section \<open>Reading\<close>

definition window :: "u8 list \<Rightarrow> nat \<Rightarrow> nat \<Rightarrow> u32" where
  "window b q n = horner_sum of_bool 2 (map (\<lambda>j. bitat b (q + n - 1 - j)) [0..<n])"

lemma bit_window: "bit (window b q n) j \<longleftrightarrow> j < n \<and> j < 32 \<and> bitat b (q + n - 1 - j)"
  by (auto simp: window_def bit_horner_sum_bit_word_iff)

lemma window_0 [simp]: "window b q 0 = 0"
  by (simp add: window_def)

text \<open>The two parts of a read: the rest of the byte the pointers stand in, and the next byte.\<close>

lemma window_in_byte:
  assumes "r + n \<le> 8" "r < 8"
  shows "ucast (drop_bit (8 - n) (push_bit r (b ! B))) = window b (8 * B + r) n"
proof (rule bit_word_eqI)
  fix j
  have "bitat b (8 * B + r + n - 1 - j) = bit (b ! B) (8 - n - r + j)" if "j < n"
  proof -
    have "8 * B + r + n - 1 - j = 8 * B + (r + n - 1 - j)" "r + n - 1 - j < 8"
      "7 - (r + n - 1 - j) = 8 - n - r + j"
      using that assms by simp_all
    then show ?thesis by (simp only: bitat_pos)
  qed
  then show "bit (ucast (drop_bit (8 - n) (push_bit r (b ! B))) :: u32) j
      = bit (window b (8 * B + r) n) j"
    using assms by (auto simp: bit_mid bit_window)
qed

lemma window_append:
  assumes "m + n \<le> 32"
  shows "push_bit n (window b q m) OR window b (q + m) n = window b q (m + n)"
proof (rule bit_word_eqI)
  fix j
  show "bit (push_bit n (window b q m) OR window b (q + m) n) j = bit (window b q (m + n)) j"
    using assms by (cases "j < n") (auto simp: bit_simps bit_window algebra_simps)
qed

lemma d_u_loop_done: "rem < bit_ptr h \<Longrightarrow> d_u_loop rem bins shift h = Some ((rem, bins), h)"
  by (simp add: d_u_loop.simps)

lemma d_u_at_pos:
  assumes r: "r < 8" and n: "n < 8 - r + 8" and len: "8 * B + r + n \<le> 8 * length (rbsp_buf h)"
  shows "d_u n (at (8 * B + r) h) = Some (window (rbsp_buf h) (8 * B + r) n, at (8 * B + (r + n)) h)"
proof (cases "n < 8 - r")
  case True
  show ?thesis
  proof (cases "n = 0")
    case False
    with True len have "B < length (rbsp_buf h)" by simp
    with True False r show ?thesis
      using window_in_byte [of r n "rbsp_buf h" B]
      by (simp add: d_u_def d_u_loop.simps rd_def Let_def at_def)
  qed (use r in \<open>simp add: d_u_def d_u_loop.simps at_def\<close>)
next
  case False
  define rem where "rem = n - (8 - r)"
  have n_eq: "n = (8 - r) + rem" and rem: "rem < 8" using False n by (simp_all add: rem_def)
  have B: "B < length (rbsp_buf h)" using len n_eq r by linarith
  have first: "ucast (drop_bit r (push_bit r (rbsp_buf h ! B))) = window (rbsp_buf h) (8 * B + r) (8 - r)"
    using window_in_byte [of r "8 - r" "rbsp_buf h" B] r by simp
  have loop: "d_u_loop n 0 0 (at (8 * B + r) h)
      = Some ((rem, window (rbsp_buf h) (8 * B + r) (8 - r)), at (8 * (B + 1)) h)"
    using B False r rem first
    by (subst d_u_loop.simps) (simp add: d_u_loop_done rd_def at_def rem_def)
  show ?thesis
  proof (cases "rem = 0")
    case True
    then show ?thesis using loop r n_eq by (simp add: d_u_def)
  next
    case False
    then have B1: "B + 1 < length (rbsp_buf h)" using len n_eq r by linarith
    have second: "ucast (drop_bit (8 - rem) (rbsp_buf h ! (B + 1)))
        = window (rbsp_buf h) (8 * (B + 1)) rem"
      using window_in_byte [of 0 rem "rbsp_buf h" "B + 1"] rem by simp
    have "push_bit rem (window (rbsp_buf h) (8 * B + r) (8 - r))
        OR window (rbsp_buf h) (8 * (B + 1)) rem = window (rbsp_buf h) (8 * B + r) n"
      using window_append [of "8 - r" rem "rbsp_buf h" "8 * B + r"] r rem n_eq
      by (simp add: algebra_simps)
    moreover have "(8 * (B + 1) + rem) div 8 = B + 1" "(8 * (B + 1) + rem) mod 8 = rem"
      using rem by (simp_all only: byte_pos)
    moreover have "8 * B + (r + n) = 8 * (B + 1) + rem" using n_eq r by simp
    ultimately show ?thesis
      using loop False B1 rem second
      by (simp add: d_u_def rd_def at_def)
  qed
qed

lemma d_u_at:
  assumes "n < 8 - q mod 8 + 8" "q + n \<le> 8 * length (rbsp_buf h)"
  shows "d_u n (at q h) = Some (window (rbsp_buf h) q n, at (q + n) h)"
proof -
  have q: "q = 8 * (q div 8) + q mod 8" by simp
  show ?thesis
    using d_u_at_pos [of "q mod 8" n "q div 8" h] assms unfolding q [symmetric]
    by (simp add: add.assoc [symmetric])
qed

section \<open>Writing\<close>

text \<open>\<open>b'\<close> is \<open>b\<close> with the \<open>n\<close> bits of \<open>w\<close> set, in addition to its own, from position \<open>q\<close> on.\<close>

definition wrote :: "u8 list \<Rightarrow> u8 list \<Rightarrow> nat \<Rightarrow> nat \<Rightarrow> u32 \<Rightarrow> bool" where
  "wrote b b' q n w \<longleftrightarrow> length b' = length b
     \<and> (\<forall>k. bitat b' k \<longleftrightarrow> bitat b k \<or> q \<le> k \<and> k < q + n \<and> bit w (n - 1 - (k - q)))"

definition fits :: "u32 \<Rightarrow> nat \<Rightarrow> bool" where
  "fits w n \<longleftrightarrow> (\<forall>j\<ge>n. \<not> bit w j)"

lemma fits_less:
  assumes "unat w < 2 ^ n"
  shows "fits w n"
  unfolding fits_def
proof (intro allI impI notI)
  fix j assume "n \<le> j" "bit w j"
  then have "bit (unat w) j" by (simp add: bit_unsigned_iff bit_imp_le_length)
  then have "2 ^ j \<le> unat w" by (simp add: bit_iff_odd) (metis div_less even_zero not_le)
  moreover have "(2::nat) ^ n \<le> 2 ^ j" using \<open>n \<le> j\<close> by simp
  ultimately show False using assms by simp
qed

lemma wrote_0: "wrote b b q 0 w"
  by (auto simp: wrote_def)

lemma wrote_append:
  assumes "wrote b b1 q m (drop_bit k w)" "wrote b1 b2 (q + m) k (take_bit k w)"
  shows "wrote b b2 q (m + k) w"
proof -
  have "bitat b2 x \<longleftrightarrow> bitat b x \<or> q \<le> x \<and> x < q + (m + k) \<and> bit w (m + k - 1 - (x - q))" for x
  proof (cases "x < q + m")
    case True
    then have "q \<le> x \<Longrightarrow> k + (m - 1 - (x - q)) = m + k - 1 - (x - q)" by linarith
    with True assms show ?thesis by (auto simp: wrote_def bit_simps)
  next
    case False
    then have "x < q + (m + k) \<Longrightarrow> k - 1 - (x - (q + m)) = m + k - 1 - (x - q)" by linarith
    with False assms show ?thesis by (auto simp: wrote_def bit_simps)
  qed
  with assms show ?thesis by (simp add: wrote_def)
qed

lemma bitat_or:
  assumes "B < length b"
  shows "bitat (b[B := b ! B OR v]) k \<longleftrightarrow> bitat b k \<or> k div 8 = B \<and> bit v (7 - k mod 8)"
  using assms by (cases "k div 8 = B") (auto simp: bitat_def bit_simps)

text \<open>A write into one byte.\<close>

lemma wrote_byte:
  assumes "B < length b" "r + n \<le> 8" "r < 8"
    and v: "\<And>i. i < 8 \<Longrightarrow> bit v i \<longleftrightarrow> 8 - r - n \<le> i \<and> i < 8 - r \<and> bit w (i - (8 - r - n))"
  shows "wrote b (b[B := b ! B OR v]) (8 * B + r) n w"
proof -
  have "k div 8 = B \<and> bit v (7 - k mod 8)
      \<longleftrightarrow> 8 * B + r \<le> k \<and> k < 8 * B + r + n \<and> bit w (n - 1 - (k - (8 * B + r)))" for k
  proof (cases "k div 8 = B")
    case True
    then obtain t where k: "k = 8 * B + t" "t < 8" by (metis mod_less_divisor mult_div_mod_eq zero_less_numeral)
    then have "k mod 8 = t" by simp
    moreover have "r \<le> t \<Longrightarrow> t < r + n \<Longrightarrow> 7 - t - (8 - r - n) = n - 1 - (k - (8 * B + r))"
      using k assms by linarith
    ultimately show ?thesis using k assms(2,3) v [of "7 - t"] True by auto
  next
    case False
    then have "k < 8 * B \<or> 8 * B + 8 \<le> k" by (metis add.commute div_nat_eqI mult.commute mult_Suc not_less times_nat.simps(2))
    with False show ?thesis using assms by auto
  qed
  then show ?thesis using assms by (simp add: wrote_def bitat_or)
qed

lemma e_u_loop_done: "rem < bit_ptr h \<Longrightarrow> e_u_loop X w rem h = Some ((w, rem), h)"
  by (simp add: e_u_loop.simps)

lemma e_u_0: "0 < bit_ptr h \<Longrightarrow> e_u X w 0 h = Some h"
  by (simp add: e_u_def e_u_loop_done)

text \<open>The two branches of a write: a byte is filled, or bits are added to a byte.\<close>

definition next_symbol :: "oversize \<Rightarrow> u32 \<Rightarrow> nat \<Rightarrow> u32" where
  "next_symbol X w k = shr X (shl X w (minus32 32 k)) (minus32 32 k)"

lemma e_u_fill:
  assumes "r < 8" "8 - r \<le> n" "B < length (rbsp_buf h)"
  shows "e_u X w n (at (8 * B + r) h)
    = e_u X (next_symbol X w (n - (8 - r))) (n - (8 - r)) (at (8 * (B + 1)) (h\<lparr>rbsp_buf :=
        (rbsp_buf h)[B := rbsp_buf h ! B OR ucast (shr X w (n - (8 - r)))]\<rparr>))"
  using assms unfolding e_u_def [of X w] next_symbol_def
  by (subst e_u_loop.simps) (simp add: e_u_def rd_def wr_def Let_def at_def)

lemma e_u_tail:
  assumes "r < 8" "n < 8 - r" "0 < n" "B < length (rbsp_buf h)"
  shows "e_u X w n (at (8 * B + r) h)
    = Some (at (8 * B + (r + n)) (h\<lparr>rbsp_buf :=
        (rbsp_buf h)[B := rbsp_buf h ! B OR ucast (push_bit (8 - r - n) w)]\<rparr>))"
  using assms by (simp add: e_u_def e_u_loop_done rd_def wr_def Let_def at_def)

text \<open>Writes never leave the buffer while there is room, whatever the symbol and the shifts do.\<close>

definition keeps_bits :: "u8 list \<Rightarrow> u8 list \<Rightarrow> bool" where
  "keeps_bits b b' \<longleftrightarrow> length b' = length b \<and> (\<forall>k. bitat b k \<longrightarrow> bitat b' k)"

lemma keeps_bits_refl [simp]: "keeps_bits b b"
  by (simp add: keeps_bits_def)

lemma keeps_bits_trans: "keeps_bits b b1 \<Longrightarrow> keeps_bits b1 b2 \<Longrightarrow> keeps_bits b b2"
  by (simp add: keeps_bits_def)

lemma keeps_bits_or: "B < length b \<Longrightarrow> keeps_bits b (b[B := b ! B OR v])"
  by (simp add: keeps_bits_def bitat_or)

lemma e_u_some_pos:
  assumes "r < 8" "8 * B + r + n \<le> 8 * length (rbsp_buf h)"
  shows "\<exists>b'. e_u X w n (at (8 * B + r) h) = Some (at (8 * B + (r + n)) (h\<lparr>rbsp_buf := b'\<rparr>))
    \<and> keeps_bits (rbsp_buf h) b'"
  using assms
proof (induction n arbitrary: B r h w rule: less_induct)
  case (less n)
  consider "n = 0" | "0 < n" "n < 8 - r" | "8 - r \<le> n" by linarith
  then show ?case
  proof cases
    case 1
    then show ?thesis using less.prems by (intro exI [of _ "rbsp_buf h"]) (simp add: e_u_0)
  next
    case 2
    then have "B < length (rbsp_buf h)" using less.prems by linarith
    then show ?thesis using e_u_tail [OF less.prems(1) 2(2,1), of B h X w]
      by (intro exI [of _ "(rbsp_buf h)[B := rbsp_buf h ! B OR ucast (push_bit (8 - r - n) w)]"])
        (simp add: keeps_bits_or)
  next
    case 3
    then have B: "B < length (rbsp_buf h)" using less.prems by linarith
    let ?b = "(rbsp_buf h)[B := rbsp_buf h ! B OR ucast (shr X w (n - (8 - r)))]"
    let ?h = "h\<lparr>rbsp_buf := ?b\<rparr>"
    have "\<exists>b'. e_u X (next_symbol X w (n - (8 - r))) (n - (8 - r)) (at (8 * (B + 1) + 0) ?h)
        = Some (at (8 * (B + 1) + (0 + (n - (8 - r)))) (?h\<lparr>rbsp_buf := b'\<rparr>))
        \<and> keeps_bits (rbsp_buf ?h) b'"
      using 3 less.prems by (intro less.IH) simp_all
    then obtain b' where b': "e_u X (next_symbol X w (n - (8 - r))) (n - (8 - r)) (at (8 * (B + 1)) ?h)
        = Some (at (8 * (B + 1) + (n - (8 - r))) (h\<lparr>rbsp_buf := b'\<rparr>))" "keeps_bits ?b b'"
      by auto
    have "8 * (B + 1) + (n - (8 - r)) = 8 * B + (r + n)" using 3 less.prems(1) by simp
    moreover have "keeps_bits (rbsp_buf h) b'"
      by (rule keeps_bits_trans [OF keeps_bits_or [OF B] b'(2)])
    ultimately show ?thesis
      using e_u_fill [OF less.prems(1) 3 B, of X w] b'(1) by (intro exI [of _ b']) (simp add: add.commute [of n r])
  qed
qed

lemma e_u_some:
  assumes "q + n \<le> 8 * length (rbsp_buf h)"
  shows "\<exists>b'. e_u X w n (at q h) = Some (at (q + n) (h\<lparr>rbsp_buf := b'\<rparr>))
    \<and> keeps_bits (rbsp_buf h) b'"
  using e_u_some_pos [of "q mod 8" "q div 8" n h X w] assms by (simp add: add.assoc [symmetric])

text \<open>A symbol of at most \<open>n\<close> bits is written as its bits, the most significant first.\<close>

lemma next_symbol_take:
  assumes "0 < k" "k < 32"
  shows "next_symbol X w k = take_bit k w"
proof -
  have "next_symbol X w k = drop_bit (32 - k) (push_bit (32 - k) w)"
    using assms by (simp add: next_symbol_def minus32_def shr_def shl_def)
  also have "\<dots> = take_bit k w"
    using assms by (intro bit_word_eqI) (auto simp: bit_simps)
  finally show ?thesis .
qed

lemma e_u_wrote_pos:
  assumes "r < 8" "8 * B + r + n \<le> 8 * length (rbsp_buf h)" "fits w n" "n < 32 + (8 - r)"
  shows "\<exists>b'. e_u X w n (at (8 * B + r) h) = Some (at (8 * B + (r + n)) (h\<lparr>rbsp_buf := b'\<rparr>))
    \<and> wrote (rbsp_buf h) b' (8 * B + r) n w"
  using assms
proof (induction n arbitrary: B r h w rule: less_induct)
  case (less n)
  have bits: "bit w j \<Longrightarrow> j < n" for j using less.prems(3) by (auto simp: fits_def not_le)
  consider "n = 0" | "0 < n" "n < 8 - r" | "8 - r \<le> n" by linarith
  then show ?case
  proof cases
    case 1
    then show ?thesis
      using less.prems by (intro exI [of _ "rbsp_buf h"]) (simp add: e_u_0 wrote_0)
  next
    case 2
    then have B: "B < length (rbsp_buf h)" using less.prems by linarith
    have "wrote (rbsp_buf h) ((rbsp_buf h)[B := rbsp_buf h ! B OR ucast (push_bit (8 - r - n) w)])
        (8 * B + r) n w"
      using B 2 less.prems(1) by (intro wrote_byte) (auto simp: bit_simps dest: bits)
    then show ?thesis
      using e_u_tail [OF less.prems(1) 2(2,1) B, of X w] by (intro exI conjI) simp_all
  next
    case 3
    then have B: "B < length (rbsp_buf h)" using less.prems by linarith
    define k where "k = n - (8 - r)"
    have n: "n = (8 - r) + k" "k < n" "k < 32" using 3 less.prems by (simp_all add: k_def)
    let ?b = "(rbsp_buf h)[B := rbsp_buf h ! B OR ucast (shr X w k)]"
    have w1: "wrote (rbsp_buf h) ?b (8 * B + r) (8 - r) (drop_bit k w)"
      using B less.prems(1) n by (intro wrote_byte) (auto simp: bit_simps shr_def dest: bits)
    have step: "e_u X w n (at (8 * B + r) h)
        = e_u X (next_symbol X w k) k (at (8 * (B + 1)) (h\<lparr>rbsp_buf := ?b\<rparr>))"
      using e_u_fill [OF less.prems(1) 3 B, of X w] by (simp add: k_def)
    have pos: "8 * B + r + (8 - r) = 8 * (B + 1)" "8 * B + (r + n) = 8 * (B + 1) + (0 + k)"
      using less.prems(1) n by simp_all
    show ?thesis
    proof (cases "k = 0")
      case True
      then have "8 - r = n" "8 * B + (r + n) = 8 * (B + 1)" using n pos by simp_all
      then show ?thesis using step w1 True
        by (intro exI [of _ ?b]) (simp add: e_u_0)
    next
      case False
      have "\<exists>b'. e_u X (take_bit k w) k (at (8 * (B + 1) + 0) (h\<lparr>rbsp_buf := ?b\<rparr>))
          = Some (at (8 * (B + 1) + (0 + k)) (h\<lparr>rbsp_buf := ?b\<rparr>\<lparr>rbsp_buf := b'\<rparr>))
          \<and> wrote (rbsp_buf (h\<lparr>rbsp_buf := ?b\<rparr>)) b' (8 * (B + 1) + 0) k (take_bit k w)"
        using n less.prems pos by (intro less.IH) (simp_all add: fits_def bit_simps)
      then obtain b' where b': "e_u X (take_bit k w) k (at (8 * (B + 1)) (h\<lparr>rbsp_buf := ?b\<rparr>))
          = Some (at (8 * (B + 1) + (0 + k)) (h\<lparr>rbsp_buf := b'\<rparr>))"
          "wrote ?b b' (8 * B + r + (8 - r)) k (take_bit k w)"
        unfolding pos by auto
      have "wrote (rbsp_buf h) b' (8 * B + r) (8 - r + k) w"
        by (rule wrote_append [OF w1 b'(2)])
      then have "wrote (rbsp_buf h) b' (8 * B + r) n w" using n(1) by simp
      moreover have "next_symbol X w k = take_bit k w" using False n(3) by (simp add: next_symbol_take)
      ultimately show ?thesis
        using step b'(1) unfolding pos by (intro exI [of _ b']) simp
    qed
  qed
qed

lemma e_u_wrote:
  assumes "q + n \<le> 8 * length (rbsp_buf h)" "fits w n" "n < 32 + (8 - q mod 8)"
  shows "\<exists>b'. e_u X w n (at q h) = Some (at (q + n) (h\<lparr>rbsp_buf := b'\<rparr>))
    \<and> wrote (rbsp_buf h) b' q n w"
  using e_u_wrote_pos [of "q mod 8" "q div 8" n h w X] assms by (simp add: add.assoc [symmetric])

section \<open>Fields\<close>

text \<open>
  The fields of a message are widths and symbols. A buffer holds them from a position on; the rest of
  a buffer that is written to is clear.
\<close>

definition clear_from :: "nat \<Rightarrow> u8 list \<Rightarrow> bool" where
  "clear_from q b \<longleftrightarrow> (\<forall>k\<ge>q. k < 8 * length b \<longrightarrow> \<not> bitat b k)"

fun has_fields :: "u8 list \<Rightarrow> nat \<Rightarrow> (nat \<times> u32) list \<Rightarrow> bool" where
  "has_fields b q [] \<longleftrightarrow> True"
| "has_fields b q ((n, w) # fs) \<longleftrightarrow> window b q n = w \<and> has_fields b (q + n) fs"

fun width :: "(nat \<times> u32) list \<Rightarrow> nat" where
  "width [] = 0"
| "width ((n, w) # fs) = n + width fs"

fun put_fields :: "oversize \<Rightarrow> (nat \<times> u32) list \<Rightarrow> extra_data_handler \<Rightarrow> extra_data_handler option" where
  "put_fields X [] h = Some h"
| "put_fields X ((n, w) # fs) h = do { h \<leftarrow> e_u X w n h; put_fields X fs h }"

lemma put_fields_Nil: "put_fields X [] = Some"
  by (rule ext) simp

lemma has_fields_append:
  "has_fields b q (fs @ gs) \<longleftrightarrow> has_fields b q fs \<and> has_fields b (q + width fs) gs"
  by (induction fs arbitrary: q) (auto simp: add.assoc)

lemma width_append [simp]: "width (fs @ gs) = width fs + width gs"
  by (induction fs) auto

lemma put_fields_append: "put_fields X (fs @ gs) h = put_fields X fs h \<bind> put_fields X gs"
proof (induction fs arbitrary: h)
  case (Cons f fs)
  then show ?case by (cases f) (simp split: bind_split)
qed simp

text \<open>A field can be written where the shifts stay below 32.\<close>

definition writable :: "nat \<times> u32 \<Rightarrow> bool" where
  "writable f \<longleftrightarrow> fits (snd f) (fst f) \<and> fst f \<le> 32"

lemma window_wrote:
  assumes "wrote b b' q n w" "clear_from q b" "fits w n" "n \<le> 32" "q + n \<le> 8 * length b"
  shows "window b' q n = w" "clear_from (q + n) b'"
    "k < q \<Longrightarrow> bitat b' k = bitat b k" "length b' = length b"
proof -
  show "window b' q n = w"
  proof (rule bit_word_eqI)
    fix j
    have "bitat b' (q + n - 1 - j) = bit w j" if "j < n"
    proof -
      have "n - 1 - (q + n - 1 - j - q) = j" "q \<le> q + n - 1 - j" "q + n - 1 - j < q + n"
        using that by linarith+
      then show ?thesis using assms(1,2,5) by (simp add: wrote_def clear_from_def)
    qed
    moreover have "bit w j \<Longrightarrow> j < n" using assms(3) by (auto simp: fits_def not_le)
    ultimately show "bit (window b' q n) j = bit w j"
      using assms(4) by (auto simp: bit_window)
  qed
qed (use assms in \<open>auto simp: wrote_def clear_from_def\<close>)

lemma window_cong:
  "(\<And>k. q \<le> k \<Longrightarrow> k < q + n \<Longrightarrow> bitat b k = bitat b' k) \<Longrightarrow> window b q n = window b' q n"
  by (rule bit_word_eqI) (auto simp: bit_window)

lemma has_fields_cong:
  "(\<And>k. q \<le> k \<Longrightarrow> k < q + width fs \<Longrightarrow> bitat b k = bitat b' k) \<Longrightarrow> has_fields b q fs = has_fields b' q fs"
proof (induction fs arbitrary: q)
  case (Cons f fs)
  obtain n w where f: "f = (n, w)" by (cases f)
  have "window b q n = window b' q n" using Cons.prems f by (intro window_cong) simp
  moreover have "has_fields b (q + n) fs = has_fields b' (q + n) fs"
    using Cons.prems f by (intro Cons.IH) simp
  ultimately show ?case using f by simp
qed simp

lemma put_fields_at:
  assumes "\<forall>f\<in>set fs. writable f" "q + width fs \<le> 8 * length (rbsp_buf h)"
    "clear_from q (rbsp_buf h)"
  shows "\<exists>b'. put_fields X fs (at q h) = Some (at (q + width fs) (h\<lparr>rbsp_buf := b'\<rparr>))
    \<and> length b' = length (rbsp_buf h) \<and> clear_from (q + width fs) b' \<and> has_fields b' q fs
    \<and> (\<forall>k<q. bitat b' k = bitat (rbsp_buf h) k)"
  using assms
proof (induction fs arbitrary: q h)
  case Nil
  then show ?case by (intro exI [of _ "rbsp_buf h"]) simp
next
  case (Cons f fs)
  obtain n w where f: "f = (n, w)" by (cases f)
  have "q mod 8 < 8" by simp
  have nw: "fits w n" "n \<le> 32" "q + n \<le> 8 * length (rbsp_buf h)"
    using Cons.prems f by (simp_all add: writable_def)
  then obtain b where b: "e_u X w n (at q h) = Some (at (q + n) (h\<lparr>rbsp_buf := b\<rparr>))"
      "wrote (rbsp_buf h) b q n w"
    using e_u_wrote [of q n h w X] \<open>q mod 8 < 8\<close> by force
  note w = window_wrote [OF b(2) Cons.prems(3) nw]
  have "\<exists>b'. put_fields X fs (at (q + n) (h\<lparr>rbsp_buf := b\<rparr>))
        = Some (at (q + n + width fs) (h\<lparr>rbsp_buf := b\<rparr>\<lparr>rbsp_buf := b'\<rparr>))
      \<and> length b' = length (rbsp_buf (h\<lparr>rbsp_buf := b\<rparr>)) \<and> clear_from (q + n + width fs) b'
      \<and> has_fields b' (q + n) fs
      \<and> (\<forall>k<q + n. bitat b' k = bitat (rbsp_buf (h\<lparr>rbsp_buf := b\<rparr>)) k)"
    using Cons.prems f w by (intro Cons.IH) auto
  then obtain b' where b': "put_fields X fs (at (q + n) (h\<lparr>rbsp_buf := b\<rparr>))
        = Some (at (q + n + width fs) (h\<lparr>rbsp_buf := b'\<rparr>))"
      "length b' = length b" "clear_from (q + n + width fs) b'" "has_fields b' (q + n) fs"
      "\<forall>k<q + n. bitat b' k = bitat b k"
    by auto
  have "window b' q n = window b q n" using b'(5) by (intro window_cong) simp
  then show ?case
    using b b' w f by (intro exI [of _ b']) (auto simp: add.assoc)
qed

text \<open>Without the conditions: the writes stay in the buffer.\<close>

lemma put_fields_some:
  assumes "q + width fs \<le> 8 * length (rbsp_buf h)"
  shows "\<exists>b'. put_fields X fs (at q h) = Some (at (q + width fs) (h\<lparr>rbsp_buf := b'\<rparr>))
    \<and> keeps_bits (rbsp_buf h) b'"
  using assms
proof (induction fs arbitrary: q h)
  case Nil
  then show ?case by (intro exI [of _ "rbsp_buf h"]) simp
next
  case (Cons f fs)
  obtain n w where f: "f = (n, w)" by (cases f)
  obtain b where b: "e_u X w n (at q h) = Some (at (q + n) (h\<lparr>rbsp_buf := b\<rparr>))"
      "keeps_bits (rbsp_buf h) b"
    using e_u_some [of q n h X w] Cons.prems f by auto
  have "\<exists>b'. put_fields X fs (at (q + n) (h\<lparr>rbsp_buf := b\<rparr>))
        = Some (at (q + n + width fs) (h\<lparr>rbsp_buf := b\<rparr>\<lparr>rbsp_buf := b'\<rparr>))
      \<and> keeps_bits (rbsp_buf (h\<lparr>rbsp_buf := b\<rparr>)) b'"
    using Cons.prems f b by (intro Cons.IH) (simp add: keeps_bits_def)
  then obtain b' where b': "put_fields X fs (at (q + n) (h\<lparr>rbsp_buf := b\<rparr>))
        = Some (at (q + n + width fs) (h\<lparr>rbsp_buf := b'\<rparr>))" "keeps_bits b b'"
    by auto
  then show ?case
    using b f keeps_bits_trans [OF b(2) b'(2)] by (intro exI [of _ b']) (simp add: add.assoc)
qed

end
