(* ===== verification/ExtraSei.thy ===== *)
theory ExtraSei
  imports ExtraBits
begin

text \<open>
  Exp-Golomb codes and the frame packing message: what \<^verbatim>\<open>create_frame_pack\<close> writes is the list of its
  fields, \<^verbatim>\<open>parse_frame_pack\<close> reads them back, and the limits of both.
\<close>

section \<open>Exp-Golomb codes\<close>

text \<open>The prefix length of the code of a number, and the code as a field.\<close>

definition ue_zeros :: "u32 \<Rightarrow> nat" where
  "ue_zeros w = halvings 33 (drop_bit 1 (w + 1))"

definition ue_field :: "u32 \<Rightarrow> nat \<times> u32" where
  "ue_field w = (2 * ue_zeros w + 1, w + 1)"

lemma halvings_0 [simp]: "halvings k 0 = 0"
  by (cases k) simp_all

lemma unat_drop_bit: "unat (drop_bit n (w :: u32)) = unat w div 2 ^ n"
  by (subst unat_drop_bit_eq) (simp add: drop_bit_eq_div)

lemma halvings_bounds:
  assumes "unat nn < 2 ^ k"
  shows "unat nn < 2 ^ halvings k nn \<and> (nn \<noteq> 0 \<longrightarrow> 2 ^ halvings k nn \<le> 2 * unat nn)
    \<and> halvings k nn \<le> k"
  using assms
proof (induction k nn rule: halvings.induct)
  case (1 nn)
  then show ?case by (simp add: unsigned_eq_0_iff)
next
  case (2 k nn)
  show ?case
  proof (cases "nn = 0")
    case False
    have d: "unat (drop_bit 1 nn) = unat nn div 2" by (simp only: unat_drop_bit) simp
    with 2 False have IH: "unat nn div 2 < 2 ^ halvings k (drop_bit 1 nn)"
      "drop_bit 1 nn \<noteq> 0 \<longrightarrow> 2 ^ halvings k (drop_bit 1 nn) \<le> 2 * (unat nn div 2)"
      "halvings k (drop_bit 1 nn) \<le> k" by simp_all
    have "0 < unat nn" using False by (simp add: unat_gt_0)
    have "2 ^ halvings k (drop_bit 1 nn) \<le> unat nn"
    proof (cases "drop_bit 1 nn = 0")
      case True
      then have "halvings k (drop_bit 1 nn) = 0" by (cases k) simp_all
      with \<open>0 < unat nn\<close> show ?thesis by simp
    next
      case False
      with IH(2) show ?thesis by simp
    qed
    with False IH show ?thesis by simp
  qed simp
qed

lemma ue_zeros_bounds:
  assumes "w \<noteq> - 1"
  shows "2 ^ ue_zeros w \<le> unat (w + 1)" "unat (w + 1) < 2 ^ (ue_zeros w + 1)" "ue_zeros w \<le> 31"
proof -
  let ?n = "drop_bit 1 (w + 1)"
  have d: "unat ?n = unat (w + 1) div 2" by (simp only: unat_drop_bit) simp
  have "unat (w + 1) < 2 ^ 32" using unsigned_less [of "w + 1"] by simp
  then have "unat ?n < 2 ^ 33" using d by simp
  note h = halvings_bounds [OF this, folded ue_zeros_def]
  have pos: "0 < unat (w + 1)" using assms by (simp add: unat_gt_0 add_eq_0_iff2)
  have "unat (w + 1) div 2 < 2 ^ ue_zeros w" using h d by simp
  then show up: "unat (w + 1) < 2 ^ (ue_zeros w + 1)" by (simp add: div_less_iff_less_mult)
  show lo: "2 ^ ue_zeros w \<le> unat (w + 1)"
  proof (cases "?n = 0")
    case True
    then have "ue_zeros w = 0" by (simp only: ue_zeros_def) simp
    with pos show ?thesis by simp
  next
    case False
    with h d have "2 ^ ue_zeros w \<le> 2 * (unat (w + 1) div 2)" by simp
    also have "\<dots> \<le> unat (w + 1)" by simp
    finally show ?thesis .
  qed
  have "(2::nat) ^ ue_zeros w < 2 ^ 32" using lo \<open>unat (w + 1) < 2 ^ 32\<close> by simp
  then show "ue_zeros w \<le> 31" using power_less_imp_less_exp [of "2::nat" "ue_zeros w" 32] by simp
qed

lemma ue_zeros_le:
  assumes "unat w + 1 < 2 ^ Suc n" "n < 32"
  shows "ue_zeros w \<le> n" "w \<noteq> - 1"
proof -
  have "(2::nat) ^ Suc n \<le> 2 ^ 32" using assms(2) by (intro power_increasing) simp_all
  with assms(1) have w: "unat w + 1 < 2 ^ 32" by simp
  then show ne: "w \<noteq> - 1" by (auto simp: unsigned_minus_1_eq_mask mask_eq_exp_minus_1)
  have "unat (w + 1) = unat w + 1"
    using w by (simp add: unat_word_ariths)
  then have "(2::nat) ^ ue_zeros w < 2 ^ Suc n" using ue_zeros_bounds(1) [OF ne] assms(1) by simp
  then show "ue_zeros w \<le> n" using power_less_imp_less_exp [of "2::nat" "ue_zeros w" "Suc n"] by simp
qed

lemma ue_zeros_max [simp]: "ue_zeros (- 1) = 0"
  by (simp add: ue_zeros_def)

text \<open>The bits of the code: the leading one and what follows it.\<close>

lemma leading_one:
  assumes "2 ^ i \<le> unat u" "unat u < 2 ^ (i + 1)" "i < 32"
  shows "u = push_bit i 1 OR take_bit i (u :: u32)" "u = push_bit i 1 + take_bit i u"
    "bit u j \<Longrightarrow> j \<le> i" "bit u i"
proof -
  have "unat (drop_bit i u) = 1"
  proof -
    have "unat (drop_bit i u) = unat u div 2 ^ i" by (rule unat_drop_bit)
    also have "\<dots> = 1" using assms(1,2) by (intro div_nat_eqI) simp_all
    finally show ?thesis .
  qed
  then have d: "drop_bit i u = 1" by (simp add: word_unat_eq_iff)
  have "bit u (i + k) = bit (drop_bit i u) k" for k by (simp add: bit_simps)
  then have b: "bit u (i + k) \<longleftrightarrow> k = 0" for k using d by (auto simp: bit_1_iff)
  show "bit u i" using b [of 0] by simp
  show le: "bit u j \<Longrightarrow> j \<le> i" for j using b [of "j - i"] by (cases "i \<le> j") auto
  show eq: "u = push_bit i 1 OR take_bit i u"
    using assms(3) \<open>bit u i\<close> le by (intro bit_word_eqI) (auto simp: bit_simps less_le)
  have "push_bit i 1 + take_bit i u = push_bit i 1 OR take_bit i u"
    by (intro disjunctive_add) (auto simp: bit_simps)
  with eq show "u = push_bit i 1 + take_bit i u" by simp
qed

text \<open>The code \<^verbatim>\<open>e_ue\<close> computes, whatever the number.\<close>

definition raw_ue :: "oversize \<Rightarrow> u32 \<Rightarrow> nat \<times> u32" where
  "raw_ue X w = (let i = ue_zeros w in (2 * i + 1,
     shl X 1 i OR ((w + 1 - shl X 1 i) AND (shl X 1 i - 1))))"

lemma e_ue_raw: "e_ue X w = e_u X (snd (raw_ue X w)) (fst (raw_ue X w))"
  by (rule ext) (simp add: e_ue_def raw_ue_def Let_def ue_zeros_def)

lemma raw_ue_eq:
  assumes "w \<noteq> - 1"
  shows "raw_ue X w = ue_field w"
proof -
  note b = ue_zeros_bounds [OF assms]
  have i: "ue_zeros w < 32" using b(3) by simp
  note one = leading_one [OF b(1,2) i]
  have "(w + 1 - push_bit (ue_zeros w) 1) AND (push_bit (ue_zeros w) 1 - 1) = take_bit (ue_zeros w) (w + 1)"
  proof -
    have "w + 1 - push_bit (ue_zeros w) 1 = take_bit (ue_zeros w) (w + 1)"
      using one(2) by (metis add_diff_cancel_left')
    moreover have "push_bit (ue_zeros w) 1 - 1 = (mask (ue_zeros w) :: u32)"
      by (simp add: mask_eq_exp_minus_1 push_bit_eq_mult)
    ultimately show ?thesis by (simp add: take_bit_eq_mask [symmetric])
  qed
  then show ?thesis
    using i one(1) by (simp add: raw_ue_def Let_def ue_field_def shl_def)
qed

lemma ue_zeros_31: "ue_zeros w \<le> 31"
  using ue_zeros_bounds(3) [of w] by (cases "w = - 1") simp_all

lemma writable_ue:
  assumes "w \<noteq> - 1" "ue_zeros w \<le> 15"
  shows "writable (ue_field w)"
proof -
  have "bit (w + 1) j \<Longrightarrow> j \<le> ue_zeros w" for j
    using leading_one(3) [OF ue_zeros_bounds(1,2) [OF assms(1)], of j] ue_zeros_31 [of w] by simp
  then show ?thesis using assms(2) by (force simp: writable_def ue_field_def fits_def)
qed

text \<open>Reading a code: zeros, the leading one, and the bits behind it.\<close>

lemma window_1: "window b q (Suc 0) = of_bool (bitat b q)"
  by (rule bit_word_eqI) (auto simp: bit_window bit_simps)

lemma d_ue_zeros_at:
  assumes "\<forall>t<i. \<not> bitat (rbsp_buf h) (q + t)" "bitat (rbsp_buf h) (q + i)"
    "q + i < 8 * length (rbsp_buf h)"
  shows "d_ue_zeros z (at q h) = Some (z + i, at (q + i + 1) h)"
  using assms
proof (induction i arbitrary: z q)
  case 0
  then show ?case by (subst d_ue_zeros.simps) (simp add: d_u_at window_1)
next
  case (Suc i)
  have "\<not> bitat (rbsp_buf h) q" using Suc.prems(1) by force
  moreover have "\<not> bitat (rbsp_buf h) (Suc q + t)" if "t < i" for t
    using Suc.prems(1) that by (metis Suc_less_eq add_Suc_right add_Suc)
  ultimately show ?case
    using Suc.prems(2,3) Suc.IH [of "Suc q" "z + 1"]
    by (subst d_ue_zeros.simps) (simp add: d_u_at window_1)
qed

text \<open>
  The reader takes at most the rest of the byte and one more byte right, so a suffix must end there.
\<close>

definition readable_at :: "nat \<Rightarrow> nat \<Rightarrow> bool" where
  "readable_at q n \<longleftrightarrow> n < 8 - q mod 8 + 8"

lemma readable_9: "n < 9 \<Longrightarrow> readable_at q n"
proof -
  have "q mod 8 < 8" by simp
  then show "n < 9 \<Longrightarrow> readable_at q n" unfolding readable_at_def by linarith
qed

lemma d_ue_at:
  assumes w: "w \<noteq> - 1" "ue_zeros w \<le> 15"
    and f: "window (rbsp_buf h) q (2 * ue_zeros w + 1) = w + 1"
    and len: "q + (2 * ue_zeros w + 1) \<le> 8 * length (rbsp_buf h)"
    and r: "readable_at (q + ue_zeros w + 1) (ue_zeros w)"
  shows "d_ue X (at q h) = Some (w, at (q + (2 * ue_zeros w + 1)) h)"
proof -
  define i where "i = ue_zeros w"
  note one = leading_one [OF ue_zeros_bounds(1,2) [OF w(1)], folded i_def]
  have i: "i < 32" "i \<le> 15" using w(2) by (simp_all add: i_def)
  have bits: "bitat (rbsp_buf h) (q + 2 * i - j) = bit (w + 1) j" if "j < 2 * i + 1" for j
  proof -
    have "bit (window (rbsp_buf h) q (2 * i + 1)) j = bit (w + 1) j" using f by (simp add: i_def)
    then show ?thesis using that i by (simp add: bit_window)
  qed
  have "\<not> bitat (rbsp_buf h) (q + t)" if "t < i" for t
    using bits [of "2 * i - t"] one(3) [OF i(1), of "2 * i - t"] that by auto
  moreover have "bitat (rbsp_buf h) (q + i)"
    using bits [of i] one(4) [OF i(1)] by (simp add: add.commute)
  ultimately have z: "d_ue_zeros 0 (at q h) = Some (i, at (q + i + 1) h)"
    using len by (subst d_ue_zeros_at [of i]) (simp_all add: i_def)
  have suffix: "window (rbsp_buf h) (q + i + 1) i = take_bit i (w + 1)"
  proof (rule bit_word_eqI)
    fix j
    have "q + i + 1 + i - 1 - j = q + 2 * i - j" by simp
    then show "bit (window (rbsp_buf h) (q + i + 1) i) j = bit (take_bit i (w + 1)) j"
      using bits [of j] i unfolding bit_window bit_take_bit_iff by auto
  qed
  have "d_u i (at (q + i + 1) h) = Some (take_bit i (w + 1), at (q + i + 1 + i) h)"
    using r len suffix by (subst d_u_at) (simp_all add: readable_at_def i_def)
  moreover have "shl X 1 i - 1 + take_bit i (w + 1) = w"
    using one(2) [OF i(1)] i by (simp add: shl_def algebra_simps)
  ultimately show ?thesis
    using z unfolding d_ue_def i_def [symmetric] by (simp add: mult_2 add.assoc)
qed

section \<open>The frame packing message\<close>

definition grid_fields :: "frame_pack \<Rightarrow> (nat \<times> u32) list" where
  "grid_fields f = [(4, frame0_grid_position_x f), (4, frame0_grid_position_y f),
     (4, frame1_grid_position_x f), (4, frame1_grid_position_y f)]"

definition flag_fields :: "frame_pack \<Rightarrow> (nat \<times> u32) list" where
  "flag_fields f = [(7, fp_type f), (1, quincunx_sampling_flag f),
     (6, content_interpretation_type f), (1, spatial_flipping_flag f), (1, frame0_flipped_flag f),
     (1, field_views_flag f), (1, current_frame_is_frame0_flag f),
     (1, frame0_self_contained_flag f), (1, frame1_self_contained_flag f)]"

definition body_fields :: "frame_pack \<Rightarrow> (nat \<times> u32) list" where
  "body_fields f = flag_fields f @ (if has_grid f then grid_fields f else [])
     @ [(8, reserved_byte f), ue_field (repetition_period f)]"

definition frame_fields :: "frame_pack \<Rightarrow> (nat \<times> u32) list" where
  "frame_fields f = [ue_field (fp_id f), (1, cancel_flag f)]
     @ (if cancel_flag f = 0 then body_fields f else []) @ [(1, extension_flag f)]"

text \<open>The frames the message has room for, and the codes the reader can read.\<close>

definition valid_frame :: "frame_pack \<Rightarrow> bool" where
  "valid_frame f \<longleftrightarrow> unat (fp_id f) < 4095 \<and> fits (cancel_flag f) 1 \<and> fits (extension_flag f) 1
     \<and> (cancel_flag f = 0 \<longrightarrow> list_all writable (flag_fields f) \<and> list_all writable (grid_fields f)
          \<and> fits (reserved_byte f) 8 \<and> unat (repetition_period f) < 511)"

lemma put_fields_Cons: "put_fields X ((n, w) # fs) = (\<lambda>h. e_u X w n h \<bind> put_fields X fs)"
  by (rule ext) simp

lemma create_flags_put: "create_flags X f = put_fields X (flag_fields f)"
  by (rule ext) (simp add: create_flags_def flag_fields_def put_fields_Nil put_fields_Cons)

lemma create_grid_put: "create_grid X f = put_fields X (grid_fields f)"
  by (rule ext) (simp add: create_grid_def grid_fields_def put_fields_Nil put_fields_Cons)

lemma put_fields_append_fun:
  "put_fields X (fs @ gs) = (\<lambda>h. put_fields X fs h \<bind> put_fields X gs)"
  by (rule ext) (rule put_fields_append)

text \<open>Reading the fields. The handler is kept in the form of a position and a frame.\<close>

abbreviation on :: "extra_data_handler \<Rightarrow> nat \<Rightarrow> frame_pack \<Rightarrow> extra_data_handler" where
  "on h q g \<equiv> (at q h)\<lparr>frame_packing_arrangement := g\<rparr>"

lemma get_u_at:
  assumes "window (rbsp_buf h) q n = w" "n < 9" "q + n \<le> 8 * length (rbsp_buf h)"
  shows "get_u n put (on h q g) = Some (on h (q + n) (put w g))"
  using assms d_u_at [of n q "h\<lparr>frame_packing_arrangement := g\<rparr>"] readable_9 [of n q]
  by (simp add: get_u_def readable_at_def)

lemma get_ue_at:
  assumes "window (rbsp_buf h) q (fst (ue_field w)) = snd (ue_field w)" "w \<noteq> - 1" "ue_zeros w \<le> 15"
    "readable_at (q + ue_zeros w + 1) (ue_zeros w)"
    "q + fst (ue_field w) \<le> 8 * length (rbsp_buf h)"
  shows "get_ue X put (on h q g) = Some (on h (q + fst (ue_field w)) (put w g))"
  using assms d_ue_at [of w "h\<lparr>frame_packing_arrangement := g\<rparr>" q X]
  by (simp add: get_ue_def ue_field_def)

definition with_grid :: "frame_pack \<Rightarrow> frame_pack \<Rightarrow> frame_pack" where
  "with_grid f g = g\<lparr>frame0_grid_position_x := frame0_grid_position_x f,
     frame0_grid_position_y := frame0_grid_position_y f,
     frame1_grid_position_x := frame1_grid_position_x f,
     frame1_grid_position_y := frame1_grid_position_y f\<rparr>"

definition with_flags :: "frame_pack \<Rightarrow> frame_pack \<Rightarrow> frame_pack" where
  "with_flags f g = g\<lparr>fp_type := fp_type f, quincunx_sampling_flag := quincunx_sampling_flag f,
     content_interpretation_type := content_interpretation_type f,
     spatial_flipping_flag := spatial_flipping_flag f, frame0_flipped_flag := frame0_flipped_flag f,
     field_views_flag := field_views_flag f,
     current_frame_is_frame0_flag := current_frame_is_frame0_flag f,
     frame0_self_contained_flag := frame0_self_contained_flag f,
     frame1_self_contained_flag := frame1_self_contained_flag f\<rparr>"

lemma parse_grid_at:
  assumes "has_fields (rbsp_buf h) q (grid_fields f)" "q + 16 \<le> 8 * length (rbsp_buf h)"
  shows "parse_grid (on h q g) = Some (on h (q + 16) (with_grid f g))"
  using assms by (simp add: parse_grid_def grid_fields_def get_u_at with_grid_def add.commute [of q])

lemma parse_flags_at:
  assumes "has_fields (rbsp_buf h) q (flag_fields f)" "q + 20 \<le> 8 * length (rbsp_buf h)"
  shows "parse_flags (on h q g) = Some (on h (q + 20) (with_flags f g))"
  using assms by (simp add: parse_flags_def flag_fields_def get_u_at with_flags_def add.commute [of q])

text \<open>
  What a reader with the frame \<open>g\<close> has after the message of \<open>f\<close>: the fields that are sent replace its
  own.
\<close>

definition received :: "frame_pack \<Rightarrow> frame_pack \<Rightarrow> frame_pack" where
  "received f g =
     (if cancel_flag f \<noteq> 0
      then g\<lparr>fp_id := fp_id f, cancel_flag := cancel_flag f, extension_flag := extension_flag f\<rparr>
      else if has_grid f then f else with_grid g f)"

lemma readable_aligned:
  assumes "q mod 8 = 0" "i \<le> 11"
  shows "readable_at (q + i + 1) i"
proof -
  have m: "(q + i + 1) mod 8 = (i + 1) mod 8"
    using assms(1) by (metis add.assoc mod_add_left_eq add_0)
  have "i < 9 \<or> i = 9 \<or> i = 10 \<or> i = 11" using assms(2) by linarith
  then show ?thesis using readable_9 [of i "q + i + 1"] m by (auto simp: readable_at_def)
qed

lemma ue_zeros_small:
  "unat w < 4095 \<Longrightarrow> ue_zeros w \<le> 11 \<and> w \<noteq> - 1" "unat w < 511 \<Longrightarrow> ue_zeros w \<le> 8 \<and> w \<noteq> - 1"
  using ue_zeros_le [of w 11] ue_zeros_le [of w 8] by simp_all

lemma width_flags [simp]: "width (flag_fields f) = 20" and width_grid [simp]: "width (grid_fields f) = 16"
  by (simp_all add: flag_fields_def grid_fields_def)

lemma has_grid_flags [simp]: "has_grid (with_flags f g) = has_grid f"
  by (simp add: has_grid_def with_flags_def)

lemma has_fields_ue:
  "has_fields b q (ue_field w # fs) \<longleftrightarrow> window b q (fst (ue_field w)) = snd (ue_field w)
    \<and> has_fields b (q + fst (ue_field w)) fs"
  "width (ue_field w # fs) = fst (ue_field w) + width fs"
  by (cases "ue_field w"; simp)+

lemma parse_frame_pack_at:
  assumes f: "has_fields (rbsp_buf h) q (frame_fields f)" "q + width (frame_fields f) \<le> 8 * length (rbsp_buf h)"
    and v: "valid_frame f" and q: "q mod 8 = 0"
  shows "parse_frame_pack X (on h q g) = Some (on h (q + width (frame_fields f)) (received f g))"
proof -
  define a where "a = fst (ue_field (fp_id f))"
  have id: "get_ue X (\<lambda>v f. f\<lparr>fp_id := v\<rparr>) (on h q g) = Some (on h (q + a) (g\<lparr>fp_id := fp_id f\<rparr>))"
    using f v q ue_zeros_small(1) [of "fp_id f"] readable_aligned [of q "ue_zeros (fp_id f)"]
    unfolding a_def
    by (intro get_ue_at) (auto simp: frame_fields_def has_fields_ue valid_frame_def)
  show ?thesis
  proof (cases "cancel_flag f = 0")
    case False
    then show ?thesis
      using f id unfolding frame_fields_def
      by (simp add: parse_frame_pack_def has_fields_ue get_u_at received_def flip: a_def)
  next
    case True
    note cancel = this
    define q1 where "q1 = q + a + 21 + (if has_grid f then 16 else 0)"
    define r where "r = fst (ue_field (repetition_period f))"
    have fields: "window (rbsp_buf h) (q + a) 1 = 0"
      "has_fields (rbsp_buf h) (q + a + 1) (flag_fields f)"
      "has_grid f \<Longrightarrow> has_fields (rbsp_buf h) (q + a + 21) (grid_fields f)"
      "window (rbsp_buf h) q1 8 = reserved_byte f"
      "window (rbsp_buf h) (q1 + 8) r = snd (ue_field (repetition_period f))"
      "window (rbsp_buf h) (q1 + 8 + r) 1 = extension_flag f"
      and len: "q1 + 8 + r + 1 \<le> 8 * length (rbsp_buf h)"
      and total: "q + width (frame_fields f) = q1 + 8 + r + 1"
      using f cancel unfolding q1_def r_def
      by (auto simp: frame_fields_def body_fields_def has_fields_ue has_fields_append
          add_ac simp flip: a_def)
    have rep: "get_ue X (\<lambda>v f. f\<lparr>repetition_period := v\<rparr>) (on h (q1 + 8) g')
        = Some (on h (q1 + 8 + r) (g'\<lparr>repetition_period := repetition_period f\<rparr>))" for g'
      using fields(5) len v cancel ue_zeros_small(2) [of "repetition_period f"]
        readable_9 [of "ue_zeros (repetition_period f)"]
      unfolding r_def
      by (intro get_ue_at) (auto simp: valid_frame_def)
    define g2 where "g2 = g\<lparr>fp_id := fp_id f, cancel_flag := 0\<rparr>"
    define g4 where "g4 = (if has_grid f then with_grid f (with_flags f g2) else with_flags f g2)"
    have cf: "get_u 1 (\<lambda>v f. f\<lparr>cancel_flag := v\<rparr>) (on h (q + a) (g\<lparr>fp_id := fp_id f\<rparr>))
        = Some (on h (q + a + 1) g2)"
      using fields(1) len by (subst get_u_at) (simp_all add: g2_def q1_def)
    have flags: "parse_flags (on h (q + a + 1) g2) = Some (on h (q + a + 21) (with_flags f g2))"
      using parse_flags_at [OF fields(2), of g2] len by (simp add: q1_def ac_simps)
    have grid: "(if has_grid f then parse_grid (on h (q + a + 21) (with_flags f g2))
        else Some (on h (q + a + 21) (with_flags f g2))) = Some (on h q1 g4)"
      using parse_grid_at [OF fields(3), of "with_flags f g2"] len
      by (cases "has_grid f") (simp_all add: q1_def g4_def ac_simps)
    have res: "get_u 8 (\<lambda>v f. f\<lparr>reserved_byte := v\<rparr>) (on h q1 g4)
        = Some (on h (q1 + 8) (g4\<lparr>reserved_byte := reserved_byte f\<rparr>))"
      using fields(4) len by (subst get_u_at) simp_all
    have ext: "get_u 1 (\<lambda>v f. f\<lparr>extension_flag := v\<rparr>) (on h (q1 + 8 + r) g')
        = Some (on h (q1 + 8 + r + 1) (g'\<lparr>extension_flag := extension_flag f\<rparr>))" for g'
      using fields(6) len by (subst get_u_at) simp_all
    have frame: "g4\<lparr>reserved_byte := reserved_byte f, repetition_period := repetition_period f,
        extension_flag := extension_flag f\<rparr> = received f g"
      using cancel by (simp add: received_def g4_def g2_def with_grid_def with_flags_def)
    have "cancel_flag g2 = 0" by (simp add: g2_def)
    then show ?thesis
      unfolding parse_frame_pack_def id
      using cf flags grid res rep ext frame total by simp
  qed
qed

section \<open>Writing the message\<close>

text \<open>The fields \<^verbatim>\<open>create_frame_pack\<close> writes, for every frame.\<close>

definition raw_body :: "oversize \<Rightarrow> frame_pack \<Rightarrow> (nat \<times> u32) list" where
  "raw_body X f = flag_fields f @ (if has_grid f then grid_fields f else [])
     @ [(8, reserved_byte f), raw_ue X (repetition_period f)]"

definition raw_fields :: "oversize \<Rightarrow> frame_pack \<Rightarrow> (nat \<times> u32) list" where
  "raw_fields X f = [raw_ue X (fp_id f), (1, cancel_flag f)]
     @ (if cancel_flag f = 0 then raw_body X f else []) @ [(1, extension_flag f)]"

lemma put_fields_raw: "put_fields X (raw_ue X w # fs) = (\<lambda>h. e_ue X w h \<bind> put_fields X fs)"
  by (cases "raw_ue X w") (simp add: put_fields_Cons e_ue_raw)

lemma create_frame_pack_raw:
  fixes h defines "f \<equiv> frame_packing_arrangement h"
  shows "create_frame_pack X h = put_fields X (raw_fields X f) h"
proof -
  consider "cancel_flag f \<noteq> 0" | "cancel_flag f = 0" "has_grid f" | "cancel_flag f = 0" "\<not> has_grid f"
    by blast
  then show ?thesis
    unfolding create_frame_pack_def raw_fields_def raw_body_def Let_def f_def [symmetric]
      create_flags_put create_grid_put
    by cases (simp_all add: put_fields_raw put_fields_Nil put_fields_Cons put_fields_append_fun)
qed

lemma width_raw_ue: "fst (raw_ue X w) \<le> 63" "width (raw_ue X w # fs) = fst (raw_ue X w) + width fs"
  using ue_zeros_31 [of w] by (cases "raw_ue X w"; simp add: raw_ue_def Let_def)+

lemma width_raw_fields: "width (raw_fields X f) \<le> 172" "2 < width (raw_fields X f)"
  using width_raw_ue(1) [of X "fp_id f"] width_raw_ue(1) [of X "repetition_period f"]
  by (simp_all add: raw_fields_def raw_body_def width_raw_ue(2) del: width.simps(2))
    (simp_all add: raw_ue_def Let_def)

lemma raw_fields_valid: "valid_frame f \<Longrightarrow> raw_fields X f = frame_fields f"
  using ue_zeros_small(1) [of "fp_id f"] ue_zeros_small(2) [of "repetition_period f"]
  by (auto simp: raw_fields_def raw_body_def frame_fields_def body_fields_def valid_frame_def raw_ue_eq)

lemma writable_frame: "valid_frame f \<Longrightarrow> fld \<in> set (frame_fields f) \<Longrightarrow> writable fld"
  using ue_zeros_small(1) [of "fp_id f"] ue_zeros_small(2) [of "repetition_period f"]
    writable_ue [of "fp_id f"] writable_ue [of "repetition_period f"]
  by (auto simp: frame_fields_def body_fields_def valid_frame_def list_all_iff
      writable_def [of "(_, _)"] split: if_splits)

section \<open>The unit around the message\<close>

text \<open>The marker, the padding and the trailing bits \<^verbatim>\<open>create_sei\<close> adds behind position \<open>p\<close>.\<close>

definition align_fields :: "nat \<Rightarrow> (nat \<times> u32) list" where
  "align_fields p =
     (if p mod 8 = 0 then []
      else if (p + 1) mod 8 = 0 then [(1, 1)]
      else [(1, 1), (8 - (p + 1) mod 8, 0)])"

lemma align_message_put:
  assumes "p + 8 \<le> 8 * length (rbsp_buf h)"
  shows "align_message X (at p h) = put_fields X (align_fields p) (at p h)"
proof -
  obtain b' where b': "e_u X 1 1 (at p h) = Some (at (p + 1) (h\<lparr>rbsp_buf := b'\<rparr>))"
    using e_u_some [of p 1 h X 1] assms by auto
  have "8 - p mod 8 \<noteq> 8 \<longleftrightarrow> p mod 8 \<noteq> 0" "8 - (p + 1) mod 8 \<noteq> 8 \<longleftrightarrow> (p + 1) mod 8 \<noteq> 0"
    by linarith+
  then show ?thesis
    using b' by (simp add: align_message_def align_fields_def put_fields_Nil)
qed

lemma align_width: "p + width (align_fields p) = 8 * ((p + 7) div 8)" "width (align_fields p) < 8"
proof -
  obtain B r where p: "p = 8 * B + r" "r < 8" by (metis mod_less_divisor mult_div_mod_eq zero_less_numeral)
  then have m: "p mod 8 = r" "(p + 1) mod 8 = (r + 1) mod 8" by (simp, metis add.assoc mod_mult_self4)
  have d: "(p + 7) div 8 = B + (r + 7) div 8" using p by (simp add: add.assoc)
  consider "r = 0" | "r = 7" | "0 < r" "r < 7" using p by linarith
  then show "p + width (align_fields p) = 8 * ((p + 7) div 8)" "width (align_fields p) < 8"
    using p d by (cases; simp add: align_fields_def m)+
qed

fun escape :: "u8 list \<Rightarrow> u8 list" where
  "escape [] = []"
| "escape [a] = [a]"
| "escape (a # b # xs) = a # b # (if unat a + unat b = 0 then of_nat H264_EMULATION_BYTE # escape xs
     else escape xs)"

lemma length_escape: "length (escape xs) \<le> length xs + length xs div 2"
  by (induction xs rule: escape.induct) auto

lemma rbsp_bytes_escape:
  assumes "n \<le> length b"
  shows "rbsp_bytes b n i j = Some (escape (drop i (take n b)), j + length (escape (drop i (take n b))))"
  using assms
proof (induction b n i j rule: rbsp_bytes.induct)
  case (1 b n i j)
  show ?case
  proof (cases "i < n")
    case True
    have d: "drop i (take n b) = b ! i # drop (i + 1) (take n b)"
      using True 1(4) by (simp add: Cons_nth_drop_Suc [symmetric])
    show ?thesis
    proof (cases "i + 1 < n")
      case i1: True
      have d1: "drop (i + 1) (take n b) = b ! (i + 1) # drop (i + 2) (take n b)"
        using i1 1(4) by (simp add: Cons_nth_drop_Suc [symmetric])
      show ?thesis
        using True i1 1 d d1 by (subst rbsp_bytes.simps) (simp add: rd_def)
    next
      case False
      then have "drop (i + 1) (take n b) = []" "drop (i + 2) (take n b) = []" by simp_all
      with True False 1 d show ?thesis by (subst rbsp_bytes.simps) (simp add: rd_def)
    qed
  qed (simp add: rbsp_bytes.simps)
qed

text \<open>
  \<^verbatim>\<open>create_sei\<close> for a frame: the fields, the padding and the trailing bits, then the unit around them.
\<close>

definition sei_fields :: "oversize \<Rightarrow> frame_pack \<Rightarrow> (nat \<times> u32) list" where
  "sei_fields X f = raw_fields X f @ align_fields (width (raw_fields X f)) @ [(1, 1), (7, 0)]"

definition sei_size :: "oversize \<Rightarrow> frame_pack \<Rightarrow> nat" where
  "sei_size X f = (width (raw_fields X f) + 7) div 8 + 1"

definition sei_unit :: "nat \<Rightarrow> u8 list \<Rightarrow> u8 list" where
  "sei_unit n payload = [0, 0, 0, 1, 6, 45, of_nat (n - 1)] @ escape payload"

lemma sei_size: "sei_size X f \<le> 23" "2 \<le> sei_size X f" "width (sei_fields X f) = 8 * sei_size X f"
  using width_raw_fields [of X f] align_width(1) [of "width (raw_fields X f)"]
  by (simp_all add: sei_size_def sei_fields_def)

lemma create_message:
  assumes "length (rbsp_buf h) = 100" "f = frame_packing_arrangement h"
  shows "do { h \<leftarrow> create_frame_pack X (at 0 h); h \<leftarrow> align_message X h; h \<leftarrow> e_u X 1 1 h; e_u X 0 7 h }
    = put_fields X (sei_fields X f) (at 0 h)"
proof -
  let ?p = "width (raw_fields X f)"
  obtain b where b: "put_fields X (raw_fields X f) (at 0 h) = Some (at ?p (h\<lparr>rbsp_buf := b\<rparr>))" "length b = 100"
    using put_fields_some [of 0 "raw_fields X f" h X] width_raw_fields(1) [of X f] assms(1)
    by (auto simp: keeps_bits_def)
  have "align_message X (at ?p (h\<lparr>rbsp_buf := b\<rparr>)) = put_fields X (align_fields ?p) (at ?p (h\<lparr>rbsp_buf := b\<rparr>))"
    using width_raw_fields(1) [of X f] b(2) by (intro align_message_put) simp
  then show ?thesis
    using b assms(2)
    by (simp add: create_frame_pack_raw sei_fields_def put_fields_append put_fields_Nil put_fields_Cons)
qed

lemma create_sei_put:
  assumes "unat (sei_payload_type h) = SEI_PAYLOAD_FRAME_PACKING_ARRANGEMENT"
    "length (rbsp_buf h) = 100" "f = frame_packing_arrangement h"
    "put_fields X (sei_fields X f) (at 0 h) = Some (at (8 * sei_size X f) (h\<lparr>rbsp_buf := b'\<rparr>))"
    "length b' = 100"
  shows "create_sei X h = Some ((sei_unit (sei_size X f) (take (sei_size X f) b'),
      7 + length (escape (take (sei_size X f) b'))),
    (at (8 * sei_size X f) h)\<lparr>rbsp_buf := b', pack_sei := False, sei_payload_type := - 1\<rparr>)"
proof -
  let ?h = "at (8 * sei_size X f) (h\<lparr>rbsp_buf := b'\<rparr>)"
  have at0: "h\<lparr>byte_ptr := 0, bit_ptr := 8\<rparr> = at 0 h" by (simp add: at_def)
  have t: "ucast (sei_payload_type h AND 0xFF) = (45 :: u8)"
  proof -
    have "sei_payload_type h = 45" using assms(1) by (simp add: h264_defs word_unat_eq_iff)
    then show ?thesis by simp
  qed
  have bytes: "create_rbsp NAL_TYPE_SEI ?h = Some (sei_unit (sei_size X f) (take (sei_size X f) b'),
      7 + length (escape (take (sei_size X f) b')))"
    using sei_size(1,2) [of X f] assms(5) t
    by (simp add: create_rbsp_def rbsp_bytes_escape sei_unit_def minus32_def h264_defs)
  have "create_sei X h = do {
      h \<leftarrow> do { h \<leftarrow> create_frame_pack X (at 0 h); h \<leftarrow> align_message X h; h \<leftarrow> e_u X 1 1 h; e_u X 0 7 h };
      r \<leftarrow> create_rbsp NAL_TYPE_SEI h;
      Some (r, h\<lparr>pack_sei := False, sei_payload_type := - 1\<rparr>) }"
    using assms(1) by (simp add: create_sei_def at0)
  then show ?thesis
    unfolding create_message [OF assms(2,3)] assms(4) using bytes by simp
qed

lemma create_sei_some:
  assumes "unat (sei_payload_type h) = SEI_PAYLOAD_FRAME_PACKING_ARRANGEMENT" "length (rbsp_buf h) = 100"
    "f = frame_packing_arrangement h"
  shows "\<exists>b'. keeps_bits (rbsp_buf h) b' \<and> create_sei X h =
    Some ((sei_unit (sei_size X f) (take (sei_size X f) b'), 7 + length (escape (take (sei_size X f) b'))),
    (at (8 * sei_size X f) h)\<lparr>rbsp_buf := b', pack_sei := False, sei_payload_type := - 1\<rparr>)"
proof -
  obtain b' where b': "put_fields X (sei_fields X f) (at 0 h) = Some (at (8 * sei_size X f) (h\<lparr>rbsp_buf := b'\<rparr>))"
      "keeps_bits (rbsp_buf h) b'"
    using put_fields_some [of 0 "sei_fields X f" h X] sei_size [of X f] assms(2) by auto
  then have "length b' = 100" using assms(2) by (simp add: keeps_bits_def)
  with create_sei_put [OF assms b'(1)] b'(2) show ?thesis by auto
qed

end
