(* ===== verification/ExtraNal.thy ===== *)
theory ExtraNal
  imports ExtraSei
begin

text \<open>
  The NAL unit of a message: the emulation bytes \<^verbatim>\<open>create_rbsp\<close> inserts are removed by \<^verbatim>\<open>parse_rbsp\<close>,
  and \<^verbatim>\<open>parse_sei\<close> reads the unit \<^verbatim>\<open>create_sei\<close> makes.
\<close>

section \<open>Emulation bytes\<close>

text \<open>
  \<^verbatim>\<open>create_rbsp\<close> looks at pairs of bytes at even positions only: a payload is safe when no 0, 0, 3 begins
  at an odd position.
\<close>

fun safe :: "u8 list \<Rightarrow> bool" where
  "safe (a # b # c # d # xs) \<longleftrightarrow> \<not> (b = 0 \<and> c = 0 \<and> d = 3) \<and> safe (c # d # xs)"
| "safe xs \<longleftrightarrow> True"

lemma safe_tail: "safe (a # b # xs) \<Longrightarrow> safe xs"
  by (cases xs; cases "tl xs") auto

lemma rbsp_loop_copy:
  assumes "i < len" "i + 1 < length buf" "j < length out"
    "buf ! i = 0 \<Longrightarrow> buf ! (i + 1) = 0 \<Longrightarrow> i + 2 < length buf \<and> \<not> (buf ! (i + 2) = 3 \<and> i + 2 < len)"
  shows "rbsp_loop buf len i j out = rbsp_loop buf len (i + 1) (j + 1) (out[j := buf ! i])"
proof -
  have three: "unat w = 3 \<longleftrightarrow> w = 3" for w :: u8 by (simp add: word_unat_eq_iff)
  show ?thesis
    using assms by (subst rbsp_loop.simps)
      (auto simp: rd_def wr_def h264_defs three unsigned_eq_0_iff)
qed

lemma rbsp_loop_skip:
  assumes "i + 2 < len" "len \<le> length buf" "j + 1 < length out"
    "buf ! i = 0" "buf ! (i + 1) = 0" "buf ! (i + 2) = 3"
  shows "rbsp_loop buf len i j out = rbsp_loop buf len (i + 3) (j + 2) (out[j := 0, j + 1 := 0])"
  using assms by (subst rbsp_loop.simps) (simp add: rd_def wr_def h264_defs)

lemma take_two: "Suc j < length out \<Longrightarrow> take (Suc (Suc j)) (out[j := a, Suc j := b]) = take j out @ [a, b]"
  by (simp add: take_Suc_conv_app_nth)

lemma rbsp_loop_escape:
  assumes "2 \<le> length rest" "safe xs" "j + length xs \<le> length out"
    "buf = pre @ escape xs @ rest" "i = length pre" "len = length pre + length (escape xs)"
  shows "rbsp_loop buf len i j out = Some (take j out @ xs @ drop (j + length xs) out)"
  using assms
proof (induction xs arbitrary: pre j out i rule: escape.induct)
  case 1
  then show ?case by (simp add: rbsp_loop.simps)
next
  case (2 a)
  then have "rbsp_loop buf len i j out = rbsp_loop buf len (i + 1) (j + 1) (out[j := a])"
    by (subst rbsp_loop_copy) (auto simp: nth_append)
  also have "\<dots> = Some (out[j := a])" using 2 by (simp add: rbsp_loop.simps)
  finally show ?case using 2 by (simp add: upd_conv_take_nth_drop)
next
  case (3 a b xs)
  show ?case
  proof (cases "a = 0 \<and> b = 0")
    case True
    then have esc: "escape (a # b # xs) = 0 # 0 # 3 # escape xs" by (simp add: h264_defs)
    have "rbsp_loop buf len i j out = rbsp_loop buf len (i + 3) (j + 2) (out[j := 0, j + 1 := 0])"
      using 3 esc by (intro rbsp_loop_skip) (auto simp: nth_append)
    also have "\<dots> = Some (take (j + 2) (out[j := 0, j + 1 := 0]) @ xs
        @ drop (j + 2 + length xs) (out[j := 0, j + 1 := 0]))"
      using 3(3-) True esc safe_tail [OF 3(4)] by (intro 3(1) [where pre = "pre @ [0, 0, 3]"]) auto
    finally show ?thesis using 3 True by (simp add: take_two)
  next
    case False
    then have nz: "unat a + unat b \<noteq> 0" by (simp add: unsigned_eq_0_iff)
    then have esc: "escape (a # b # xs) = a # b # escape xs" by simp
    have "rbsp_loop buf len i j out = rbsp_loop buf len (i + 1) (j + 1) (out[j := a])"
      using 3 esc False by (subst rbsp_loop_copy) (auto simp: nth_append)
    also have "\<dots> = rbsp_loop buf len (i + 2) (j + 2) (out[j := a, j + 1 := b])"
    proof (cases xs)
      case Nil
      with 3 esc show ?thesis by (subst rbsp_loop_copy) (auto simp: nth_append)
    next
      case (Cons c ys)
      show ?thesis
      proof (cases ys)
        case Nil
        with 3 esc Cons show ?thesis by (subst rbsp_loop_copy) (auto simp: nth_append nth_Cons')
      next
        case c: (Cons d zs)
        with Cons 3(4) have "\<not> (b = 0 \<and> c = 0 \<and> d = 3)" by simp
        moreover obtain es where "escape xs = c # d # es" using Cons c by auto
        ultimately show ?thesis
          using 3 esc by (subst rbsp_loop_copy) (auto simp: nth_append nth_Cons')
      qed
    qed
    also have "\<dots> = Some (take (j + 2) (out[j := a, j + 1 := b]) @ xs
        @ drop (j + 2 + length xs) (out[j := a, j + 1 := b]))"
      using 3(3-) nz esc safe_tail [OF 3(4)] by (intro 3(2) [where pre = "pre @ [a, b]"]) auto
    finally show ?thesis using 3 by (simp add: take_two)
  qed
qed

section \<open>Units\<close>

lemma parse_rbsp_unit:
  assumes "2 \<le> length rest" "safe payload" "2 + length payload \<le> length (rbsp_buf h)" "2 \<le> n" "n < 256"
  shows "parse_rbsp (sei_unit n payload @ rest) (7 + length (escape payload)) h
    = Some (6, (at 0 h)\<lparr>rbsp_buf := [45, of_nat (n - 1)] @ payload @ drop (2 + length payload) (rbsp_buf h)\<rparr>)"
proof -
  let ?buf = "sei_unit n payload @ rest" and ?len = "7 + length (escape payload)" and ?out = "rbsp_buf h"
  have n: "(of_nat (n - 1) :: u8) \<noteq> 0"
    using assms(4,5) by (simp add: word_unat_eq_iff unat_of_nat del: of_nat_diff)
  have "rbsp_loop ?buf ?len 5 0 ?out = rbsp_loop ?buf ?len 6 1 (?out[0 := 45])"
    using assms by (subst rbsp_loop_copy) (auto simp: sei_unit_def)
  also have "\<dots> = rbsp_loop ?buf ?len 7 2 (?out[0 := 45, 1 := of_nat (n - 1)])"
    using assms n by (subst rbsp_loop_copy) (auto simp: sei_unit_def numeral_2_eq_2 simp del: of_nat_diff)
  also have "\<dots> = Some (take 2 (?out[0 := 45, 1 := of_nat (n - 1)]) @ payload
      @ drop (2 + length payload) (?out[0 := 45, 1 := of_nat (n - 1)]))"
    using assms by (intro rbsp_loop_escape [where pre = "[0, 0, 0, 1, 6, 45, of_nat (n - 1)]"])
      (auto simp: sei_unit_def)
  also have "\<dots> = Some ([45, of_nat (n - 1)] @ payload @ drop (2 + length payload) ?out)"
    using take_two [of 0 ?out 45 "of_nat (n - 1)"] assms(3) by (simp add: numeral_2_eq_2 del: of_nat_diff)
  finally have loop: "rbsp_loop ?buf ?len 5 0 ?out
      = Some ([45, of_nat (n - 1)] @ payload @ drop (2 + length payload) ?out)" .
  have bytes: "rd ?buf 0 = Some 0" "rd ?buf 1 = Some 0" "rd ?buf 2 = Some 0" "rd ?buf 3 = Some 1"
    "rd ?buf 4 = Some 6"
    by (simp_all add: rd_def sei_unit_def)
  show ?thesis
    using loop unfolding parse_rbsp_def Let_def bytes
    by (simp add: h264_defs at_def bytes)
qed

lemma bitat_shift:
  assumes "k < 8 * length bs"
  shows "bitat ([x, y] @ bs @ t) (16 + k) = bitat bs k"
proof -
  have "(16 + k) div 8 = Suc (Suc (k div 8))" "(16 + k) mod 8 = k mod 8" by presburger+
  moreover have "k div 8 < length bs" using assms by (simp add: div_less_iff_less_mult mult.commute)
  ultimately show ?thesis by (simp add: bitat_def nth_append)
qed

lemma window_shift:
  assumes "q + n \<le> 8 * length bs"
  shows "window ([x, y] @ bs @ t) (16 + q) n = window bs q n"
proof (rule bit_word_eqI)
  fix j
  have "bitat ([x, y] @ bs @ t) (16 + q + n - 1 - j) = bitat bs (q + n - 1 - j)" if "j < n"
  proof -
    have "16 + q + n - 1 - j = 16 + (q + n - 1 - j)" using that by simp
    moreover have "q + n - 1 - j < 8 * length bs" using that assms by simp
    ultimately show ?thesis using bitat_shift by presburger
  qed
  then show "bit (window ([x, y] @ bs @ t) (16 + q) n) j = bit (window bs q n) j"
    by (auto simp: bit_window)
qed

lemma has_fields_shift:
  assumes "has_fields bs q fs" "q + width fs \<le> 8 * length bs"
  shows "has_fields ([x, y] @ bs @ t) (16 + q) fs"
  using assms
proof (induction fs arbitrary: q)
  case (Cons f fs)
  obtain n w where f: "f = (n, w)" by (cases f)
  have "has_fields ([x, y] @ bs @ t) (16 + (q + n)) fs"
    using Cons.prems f by (intro Cons.IH) simp_all
  then show ?case using Cons.prems f window_shift [of q n bs x y t] by (simp add: add.assoc)
qed simp

lemma has_fields_take:
  assumes "has_fields b q fs" "q + width fs \<le> 8 * n" "n \<le> length b"
  shows "has_fields (take n b) q fs"
proof -
  have "bitat (take n b) k = bitat b k" if "k < q + width fs" for k
    using that assms(2) by (simp add: bitat_def div_less_iff_less_mult mult.commute)
  then show ?thesis using assms(1) has_fields_cong [of q fs "take n b" b] by simp
qed

lemma parse_trailing_at:
  assumes "has_fields (rbsp_buf h) p (align_fields p)" "p + width (align_fields p) \<le> 8 * length (rbsp_buf h)"
  shows "parse_trailing (on h p g) = Some (True, on h (p + width (align_fields p)) g)"
proof -
  have m: "p mod 8 < 8" "(p + 1) mod 8 < 8" by simp_all
  have e: "8 - p mod 8 = 8 \<longleftrightarrow> p mod 8 = 0" "8 - (p + 1) mod 8 = 8 \<longleftrightarrow> (p + 1) mod 8 = 0" by linarith+
  have d1: "d_u 1 (on h p g) = Some (1, on h (p + 1) g)" if "p mod 8 \<noteq> 0"
    using that assms m d_u_at [of 1 p "h\<lparr>frame_packing_arrangement := g\<rparr>"]
    by (auto simp: align_fields_def split: if_splits)
  have d2: "d_u (8 - (p + 1) mod 8) (on h (p + 1) g) = Some (0, on h (p + 1 + (8 - (p + 1) mod 8)) g)"
    if "p mod 8 \<noteq> 0" "(p + 1) mod 8 \<noteq> 0"
    using that assms m d_u_at [of "8 - (p + 1) mod 8" "p + 1" "h\<lparr>frame_packing_arrangement := g\<rparr>"]
    by (auto simp: align_fields_def split: if_splits)
  show ?thesis
    using d1 d2 e by (auto simp: parse_trailing_def align_fields_def)
qed

lemma read_sum_byte:
  assumes "byte_ptr h < length (rbsp_buf h)" "rbsp_buf h ! byte_ptr h \<noteq> 0xFF"
  shows "read_sum 0 h = Some (ucast (rbsp_buf h ! byte_ptr h), h\<lparr>byte_ptr := byte_ptr h + 1\<rparr>)"
  using assms by (subst read_sum.simps) simp

text \<open>The reader on a buffer that holds the unit's message behind its two bytes.\<close>

lemma parse_sei_unit:
  assumes "valid_frame f" "has_fields payload 0 (sei_fields X f)" "length payload = sei_size X f"
    "safe payload" "2 \<le> length rest" "length (rbsp_buf h) = 100"
  shows "\<exists>h'. parse_sei Y (sei_unit (sei_size X f) payload @ rest) (7 + length (escape payload)) h = Some (1, h')
    \<and> frame_packing_arrangement h' = received f (frame_packing_arrangement h)"
proof -
  let ?n = "sei_size X f" and ?g = "frame_packing_arrangement h"
  let ?b = "[45, of_nat (?n - 1)] @ payload @ drop (2 + length payload) (rbsp_buf h)"
  let ?h = "h\<lparr>rbsp_buf := ?b\<rparr>"
  note size = sei_size [of X f]
  have rbsp: "parse_rbsp (sei_unit ?n payload @ rest) (7 + length (escape payload)) h = Some (6, at 0 ?h)"
    using parse_rbsp_unit [of rest payload h ?n] assms size by simp
  have size_byte: "(of_nat (?n - 1) :: u8) \<noteq> 0xFF"
    using size by (simp add: word_unat_eq_iff unat_of_nat del: of_nat_diff)
  have hdr: "read_sum 0 (at 0 ?h) = Some (45, ?h\<lparr>byte_ptr := 1, bit_ptr := 8\<rparr>)"
    using size by (subst read_sum_byte) (simp_all add: at_def)
  have "read_sum 0 (?h\<lparr>byte_ptr := 1, bit_ptr := 8\<rparr>)
      = Some (ucast (of_nat (?n - 1) :: u8), ?h\<lparr>byte_ptr := 2, bit_ptr := 8\<rparr>)"
    using size size_byte by (subst read_sum_byte) (simp_all add: numeral_2_eq_2 del: of_nat_diff)
  then have hdr2: "read_sum 0 (?h\<lparr>byte_ptr := 1, bit_ptr := 8\<rparr>)
      = Some (ucast (of_nat (?n - 1) :: u8), on ?h 16 ?g)"
    by (simp add: at_def)
  have all: "has_fields ?b 16 (sei_fields X f)"
    using has_fields_shift [OF assms(2)] size(3) assms(3) by simp
  let ?p = "16 + width (frame_fields f)"
  have fields: "has_fields ?b 16 (frame_fields f)" "has_fields ?b ?p (align_fields ?p)"
    and room: "?p + width (align_fields ?p) \<le> 8 * length ?b"
  proof -
    have al: "align_fields ?p = align_fields (width (frame_fields f))"
    proof -
      have "?p mod 8 = width (frame_fields f) mod 8" "(?p + 1) mod 8 = (width (frame_fields f) + 1) mod 8"
        by presburger+
      then show ?thesis by (simp add: align_fields_def)
    qed
    have split: "sei_fields X f = frame_fields f @ align_fields ?p @ [(1, 1), (7, 0)]"
      using raw_fields_valid [OF assms(1), of X] al by (simp add: sei_fields_def)
    show "has_fields ?b 16 (frame_fields f)" "has_fields ?b ?p (align_fields ?p)"
      using all unfolding split has_fields_append by simp_all
    have "width (frame_fields f) + width (align_fields ?p) + 8 = 8 * ?n"
      using size(3) unfolding split by simp
    then show "?p + width (align_fields ?p) \<le> 8 * length ?b"
      using size assms(3,6) by simp
  qed
  have frame: "parse_frame_pack Y (on ?h 16 ?g) = Some (on ?h ?p (received f ?g))"
    using fields(1) room assms(1) by (intro parse_frame_pack_at) simp_all
  have trail: "parse_trailing (on ?h ?p (received f ?g))
      = Some (True, on ?h (?p + width (align_fields ?p)) (received f ?g))"
    using fields(2) room by (intro parse_trailing_at) simp_all
  show ?thesis
    unfolding parse_sei_def rbsp
    using hdr hdr2 frame trail by (simp add: h264_defs)
qed

end
