(* ===== verification/ExtraSections.thy ===== *)
theory ExtraSections
  imports ExtraData
begin

text \<open>
  The extra data sections behind the payload of a buffer: the slice table (\<^verbatim>\<open>parse_sliceinfo\<close>) and the
  loop of \<^verbatim>\<open>parse_extra_data\<close>, on the 32-bit addresses of the device. The constants of the kernel header
  \<^verbatim>\<open>msm_vidc_dec.h\<close> and \<^verbatim>\<open>msm_vidc_enc.h\<close> are a parameter.
\<close>

section \<open>Words in memory\<close>

text \<open>A 32-bit word, the least significant byte first.\<close>

definition rd32 :: "u8 list \<Rightarrow> nat \<Rightarrow> nat option" where
  "rd32 m i = do {
     b0 \<leftarrow> rd m i; b1 \<leftarrow> rd m (i + 1); b2 \<leftarrow> rd m (i + 2); b3 \<leftarrow> rd m (i + 3);
     Some (unat b0 + 2 ^ 8 * unat b1 + 2 ^ 16 * unat b2 + 2 ^ 24 * unat b3) }"

definition wr32 :: "u8 list \<Rightarrow> nat \<Rightarrow> nat \<Rightarrow> u8 list option" where
  "wr32 m i v = wr_bytes m i (map (\<lambda>k. of_nat (v div 2 ^ (8 * k))) [0..<4])"

section \<open>Slices\<close>

text \<open>The four bytes of the start code, compared in order up to the first that differs.\<close>

definition start_code_at :: "u8 list \<Rightarrow> nat \<Rightarrow> bool option" where
  "start_code_at m i = do {
     b \<leftarrow> rd m i;
     if b \<noteq> 0 then Some False else do {
       b \<leftarrow> rd m (i + 1);
       if b \<noteq> 0 then Some False else do {
         b \<leftarrow> rd m (i + 2);
         if b \<noteq> 0 then Some False else do {
           b \<leftarrow> rd m (i + 3);
           Some (unat b = H264_START_CODE) } } } }"

text \<open>The loop over the table at \<open>d\<close>: the total size, or the error.\<close>

function slices_loop :: "u8 list \<Rightarrow> nat \<Rightarrow> nat \<Rightarrow> nat \<Rightarrow> nat \<Rightarrow> nat option option" where
  "slices_loop m d num_slices i total_size =
     (if i < num_slices then do {
        slice_offset \<leftarrow> rd32 m (d + 4 * (i * 2 + 1));
        found \<leftarrow> start_code_at m slice_offset;
        if \<not> found then Some None
        else if slice_offset \<noteq> total_size then Some None
        else do {
          slice_size \<leftarrow> rd32 m (d + 4 * (i * 2 + 2));
          slices_loop m d num_slices (i + 1) ((total_size + slice_size) mod 2 ^ 32) } }
      else Some (Some total_size))"
  by pat_completeness auto

termination
  by (relation "measure (\<lambda>(m, d, n, i, t). n - i)") auto

declare slices_loop.simps [simp del]

section \<open>Buffers\<close>

text \<open>
  \<^verbatim>\<open>OMX_BUFFERHEADERTYPE\<close>: the address and the bytes of the buffer, and the fields the code uses.
\<close>

record omx_buffer =
  pBuffer :: nat
  buffer_mem :: "u8 list"
  nAllocLen :: nat
  nOffset :: nat
  nFilledLen :: nat
  nFlags :: u32

definition OMX_BUFFERFLAG_EXTRADATA :: u32 where "OMX_BUFFERFLAG_EXTRADATA = 0x40"
definition OMX_BUFFERFLAG_CODECCONFIG :: u32 where "OMX_BUFFERFLAG_CODECCONFIG = 0x80"

definition create_extra_data :: "oversize \<Rightarrow> omx_buffer \<Rightarrow> extra_data_handler
    \<Rightarrow> (omx_buffer \<times> extra_data_handler) option" where
  "create_extra_data X buf h =
     (if nFlags buf AND OMX_BUFFERFLAG_CODECCONFIG \<noteq> 0 then
        if pack_sei h then do {
          ((bs, msg_size), h) \<leftarrow> create_sei X h;
          m \<leftarrow> wr_bytes (buffer_mem buf) (nOffset buf + nFilledLen buf) bs;
          let buf = buf\<lparr>buffer_mem := m\<rparr>;
          Some (if msg_size > 0 then buf\<lparr>nFilledLen := (nFilledLen buf + msg_size) mod 2 ^ 32\<rparr> else buf, h) }
        else Some (buf, h)
      else Some (buf, h))"

text \<open>\<^verbatim>\<open>parse_sliceinfo\<close> for the section at the offset \<open>off\<close> of the buffer.\<close>

definition parse_sliceinfo :: "omx_buffer \<Rightarrow> nat \<Rightarrow> int option" where
  "parse_sliceinfo buf off = do {
     num_slices \<leftarrow> rd32 (buffer_mem buf) (off + 20);
     nDataSize \<leftarrow> rd32 (buffer_mem buf) (off + 16);
     if (4 + num_slices * 8) mod 2 ^ 32 \<noteq> nDataSize then Some (- 1)
     else do {
       total \<leftarrow> slices_loop (buffer_mem buf) (off + 20) num_slices 0 0;
       Some (case total of None \<Rightarrow> - 1 | Some t \<Rightarrow> if nFilledLen buf \<noteq> t then - 1 else 0) } }"

definition OMX_ExtraDataVideoLTRInfo :: nat where "OMX_ExtraDataVideoLTRInfo = 0x7F00000B"

definition parse_ltrinfo :: "omx_buffer \<Rightarrow> nat \<Rightarrow> omx_buffer option" where
  "parse_ltrinfo buf off = do {
     m \<leftarrow> wr32 (buffer_mem buf) (off + 12) OMX_ExtraDataVideoLTRInfo;
     Some (buf\<lparr>buffer_mem := m\<rparr>) }"

section \<open>Sections\<close>

record extradata_types =
  VDEC_EXTRADATA_NONE :: nat
  VEN_EXTRADATA_NONE :: nat
  VDEC_EXTRADATA_SEI :: nat
  VEN_EXTRADATA_QCOMFILLER :: nat
  VEN_EXTRADATA_SLICEINFO :: nat
  VEN_EXTRADATA_LTRINFO :: nat

text \<open>One turn of the loop: it ends, or goes on at the next address.\<close>

datatype section_step = Stop omx_buffer extra_data_handler | Go nat omx_buffer extra_data_handler

definition extra_section :: "extradata_types \<Rightarrow> oversize \<Rightarrow> nat \<Rightarrow> omx_buffer \<Rightarrow> extra_data_handler
    \<Rightarrow> section_step option" where
  "extra_section T X addr buf h =
     (let off = addr - pBuffer buf; mem = buffer_mem buf in do {
        eType \<leftarrow> rd32 mem (off + 12);
        if eType = VDEC_EXTRADATA_NONE T \<or> eType = VEN_EXTRADATA_NONE T then do {
          m \<leftarrow> wr32 mem (off + 12) 0;
          Some (Stop (buf\<lparr>buffer_mem := m\<rparr>) h) }
        else if eType = VDEC_EXTRADATA_SEI T then do {
          n \<leftarrow> rd32 mem (off + 16);
          (r, h) \<leftarrow> parse_sei X (drop (off + 20) mem) n h;
          nSize \<leftarrow> rd32 mem off;
          Some (Go ((addr + nSize) mod 2 ^ 32) buf h) }
        else if eType = VEN_EXTRADATA_QCOMFILLER T then do {
          nSize \<leftarrow> rd32 mem off;
          Some (Go ((addr + nSize) mod 2 ^ 32) buf h) }
        else if eType = VEN_EXTRADATA_SLICEINFO T then do {
          r \<leftarrow> parse_sliceinfo buf off;
          nSize \<leftarrow> rd32 mem off;
          Some (Go ((addr + nSize) mod 2 ^ 32) buf h) }
        else if eType = VEN_EXTRADATA_LTRINFO T then do {
          buf \<leftarrow> parse_ltrinfo buf off;
          nSize \<leftarrow> rd32 (buffer_mem buf) off;
          Some (Go ((addr + nSize) mod 2 ^ 32) buf h) }
        else Some (Stop (buf\<lparr>nFlags := nFlags buf AND NOT OMX_BUFFERFLAG_EXTRADATA\<rparr>) h) })"

definition in_buffer :: "omx_buffer \<Rightarrow> nat \<Rightarrow> bool" where
  "in_buffer buf addr \<longleftrightarrow> addr \<noteq> 0 \<and> pBuffer buf < addr
     \<and> addr < (pBuffer buf + nAllocLen buf) mod 2 ^ 32"

text \<open>
  The loop, which may run for ever: \<open>None\<close> when it does not return, \<open>Some None\<close> when it leaves a buffer.
\<close>

partial_function (option) extra_loop :: "extradata_types \<Rightarrow> oversize \<Rightarrow> nat \<Rightarrow> omx_buffer
    \<Rightarrow> extra_data_handler \<Rightarrow> (omx_buffer \<times> extra_data_handler) option option" where
  "extra_loop T X addr buf h =
     (if in_buffer buf addr then
        (case extra_section T X addr buf h of
           None \<Rightarrow> Some None
         | Some (Stop buf' h') \<Rightarrow> Some (Some (buf', h'))
         | Some (Go addr' buf' h') \<Rightarrow> extra_loop T X addr' buf' h')
      else Some (Some (buf, h)))"

definition first_section :: "omx_buffer \<Rightarrow> nat" where
  "first_section buf = (pBuffer buf + nOffset buf + nFilledLen buf + 3) mod 2 ^ 32 div 4 * 4"

definition parse_extra_data :: "extradata_types \<Rightarrow> oversize \<Rightarrow> omx_buffer \<Rightarrow> extra_data_handler
    \<Rightarrow> (omx_buffer \<times> extra_data_handler) option option" where
  "parse_extra_data T X buf h =
     (if nFlags buf AND OMX_BUFFERFLAG_EXTRADATA \<noteq> 0 then extra_loop T X (first_section buf) buf h
      else Some (Some (buf, h)))"

section \<open>The slice table\<close>

text \<open>The sum of the first sizes of the table, and what the table must be.\<close>

fun slice_total :: "u8 list \<Rightarrow> nat \<Rightarrow> nat \<Rightarrow> nat option" where
  "slice_total m d 0 = Some 0"
| "slice_total m d (Suc i) = do {
     t \<leftarrow> slice_total m d i;
     s \<leftarrow> rd32 m (d + 4 * (i * 2 + 2));
     Some ((t + s) mod 2 ^ 32) }"

definition slice_ok :: "u8 list \<Rightarrow> nat \<Rightarrow> nat \<Rightarrow> bool" where
  "slice_ok m d i \<longleftrightarrow> (\<exists>t. slice_total m d i = Some t \<and> rd32 m (d + 4 * (i * 2 + 1)) = Some t
     \<and> start_code_at m t = Some True)"

lemma slice_total_prefix: "slice_total m d n = Some r \<Longrightarrow> i \<le> n \<Longrightarrow> slice_total m d i \<noteq> None"
  by (induction n arbitrary: r) (auto simp: le_Suc_eq split: bind_splits)

lemma slices_loop_ok:
  assumes "slice_total m d i = Some t" "i \<le> n"
  shows "slices_loop m d n i t = Some (Some r)
    \<longleftrightarrow> (\<forall>k. i \<le> k \<and> k < n \<longrightarrow> slice_ok m d k) \<and> slice_total m d n = Some r"
  using assms
proof (induction m d n i t rule: slices_loop.induct)
  case (1 m d n i t)
  show ?case
  proof (cases "i < n")
    case False
    then show ?thesis using 1(2,3) by (subst slices_loop.simps) auto
  next
    case True
    have range: "(\<forall>k. i \<le> k \<and> k < n \<longrightarrow> slice_ok m d k)
        \<longleftrightarrow> slice_ok m d i \<and> (\<forall>k. Suc i \<le> k \<and> k < n \<longrightarrow> slice_ok m d k)"
      using True by (metis Suc_leD Suc_leI le_neq_implies_less le_refl)
    have ok: "slice_ok m d i \<longleftrightarrow> rd32 m (d + 4 * (i * 2 + 1)) = Some t \<and> start_code_at m t = Some True"
      using 1(2) by (simp add: slice_ok_def)
    show ?thesis
    proof (cases "slice_ok m d i")
      case False
      then show ?thesis
        using True range ok by (subst slices_loop.simps) (auto split: bind_split if_splits)
    next
      case i: True
      show ?thesis
      proof (cases "rd32 m (d + 4 * (i * 2 + 2))")
        case None
        then have "slice_total m d (Suc i) = None" using 1(2) by simp
        then have "slice_total m d n \<noteq> Some r" using slice_total_prefix [of m d n r "Suc i"] True by auto
        then show ?thesis using None i ok True by (subst slices_loop.simps) simp
      next
        case (Some s)
        then have "slice_total m d (Suc i) = Some ((t + s) mod 2 ^ 32)" using 1(2) by simp
        then have "slices_loop m d n (i + 1) ((t + s) mod 2 ^ 32) = Some (Some r)
            \<longleftrightarrow> (\<forall>k. Suc i \<le> k \<and> k < n \<longrightarrow> slice_ok m d k) \<and> slice_total m d n = Some r"
          using 1(1) [of t True s] Some i ok True by simp
        then show ?thesis
          using Some i ok True range by (subst slices_loop.simps) simp
      qed
    qed
  qed
qed

section \<open>The loop over the sections\<close>

inductive visits :: "extradata_types \<Rightarrow> oversize \<Rightarrow> nat \<times> omx_buffer \<times> extra_data_handler
    \<Rightarrow> nat \<times> omx_buffer \<times> extra_data_handler \<Rightarrow> bool" for T X where
  visits_refl: "visits T X s s"
| visits_go: "\<lbrakk>in_buffer buf addr; extra_section T X addr buf h = Some (Go addr' buf' h');
     visits T X (addr', buf', h') s\<rbrakk> \<Longrightarrow> visits T X (addr, buf, h) s"

inductive_cases visitsE: "visits T X (addr, buf, h) s"

text \<open>The size word of the section at an address.\<close>

definition section_size :: "omx_buffer \<Rightarrow> nat \<Rightarrow> nat option" where
  "section_size buf addr = rd32 (buffer_mem buf) (addr - pBuffer buf)"

lemma wr_bytes_before:
  "wr_bytes m i bs = Some m' \<Longrightarrow> j < i \<Longrightarrow> rd m' j = rd m j"
  by (auto simp: wr_bytes_def rd_def nth_append split: if_splits)

lemma wr32_before: "wr32 m i v = Some m' \<Longrightarrow> j + 3 < i \<Longrightarrow> rd32 m' j = rd32 m j"
  using wr_bytes_before by (simp add: wr32_def rd32_def)

lemma extra_section_Go:
  assumes "extra_section T X addr buf h = Some (Go addr' buf' h')"
  shows "\<exists>n. section_size buf addr = Some n \<and> addr' = (addr + n) mod 2 ^ 32
    \<and> pBuffer buf' = pBuffer buf \<and> nAllocLen buf' = nAllocLen buf"
  using assms unfolding extra_section_def Let_def section_size_def parse_ltrinfo_def
  by (auto split: if_splits bind_splits dest: wr32_before [where j = "addr - pBuffer buf"])

lemma extra_loop_returns:
  assumes "\<And>addr' buf' h' a' b' g' n. visits T X (addr, buf, h) (addr', buf', h') \<Longrightarrow> in_buffer buf' addr'
      \<Longrightarrow> extra_section T X addr' buf' h' = Some (Go a' b' g') \<Longrightarrow> section_size buf' addr' = Some n \<Longrightarrow> 0 < n \<and> addr' + n < 2 ^ 32"
  shows "extra_loop T X addr buf h \<noteq> None"
  using assms
proof (induction "2 ^ 32 - addr" arbitrary: addr buf h rule: less_induct)
  case less
  show ?case
  proof (cases "in_buffer buf addr")
    case False
    then show ?thesis by (simp add: extra_loop.simps)
  next
    case True
    show ?thesis
    proof (cases "extra_section T X addr buf h")
      case None
      with True show ?thesis by (simp add: extra_loop.simps)
    next
      case (Some st)
      show ?thesis
      proof (cases st)
        case (Stop b g)
        with True Some show ?thesis by (simp add: extra_loop.simps)
      next
        case (Go a b g)
        then obtain n where n: "section_size buf addr = Some n" "a = (addr + n) mod 2 ^ 32"
          using extra_section_Go Some by blast
        have pos: "0 < n" "addr + n < 2 ^ 32"
          using less.prems [OF visits_refl True _ n(1)] Some Go by simp_all
        have "extra_loop T X a b g \<noteq> None"
        proof (rule less.hyps)
          show "2 ^ 32 - a < 2 ^ 32 - addr" using n(2) pos by simp
          show "0 < n' \<and> addr' + n' < 2 ^ 32"
            if "visits T X (a, b, g) (addr', buf', h')" "in_buffer buf' addr'"
              "extra_section T X addr' buf' h' = Some (Go a' b' g')" "section_size buf' addr' = Some n'"
            for addr' buf' h' a' b' g' n'
            using that Some Go True by (intro less.prems) (auto intro: visits_go)
        qed
        with True Some Go show ?thesis by (simp add: extra_loop.simps)
      qed
    qed
  qed
qed

lemma extra_loop_stuck:
  assumes "in_buffer buf addr" "extra_section T X addr buf h = Some (Go addr buf h)"
  shows "extra_loop T X addr buf h = None"
proof -
  have "(T', X', a, b, g) \<noteq> (T, X, addr, buf, h)" if "extra_loop T' X' a b g = Some y" for T' X' a b g y
  proof (rule extra_loop.raw_induct
      [where P = "\<lambda>T' X' a b g y. (T', X', a, b, g) \<noteq> (T, X, addr, buf, h)", OF _ that])
    fix f :: "extradata_types \<Rightarrow> oversize \<Rightarrow> nat \<Rightarrow> omx_buffer \<Rightarrow> extra_data_handler
        \<Rightarrow> (omx_buffer \<times> extra_data_handler) option option"
      and T' X' a b g y
    assume ih: "\<And>T' X' a b g y. f T' X' a b g = Some y \<Longrightarrow> (T', X', a, b, g) \<noteq> (T, X, addr, buf, h)"
      and body: "(if in_buffer b a then case extra_section T' X' a b g of None \<Rightarrow> Some None
         | Some (Stop buf' h') \<Rightarrow> Some (Some (buf', h'))
         | Some (Go addr' buf' h') \<Rightarrow> f T' X' addr' buf' h'
       else Some (Some (b, g))) = Some y"
    show "(T', X', a, b, g) \<noteq> (T, X, addr, buf, h)"
      using ih [of T X addr buf h y] body assms by auto
  qed
  then have "extra_loop T X addr buf h \<noteq> Some y" for y by blast
  then show ?thesis by (intro not_Some_eq [THEN iffD1] allI)
qed

end
