(* ===== verification/ExtraProps.thy ===== *)
theory ExtraProps
  imports ExtraNal ExtraSections
begin

text \<open>
  The properties of the extra data handler, and the faults its code has.
\<close>

section \<open>Messages\<close>

lemma clear_replicate: "clear_from q (replicate n 0)"
  by (auto simp: clear_from_def bitat_def div_less_iff_less_mult mult.commute)

lemma writable_sei: "valid_frame f \<Longrightarrow> fld \<in> set (sei_fields X f) \<Longrightarrow> writable fld"
  using writable_frame [of f fld]
  by (auto simp: sei_fields_def raw_fields_valid align_fields_def writable_def fits_def bit_1_iff
      split: if_splits)

lemma create_sei_fields:
  assumes "valid_frame f" "rbsp_buf h = replicate 100 0" "f = frame_packing_arrangement h"
    "unat (sei_payload_type h) = SEI_PAYLOAD_FRAME_PACKING_ARRANGEMENT"
  shows "\<exists>b'. length b' = 100 \<and> has_fields b' 0 (sei_fields X f) \<and> create_sei X h =
    Some ((sei_unit (sei_size X f) (take (sei_size X f) b'), 7 + length (escape (take (sei_size X f) b'))),
    (at (8 * sei_size X f) h)\<lparr>rbsp_buf := b', pack_sei := False, sei_payload_type := - 1\<rparr>)"
proof -
  have "\<exists>b'. put_fields X (sei_fields X f) (at 0 h) = Some (at (0 + width (sei_fields X f)) (h\<lparr>rbsp_buf := b'\<rparr>))
      \<and> length b' = length (rbsp_buf h) \<and> clear_from (0 + width (sei_fields X f)) b'
      \<and> has_fields b' 0 (sei_fields X f) \<and> (\<forall>k<0. bitat b' k = bitat (rbsp_buf h) k)"
    using assms(1,2) sei_size [of X f] writable_sei [of f]
    by (intro put_fields_at) (auto simp: clear_replicate)
  then obtain b' where b': "put_fields X (sei_fields X f) (at 0 h) = Some (at (8 * sei_size X f) (h\<lparr>rbsp_buf := b'\<rparr>))"
      "length b' = 100" "has_fields b' 0 (sei_fields X f)"
    using assms(2) sei_size(3) [of X f] by auto
  then show ?thesis using create_sei_put [OF assms(4) _ assms(3) b'(1,2)] assms(2) by auto
qed

lemma handler_after_set:
  "rbsp_buf (set_frame_pack_data f h) = rbsp_buf h"
  "frame_packing_arrangement (set_frame_pack_data f h) = f"
  "unat (sei_payload_type (set_frame_pack_data f h)) = SEI_PAYLOAD_FRAME_PACKING_ARRANGEMENT"
  by (simp_all add: set_frame_pack_data_def h264_defs)

lemma rbsp_new: "rbsp_buf (new_handler bits bytes) = replicate 100 0"
  by (simp add: new_handler_def)



text \<open>
  C18. \<^verbatim>\<open>create_sei\<close> writes inside the 100 bytes of \<^verbatim>\<open>rbsp_buf\<close> for every frame, whatever the buffer holds
  and whatever the shifts by 32 or more do; the unit has the length it returns, at most 41 bytes, so
  \<^verbatim>\<open>create_extra_data\<close> stays in a buffer with 41 bytes behind its payload. Bits that were set in
  \<^verbatim>\<open>rbsp_buf\<close> stay set.
\<close>

theorem sei_create_bounds:
  assumes "length (rbsp_buf h) = 100"
    "nOffset buf + nFilledLen buf + 41 \<le> length (buffer_mem buf)"
    "nFlags buf AND OMX_BUFFERFLAG_CODECCONFIG \<noteq> 0" "nFilledLen buf + 41 < 2 ^ 32"
  shows "\<exists>unit h1 buf'. create_sei X (set_frame_pack_data f h) = Some ((unit, length unit), h1)
    \<and> 7 < length unit \<and> length unit \<le> 41 \<and> keeps_bits (rbsp_buf h) (rbsp_buf h1)
    \<and> create_extra_data X buf (set_frame_pack_data f h) = Some (buf', h1)
    \<and> nFilledLen buf' = nFilledLen buf + length unit
    \<and> take (nOffset buf + nFilledLen buf) (buffer_mem buf') = take (nOffset buf + nFilledLen buf) (buffer_mem buf)
    \<and> take (length unit) (drop (nOffset buf + nFilledLen buf) (buffer_mem buf')) = unit"
proof -
  let ?h = "set_frame_pack_data f h" and ?n = "sei_size X f"
  obtain b where b: "keeps_bits (rbsp_buf h) b" "create_sei X ?h = Some ((sei_unit ?n (take ?n b),
      7 + length (escape (take ?n b))),
      (at (8 * ?n) ?h)\<lparr>rbsp_buf := b, pack_sei := False, sei_payload_type := - 1\<rparr>)"
    using create_sei_some [of ?h f X] assms(1) by (auto simp: handler_after_set)
  define h1 where "h1 = (at (8 * ?n) ?h)\<lparr>rbsp_buf := b, pack_sei := False, sei_payload_type := - 1\<rparr>"
  define u where "u = sei_unit ?n (take ?n b)"
  have len: "length u = 7 + length (escape (take ?n b))" by (simp add: u_def sei_unit_def)
  have "length b = 100" using b(1) assms(1) by (simp add: keeps_bits_def)
  then have p: "length (take ?n b) = ?n" "?n \<le> 23" "2 \<le> ?n" using sei_size [of X f] by simp_all
  have "length (escape (take ?n b)) \<le> 34"
    using length_escape [of "take ?n b"] p by linarith
  moreover have "0 < length (escape (take ?n b))"
    using p by (cases "take ?n b" rule: escape.cases) auto
  ultimately have u: "7 < length u" "length u \<le> 41" using len by simp_all
  have sei: "create_sei X ?h = Some ((u, length u), h1)" using b(2) len by (simp add: u_def h1_def)
  have pack: "pack_sei ?h" by (simp add: set_frame_pack_data_def)
  let ?off = "nOffset buf + nFilledLen buf"
  define m where "m = take ?off (buffer_mem buf) @ u @ drop (?off + length u) (buffer_mem buf)"
  have wr: "wr_bytes (buffer_mem buf) ?off u = Some m"
    using assms(2) u by (simp add: wr_bytes_def m_def)
  have "create_extra_data X buf ?h = Some (buf\<lparr>buffer_mem := m, nFilledLen := nFilledLen buf + length u\<rparr>, h1)"
    using assms(3,4) pack sei wr u by (auto simp: create_extra_data_def Let_def)
  then show ?thesis
    using sei u b(1) assms(2) by (intro exI [of _ u] exI [of _ h1]
        exI [of _ "buf\<lparr>buffer_mem := m, nFilledLen := nFilledLen buf + length u\<rparr>"] conjI)
      (simp_all add: m_def h1_def)
qed

theorem sei_create_bounds_witness:
  "let h = new_handler 8 0; f = get_frame_pack_data h; X = \<lparr>over_left = \<lambda>w n. 0, over_right = \<lambda>w n. 0\<rparr>;
     buf = \<lparr>pBuffer = 4096, buffer_mem = replicate 64 0, nAllocLen = 64, nOffset = 4, nFilledLen = 10,
       nFlags = 0x80\<rparr>
   in \<exists>unit h1. create_sei X (set_frame_pack_data f h) = Some ((unit, length unit), h1) \<and> length unit \<le> 41"
  using sei_create_bounds [of "new_handler 8 0" "\<lparr>pBuffer = 4096, buffer_mem = replicate 64 0, nAllocLen = 64,
      nOffset = 4, nFilledLen = 10, nFlags = 0x80\<rparr>" "\<lparr>over_left = \<lambda>w n. 0, over_right = \<lambda>w n. 0\<rparr>"
      "get_frame_pack_data (new_handler 8 0)"]
  by (auto simp: rbsp_new Let_def OMX_BUFFERFLAG_CODECCONFIG_def)



section \<open>Sections\<close>

text \<open>
  C36. \<^verbatim>\<open>parse_sliceinfo\<close> returns 0 exactly when the table has the size it declares, the slices lie
  behind one another from the start of the buffer, each begins with the start code 0, 0, 0, 1, and
  together they are as long as the payload.
\<close>

theorem slices_tile:
  assumes "rd32 (buffer_mem buf) (off + 20) = Some n" "rd32 (buffer_mem buf) (off + 16) = Some len"
  shows "parse_sliceinfo buf off = Some 0 \<longleftrightarrow> (4 + n * 8) mod 2 ^ 32 = len
    \<and> (\<forall>i<n. slice_ok (buffer_mem buf) (off + 20) i)
    \<and> slice_total (buffer_mem buf) (off + 20) n = Some (nFilledLen buf)"
proof -
  have "slices_loop (buffer_mem buf) (off + 20) n 0 0 = Some (Some (nFilledLen buf))
    \<longleftrightarrow> (\<forall>i<n. slice_ok (buffer_mem buf) (off + 20) i)
      \<and> slice_total (buffer_mem buf) (off + 20) n = Some (nFilledLen buf)"
    by (subst slices_loop_ok) simp_all
  then show ?thesis
    using assms by (auto simp: parse_sliceinfo_def split: bind_split option.splits if_splits)
qed

theorem slices_tile_witness:
  "parse_sliceinfo \<lparr>pBuffer = 4096, buffer_mem = [0, 0, 0, 1, 9, 9, 9, 9] @ replicate 16 0
      @ [12, 0, 0, 0, 1, 0, 0, 0, 0, 0, 0, 0, 8, 0, 0, 0], nAllocLen = 40, nOffset = 0,
      nFilledLen = 8, nFlags = 0x40\<rparr> 8 = Some 0"
  using slices_tile [of "\<lparr>pBuffer = 4096, buffer_mem = [0, 0, 0, 1, 9, 9, 9, 9] @ replicate 16 0
      @ [12, 0, 0, 0, 1, 0, 0, 0, 0, 0, 0, 0, 8, 0, 0, 0], nAllocLen = 40, nOffset = 0,
      nFilledLen = 8, nFlags = 0x40\<rparr>" 8 1 12]
  by (simp add: rd32_def rd_def nth_append nth_Cons' slice_ok_def start_code_at_def h264_defs)


text \<open>A buffer with a filler of 20 bytes and the final section, for the witness.\<close>

definition example_types :: extradata_types where
  "example_types = \<lparr>VDEC_EXTRADATA_NONE = 0, VEN_EXTRADATA_NONE = 0, VDEC_EXTRADATA_SEI = 7,
     VEN_EXTRADATA_QCOMFILLER = 2, VEN_EXTRADATA_SLICEINFO = 4, VEN_EXTRADATA_LTRINFO = 5\<rparr>"

definition example_buffer :: omx_buffer where
  "example_buffer = \<lparr>pBuffer = 4096, buffer_mem = replicate 8 0 @ [20, 0, 0, 0] @ replicate 8 0
      @ [2, 0, 0, 0] @ replicate 24 0, nAllocLen = 48, nOffset = 0, nFilledLen = 8, nFlags = 0x40\<rparr>"

definition example_shifts :: oversize where
  "example_shifts = \<lparr>over_left = \<lambda>w n. 0, over_right = \<lambda>w n. 0\<rparr>"

lemmas example_defs = example_types_def example_buffer_def example_shifts_def extra_section_def Let_def
  rd32_def rd_def nth_append nth_Cons' section_size_def

lemma example_sections:
  "extra_section example_types example_shifts 4104 example_buffer h = Some (Go 4124 example_buffer h)"
  "extra_section example_types example_shifts 4124 example_buffer h \<noteq> Some (Go a b g)"
  "section_size example_buffer 4104 = Some 20" "first_section example_buffer = 4104"
  by (simp_all add: example_defs first_section_def split: bind_split)

lemma example_visits:
  assumes "visits example_types example_shifts (4104, example_buffer, h) s"
  shows "s = (4104, example_buffer, h) \<or> s = (4124, example_buffer, h)"
proof -
  have second: "s = (4124, example_buffer, h)" if "visits example_types example_shifts (4124, example_buffer, h) s"
    using that by (rule visitsE) (simp_all add: example_sections)
  show ?thesis using assms by (rule visitsE) (auto simp: example_sections dest: second)
qed


section \<open>Faults\<close>

text \<open>
  A section that says it has size 0 keeps the loop at its address for ever.
\<close>

theorem zero_size_section_hangs:
  assumes "nFlags buf AND OMX_BUFFERFLAG_EXTRADATA \<noteq> 0" "in_buffer buf (first_section buf)"
    "rd32 (buffer_mem buf) (first_section buf - pBuffer buf + 12) = Some (VEN_EXTRADATA_QCOMFILLER T)"
    "section_size buf (first_section buf) = Some 0" "VEN_EXTRADATA_QCOMFILLER T \<noteq> VDEC_EXTRADATA_NONE T"
    "VEN_EXTRADATA_QCOMFILLER T \<noteq> VEN_EXTRADATA_NONE T" "VEN_EXTRADATA_QCOMFILLER T \<noteq> VDEC_EXTRADATA_SEI T"
  shows "parse_extra_data T X buf h = None"
proof -
  have "x div 4 * 4 \<le> x" for x :: nat by simp
  then have "first_section buf < 2 ^ 32"
    unfolding first_section_def by (rule le_less_trans) simp
  then have "extra_section T X (first_section buf) buf h = Some (Go (first_section buf) buf h)"
    using assms by (simp add: extra_section_def Let_def section_size_def)
  then show ?thesis using assms extra_loop_stuck by (simp add: parse_extra_data_def)
qed

text \<open>
  \<^verbatim>\<open>d_u\<close> shifts the bits it has by the part of the byte before, so that two whole bytes fall on one
  another: 0x1234 is read as 0x36.
\<close>

theorem d_u_overlaps:
  "d_u 16 (at 0 ((new_handler 8 0)\<lparr>rbsp_buf := [0x12, 0x34]\<rparr>))
    = Some (0x36, at 16 ((new_handler 8 0)\<lparr>rbsp_buf := [0x12, 0x34]\<rparr>))"
  by (simp add: d_u_def d_u_loop.simps rd_def at_def)

text \<open>A zero written over set bits leaves them: \<^verbatim>\<open>rbsp_buf\<close> is not cleared between two messages.\<close>

theorem second_message_keeps_bits:
  assumes "length (rbsp_buf h) = 100" "create_sei X (set_frame_pack_data f h) = Some (u, h1)"
    "create_sei X (set_frame_pack_data g h1) = Some (u', h2)" "bitat (rbsp_buf h1) k"
  shows "bitat (rbsp_buf h2) k"
proof -
  have "keeps_bits (rbsp_buf h) (rbsp_buf h1)"
    using create_sei_some [of "set_frame_pack_data f h" f X] assms(1,2) by (auto simp: handler_after_set)
  then have "length (rbsp_buf h1) = 100" using assms(1) by (simp add: keeps_bits_def)
  then have "keeps_bits (rbsp_buf h1) (rbsp_buf h2)"
    using create_sei_some [of "set_frame_pack_data g h1" g X] assms(3) by (auto simp: handler_after_set)
  with assms(4) show ?thesis by (simp add: keeps_bits_def)
qed

text \<open>
  \<^verbatim>\<open>parse_rbsp\<close> does not know the size of \<^verbatim>\<open>rbsp_buf\<close>: a unit with more than 100 bytes behind its header
  is written past the end.
\<close>

lemma rbsp_loop_overruns:
  assumes "\<forall>k<length buf. 5 \<le> k \<longrightarrow> buf ! k \<noteq> 0" "len < length buf" "j \<le> length out" "5 \<le> i"
    "length out - j < len - i"
  shows "rbsp_loop buf len i j out = None"
  using assms
proof (induction "length out - j" arbitrary: i j out)
  case 0
  then show ?case by (subst rbsp_loop.simps) (simp add: rd_def wr_def unsigned_eq_0_iff split: bind_split)
next
  case (Suc n)
  then have "rbsp_loop buf len (i + 1) (j + 1) (out[j := buf ! i]) = None"
    by (intro Suc.hyps(1)) simp_all
  moreover have "rbsp_loop buf len i j out = rbsp_loop buf len (i + 1) (j + 1) (out[j := buf ! i])"
    using Suc.prems Suc.hyps(2) by (intro rbsp_loop_copy) simp_all
  ultimately show ?case by simp
qed

theorem long_unit_overruns:
  assumes "buf = [0, 0, 0, 1, 6] @ payload @ x # rest" "0 \<notin> set (payload @ x # rest)"
    "100 < length payload" "length (rbsp_buf h) = 100"
  shows "parse_rbsp buf (5 + length payload) h = None"
proof -
  have nz: "buf ! k \<noteq> 0" if "k < length buf" "5 \<le> k" for k
  proof -
    have "length [0, 0, 0, 1, 6 :: u8] = 5" by simp
    then have "buf ! (5 + (k - 5)) = (payload @ x # rest) ! (k - 5)"
      unfolding assms(1) by (metis nth_append_length_plus)
    then have "buf ! k = (payload @ x # rest) ! (k - 5)" using that(2) by simp
    moreover have "k - 5 < length (payload @ x # rest)" using that by (simp add: assms(1))
    ultimately show ?thesis using assms(2) by (metis nth_mem)
  qed
  have "rbsp_loop buf (5 + length payload) 5 0 (rbsp_buf h) = None"
    using assms(3,4) nz by (intro rbsp_loop_overruns) (simp_all add: assms(1))
  moreover have "rd buf 0 = Some 0" "rd buf 1 = Some 0" "rd buf 2 = Some 0" "rd buf 3 = Some 1"
    "rd buf 4 = Some 6"
    by (simp_all add: rd_def assms(1))
  ultimately show ?thesis by (simp add: parse_rbsp_def Let_def h264_defs)
qed

end
