(* ===== verification/MmChannel.thy ===== *)
theory MmChannel
  imports CamPrelude "HOL-Library.Word" "HOL-Library.Monad_Syntax"
begin

text \<open>
  The super buffer queue of a channel, from \<^verbatim>\<open>src/camera/QCamera2/stack/mm-camera-interface/\<close>:
  \<^verbatim>\<open>src/mm_camera_channel.c\<close> with the types of \<^verbatim>\<open>inc/mm_camera.h\<close>. The command thread of a channel
  runs \<open>mm_channel_process_stream_buf\<close> on every command: a frame of one of the bundled streams is
  put into the super buffer of its frame index (\<open>mm_channel_superbuf_comp_and_enqueue\<close>), a super
  buffer with a frame of every stream is matched, and matched super buffers are sent to the
  callback thread when the client has asked for them. A buffer that is not needed goes back to its
  stream with \<open>mm_channel_qbuf\<close>.

  An operation returns an option: \<open>None\<close> when the code does not come back from it, because it
  follows a null pointer or because a loop never ends. A buffer is passed by pointer in the code
  and by value here, a null pointer being \<open>None\<close>; the nodes of \<open>que\<close> are the super buffers
  themselves, since the one place that links a node sets its data. What the channel hands to other
  parts is recorded in order: the buffers given to a stream in \<open>qbufs\<close>, the commands for the
  callback thread in \<open>cb_cmds\<close>, the calls that start and stop the sensor's snapshot in \<open>zsl_calls\<close>.
  The outcome of the next allocations is read from \<open>mem\<close>, of those inside
  \<^verbatim>\<open>cam_queue_enq\<close> from \<open>enq_mem\<close>; when the list is used up they succeed.
\<close>

section \<open>Types\<close>

datatype super_buf_notify_mode =
    MM_CAMERA_SUPER_BUF_NOTIFY_BURST
  | MM_CAMERA_SUPER_BUF_NOTIFY_CONTINUOUS

datatype cam_stream_type =
    CAM_STREAM_TYPE_DEFAULT | CAM_STREAM_TYPE_PREVIEW | CAM_STREAM_TYPE_POSTVIEW
  | CAM_STREAM_TYPE_SNAPSHOT | CAM_STREAM_TYPE_VIDEO | CAM_STREAM_TYPE_IMPL_DEFINED
  | CAM_STREAM_TYPE_YUV | CAM_STREAM_TYPE_METADATA | CAM_STREAM_TYPE_RAW
  | CAM_STREAM_TYPE_OFFLINE_PROC | CAM_STREAM_TYPE_MAX

datatype cam_prep_snapshot_state = DO_NOT_NEED_FUTURE_FRAME | NEED_FUTURE_FRAME

datatype mm_channel_bracketing_state =
    MM_CHANNEL_BRACKETING_STATE_OFF
  | MM_CHANNEL_BRACKETING_STATE_WAIT_GOOD_FRAME_IDX
  | MM_CHANNEL_BRACKETING_STATE_ACTIVE

text \<open>The metadata a metadata buffer holds, as far as the channel reads it; \<open>crop_info\<close> lists the
  stream, the left and the top of each of the \<open>num_of_streams\<close> entries.\<close>

record cam_metadata_info =
  is_frame_id_reset :: bool
  is_meta_invalid :: bool
  is_crop_valid :: bool
  crop_info :: "(32 word \<times> int \<times> int) list"
  is_prep_snapshot_done_valid :: bool
  prep_snapshot_done_state :: cam_prep_snapshot_state
  is_good_frame_idx_range_valid :: bool
  min_frame_idx :: "32 word"
  max_frame_idx :: "32 word"

record mm_camera_buf_def =
  bd_stream_id :: "32 word"
  bd_stream_type :: cam_stream_type
  bd_buf_idx :: "32 word"
  bd_frame_idx :: "32 word"
  bd_buffer :: "cam_metadata_info option"

record mm_camera_buf_info =
  bi_stream_id :: "32 word"
  bi_frame_idx :: "32 word"
  bi_buf :: "mm_camera_buf_def option"

text \<open>A super buffer: one slot for each stream that may be bundled, zeroed until its frame comes.\<close>

definition MAX_STREAM_NUM_IN_BUNDLE :: nat where "MAX_STREAM_NUM_IN_BUNDLE = 4"

definition no_buf_info :: mm_camera_buf_info where
  "no_buf_info = \<lparr>bi_stream_id = 0, bi_frame_idx = 0, bi_buf = None\<rparr>"

record mm_channel_queue_node =
  num_of_bufs :: "8 word"
  super_buf :: "mm_camera_buf_info list"
  matched :: bool
  sb_frame_idx :: "32 word"

record mm_channel_queue =
  que :: "mm_channel_queue_node list"
  que_size :: "32 word"
  num_streams :: "8 word"
  bundled_streams :: "32 word list"
  notify_mode :: super_buf_notify_mode
  water_mark :: "8 word"
  look_back :: "8 word"
  post_frame_skip :: "8 word"
  max_unmatched_frames :: "8 word"
  expected_frame_id :: "32 word"
  match_cnt :: "32 word"
  expected_frame_id_without_led :: "32 word"

text \<open>A slot of the channel's stream table. \<open>st_used\<close> is that its state is not \<^verbatim>\<open>NOTUSED\<close>, \<open>st_own\<close>
  that \<open>ch_obj\<close> is this channel; otherwise the stream is linked from another channel, and its
  buffers go back to the stream \<open>linked_stream\<close> of that one.\<close>

record mm_stream =
  st_used :: bool
  st_my_hdl :: "32 word"
  st_server_stream_id :: "32 word"
  st_stream_info :: "cam_stream_type option"
  st_own :: bool

datatype stream_ref = Own_stream "32 word" | Linked_stream "32 word"

datatype mm_camera_generic_cmd_type =
    MM_CAMERA_GENERIC_CMD_TYPE_AE_BRACKETING
  | MM_CAMERA_GENERIC_CMD_TYPE_AF_BRACKETING
  | MM_CAMERA_GENERIC_CMD_TYPE_FLASH_BRACKETING
  | MM_CAMERA_GENERIC_CMD_TYPE_MTF_BRACKETING
  | MM_CAMERA_GENERIC_CMD_TYPE_ZOOM_1X

record mm_camera_super_buf =
  msb_ch_id :: "32 word"
  msb_num_bufs :: "8 word"
  msb_bufs :: "mm_camera_buf_def option list"

datatype mm_camera_cmdcb =
    MM_CAMERA_CMD_TYPE_DATA_CB mm_camera_buf_info
  | MM_CAMERA_CMD_TYPE_REQ_DATA_CB "32 word"
  | MM_CAMERA_CMD_TYPE_SUPER_BUF_DATA_CB mm_camera_super_buf
  | MM_CAMERA_CMD_TYPE_CONFIG_NOTIFY super_buf_notify_mode
  | MM_CAMERA_CMD_TYPE_START_ZSL
  | MM_CAMERA_CMD_TYPE_STOP_ZSL
  | MM_CAMERA_CMD_TYPE_FLUSH_QUEUE "32 word" cam_stream_type
  | MM_CAMERA_CMD_TYPE_GENERAL mm_camera_generic_cmd_type "32 word"

datatype zsl_call = Start_zsl_snapshot | Stop_zsl_snapshot

record mm_channel =
  ch_my_hdl :: "32 word"
  ch_notify_cb :: bool
  superbuf_queue :: mm_channel_queue
  pending_cnt :: "32 word"
  streams :: "mm_stream list"
  manualZSLSnapshot :: bool
  startZSlSnapshotCalled :: bool
  needLEDFlash :: bool
  previewSkipCnt :: "8 word"
  bracketingState :: mm_channel_bracketing_state
  isFlashBracketingEnabled :: bool
  isZoom1xFrameRequested :: bool
  sync_posts :: nat
  qbufs :: "(stream_ref \<times> mm_camera_buf_def) list"
  cb_cmds :: "mm_camera_super_buf list"
  zsl_calls :: "zsl_call list"
  mem :: "bool list"
  enq_mem :: "bool list"

definition upd_queue :: "(mm_channel_queue \<Rightarrow> mm_channel_queue) \<Rightarrow> mm_channel \<Rightarrow> mm_channel" where
  "upd_queue f ch = ch\<lparr>superbuf_queue := f (superbuf_queue ch)\<rparr>"

definition alloc :: "mm_channel \<Rightarrow> bool \<times> mm_channel" where
  "alloc ch = (case mem ch of [] \<Rightarrow> (True, ch) | b # bs \<Rightarrow> (b, ch\<lparr>mem := bs\<rparr>))"

definition enq_alloc :: "mm_channel \<Rightarrow> bool \<times> mm_channel" where
  "enq_alloc ch = (case enq_mem ch of [] \<Rightarrow> (True, ch) | b # bs \<Rightarrow> (b, ch\<lparr>enq_mem := bs\<rparr>))"

section \<open>Streams\<close>

definition mm_channel_util_get_stream_by_handler :: "mm_channel \<Rightarrow> 32 word \<Rightarrow> mm_stream option" where
  "mm_channel_util_get_stream_by_handler ch handler =
     find (\<lambda>s. st_used s \<and> handler = st_my_hdl s) (streams ch)"

definition mm_channel_qbuf :: "mm_camera_buf_def option \<Rightarrow> mm_channel \<Rightarrow> mm_channel option" where
  "mm_channel_qbuf buf ch =
     (case buf of
        None \<Rightarrow> None
      | Some b \<Rightarrow>
          (case mm_channel_util_get_stream_by_handler ch (bd_stream_id b) of
             None \<Rightarrow> Some ch
           | Some s \<Rightarrow>
               let target = (if \<not> st_own s then Linked_stream (st_my_hdl s)
                             else Own_stream (st_my_hdl s))
               in Some (ch\<lparr>qbufs := qbufs ch @ [(target, b)]\<rparr>)))"

text \<open>The loops over the slots of a super buffer: the slots with a frame index, those with a
  buffer, those with a buffer of a type, or all of them are given back in order.\<close>

fun qbuf_all :: "mm_camera_buf_def option list \<Rightarrow> mm_channel \<Rightarrow> mm_channel option" where
  "qbuf_all [] ch = Some ch"
| "qbuf_all (b # bs) ch = mm_channel_qbuf b ch \<bind> qbuf_all bs"

definition slots :: "mm_channel_queue_node \<Rightarrow> mm_camera_buf_info list" where
  "slots sb = take (unat (num_of_bufs sb)) (super_buf sb)"

definition qbuf_framed :: "mm_channel_queue_node \<Rightarrow> mm_channel \<Rightarrow> mm_channel option" where
  "qbuf_framed sb = qbuf_all (map bi_buf (filter (\<lambda>i. bi_frame_idx i \<noteq> 0) (slots sb)))"

definition qbuf_present :: "mm_channel_queue_node \<Rightarrow> mm_channel \<Rightarrow> mm_channel option" where
  "qbuf_present sb = qbuf_all (map bi_buf (filter (\<lambda>i. bi_buf i \<noteq> None) (slots sb)))"

definition qbuf_of_type :: "cam_stream_type \<Rightarrow> mm_channel_queue_node \<Rightarrow> mm_channel \<Rightarrow> mm_channel option" where
  "qbuf_of_type cam_type sb = qbuf_all (map bi_buf (filter
     (\<lambda>i. case bi_buf i of None \<Rightarrow> False
        | Some b \<Rightarrow> CAM_STREAM_TYPE_DEFAULT = cam_type \<or> cam_type = bd_stream_type b) (slots sb)))"

definition qbuf_slots :: "mm_channel_queue_node \<Rightarrow> mm_channel \<Rightarrow> mm_channel option" where
  "qbuf_slots sb = qbuf_all (map bi_buf (slots sb))"

section \<open>Dequeuing\<close>

text \<open>\<open>mm_channel_superbuf_queue_init\<close> and \<open>deinit\<close> reset the list and its size and nothing else of
  the queue.\<close>

definition mm_channel_superbuf_queue_init :: "mm_channel_queue \<Rightarrow> mm_channel_queue" where
  "mm_channel_superbuf_queue_init q = q\<lparr>que := [], que_size := 0\<rparr>"

definition mm_channel_superbuf_queue_deinit :: "mm_channel_queue \<Rightarrow> mm_channel_queue" where
  "mm_channel_superbuf_queue_deinit q = q\<lparr>que := [], que_size := 0\<rparr>"

definition superbuf_queue_start :: "mm_stream list \<Rightarrow> mm_channel_queue \<Rightarrow> mm_channel_queue" where
  "superbuf_queue_start s_objs q =
     (mm_channel_superbuf_queue_init q)
       \<lparr>num_streams := of_nat (length s_objs),
        expected_frame_id := 0,
        expected_frame_id_without_led := 0,
        bundled_streams := map st_my_hdl s_objs @ drop (length s_objs) (bundled_streams q)\<rparr>"

definition mm_channel_superbuf_dequeue_internal ::
    "bool \<Rightarrow> mm_channel_queue \<Rightarrow> mm_channel_queue_node option \<times> mm_channel_queue" where
  "mm_channel_superbuf_dequeue_internal matched_only q =
     (case que q of
        [] \<Rightarrow> (None, q)
      | sb # rest \<Rightarrow>
          if matched_only \<and> \<not> matched sb then (None, q)
          else (Some sb, q\<lparr>que := rest, que_size := que_size q - 1,
                           match_cnt := (if matched sb then match_cnt q - 1 else match_cnt q)\<rparr>))"

definition mm_channel_superbuf_dequeue ::
    "mm_channel_queue \<Rightarrow> mm_channel_queue_node option \<times> mm_channel_queue" where
  "mm_channel_superbuf_dequeue q = mm_channel_superbuf_dequeue_internal True q"

text \<open>The loop of \<open>bufdone_overflow\<close> and \<open>skip\<close>: when nothing can be dequeued it goes round again.\<close>

partial_function (option) superbuf_trim :: "8 word \<Rightarrow> mm_channel \<Rightarrow> mm_channel option" where
  "superbuf_trim limit ch =
     (if ucast limit < match_cnt (superbuf_queue ch)
      then case mm_channel_superbuf_dequeue_internal True (superbuf_queue ch) of
             (None, q) \<Rightarrow> superbuf_trim limit (ch\<lparr>superbuf_queue := q\<rparr>)
           | (Some sb, q) \<Rightarrow> qbuf_present sb (ch\<lparr>superbuf_queue := q\<rparr>) \<bind> superbuf_trim limit
      else Some ch)"

definition mm_channel_superbuf_bufdone_overflow :: "mm_channel \<Rightarrow> mm_channel option" where
  "mm_channel_superbuf_bufdone_overflow ch =
     (if notify_mode (superbuf_queue ch) = MM_CAMERA_SUPER_BUF_NOTIFY_CONTINUOUS then Some ch
      else superbuf_trim (water_mark (superbuf_queue ch)) ch)"

definition mm_channel_superbuf_skip :: "mm_channel \<Rightarrow> mm_channel option" where
  "mm_channel_superbuf_skip ch =
     (if notify_mode (superbuf_queue ch) = MM_CAMERA_SUPER_BUF_NOTIFY_CONTINUOUS then Some ch
      else superbuf_trim (look_back (superbuf_queue ch)) ch)"

partial_function (option) mm_channel_superbuf_flush ::
    "cam_stream_type \<Rightarrow> mm_channel \<Rightarrow> mm_channel option" where
  "mm_channel_superbuf_flush cam_type ch =
     (case mm_channel_superbuf_dequeue_internal False (superbuf_queue ch) of
        (None, q) \<Rightarrow> Some (ch\<lparr>superbuf_queue := q\<rparr>)
      | (Some sb, q) \<Rightarrow>
          qbuf_of_type cam_type sb (ch\<lparr>superbuf_queue := q\<rparr>) \<bind> mm_channel_superbuf_flush cam_type)"

partial_function (option) mm_channel_superbuf_flush_matched :: "mm_channel \<Rightarrow> mm_channel option" where
  "mm_channel_superbuf_flush_matched ch =
     (case mm_channel_superbuf_dequeue_internal True (superbuf_queue ch) of
        (None, q) \<Rightarrow> Some (ch\<lparr>superbuf_queue := q\<rparr>)
      | (Some sb, q) \<Rightarrow>
          qbuf_present sb (ch\<lparr>superbuf_queue := q\<rparr>) \<bind> mm_channel_superbuf_flush_matched)"

end
