(* ===== verification/MmMatch.thy ===== *)
theory MmMatch
  imports MmChannel
begin

text \<open>
  The matching logic of \<^verbatim>\<open>src/camera/QCamera2/stack/mm-camera-interface/src/mm_camera_channel.c\<close>:
  what a metadata frame changes (\<open>mm_channel_handle_metadata\<close>), where an incoming frame goes
  (\<open>mm_channel_superbuf_comp_and_enqueue\<close>), the handler of the channel's command thread
  (\<open>mm_channel_process_stream_buf\<close>), and the operations of the channel that send it a command.
\<close>

section \<open>Metadata\<close>

definition mm_channel_util_seq_comp_w_rollover :: "32 word \<Rightarrow> 32 word \<Rightarrow> int" where
  "mm_channel_util_seq_comp_w_rollover v1 v2 = (if v2 < v1 then 1 else if v1 < v2 then - 1 else 0)"

definition set_expected :: "32 word \<Rightarrow> mm_channel \<Rightarrow> mm_channel" where
  "set_expected f = upd_queue (\<lambda>q. q\<lparr>expected_frame_id := f\<rparr>)"

definition add_expected :: "32 word \<Rightarrow> mm_channel \<Rightarrow> mm_channel" where
  "add_expected d = upd_queue (\<lambda>q. q\<lparr>expected_frame_id := expected_frame_id q + d\<rparr>)"

definition max_future_frame_offset :: "32 word" where "max_future_frame_offset = 100"

text \<open>The search for the snapshot stream reads the stream information of every slot it passes.\<close>

fun snapshot_stream_id :: "mm_stream list \<Rightarrow> 32 word option" where
  "snapshot_stream_id [] = Some 0"
| "snapshot_stream_id (s # ss) =
     (case st_stream_info s of
        None \<Rightarrow> None
      | Some t \<Rightarrow> if t = CAM_STREAM_TYPE_SNAPSHOT then Some (st_server_stream_id s)
                  else snapshot_stream_id ss)"

definition crop_1x_found :: "32 word \<Rightarrow> cam_metadata_info \<Rightarrow> bool" where
  "crop_1x_found sid md \<longleftrightarrow>
     is_crop_valid md \<and> list_ex (\<lambda>(i, left, top). sid = i \<and> left = 0 \<and> top = 0) (crop_info md)"

text \<open>The first group of conditions on a valid metadata frame, up to the flash bracketing.\<close>

definition metadata_expectation :: "cam_metadata_info \<Rightarrow> mm_channel \<Rightarrow> mm_channel option" where
  "metadata_expectation md ch =
     (if is_prep_snapshot_done_valid md then
        (if prep_snapshot_done_state md = NEED_FUTURE_FRAME then
           do {
             ch \<leftarrow> mm_channel_superbuf_flush CAM_STREAM_TYPE_DEFAULT
                     (add_expected max_future_frame_offset ch);
             Some (ch\<lparr>needLEDFlash := True\<rparr>)
           }
         else Some (ch\<lparr>needLEDFlash := False\<rparr>))
      else if is_good_frame_idx_range_valid md then
        Some (set_expected (min_frame_idx md) ch)
      else if bracketingState ch = MM_CHANNEL_BRACKETING_STATE_WAIT_GOOD_FRAME_IDX \<and>
              \<not> is_good_frame_idx_range_valid md then
        do {
          ch \<leftarrow> mm_channel_superbuf_flush_matched ch;
          Some (add_expected max_future_frame_offset ch)
        }
      else Some ch)"

definition metadata_bracketing :: "cam_metadata_info \<Rightarrow> mm_channel \<Rightarrow> mm_channel" where
  "metadata_bracketing md ch =
     (if isFlashBracketingEnabled ch \<and> is_good_frame_idx_range_valid md then
        upd_queue (\<lambda>q. q\<lparr>expected_frame_id := min_frame_idx md,
                         expected_frame_id_without_led := max_frame_idx md\<rparr>) ch
      else if is_good_frame_idx_range_valid md then
        (set_expected (min_frame_idx md) ch)
          \<lparr>bracketingState := MM_CHANNEL_BRACKETING_STATE_ACTIVE\<rparr>
      else ch)"

definition metadata_control ::
    "cam_metadata_info \<Rightarrow> 32 word \<Rightarrow> mm_channel \<Rightarrow> (bool \<times> mm_channel) option" where
  "metadata_control md frame_idx ch =
     (case snapshot_stream_id (streams ch) of
        None \<Rightarrow> None
      | Some sid \<Rightarrow>
          if is_prep_snapshot_done_valid md \<and> is_good_frame_idx_range_valid md then Some (False, ch)
          else if isZoom1xFrameRequested ch then
            (if crop_1x_found sid md
             then Some (True, set_expected (frame_idx + 1) (ch\<lparr>isZoom1xFrameRequested := False\<rparr>))
             else do {
               ch \<leftarrow> mm_channel_superbuf_flush_matched (add_expected max_future_frame_offset ch);
               Some (True, ch)
             })
          else do {
            ch \<leftarrow> metadata_expectation md ch;
            Some (True, metadata_bracketing md ch)
          })"

text \<open>The result is whether the code's is 0.\<close>

definition mm_channel_handle_metadata ::
    "mm_camera_buf_info \<Rightarrow> mm_channel \<Rightarrow> (bool \<times> mm_channel) option" where
  "mm_channel_handle_metadata buf_info ch =
     (case mm_channel_util_get_stream_by_handler ch (bi_stream_id buf_info) of
        None \<Rightarrow> Some (False, ch)
      | Some stream_obj \<Rightarrow>
          (case st_stream_info stream_obj of
             None \<Rightarrow> Some (False, ch)
           | Some stream_type \<Rightarrow>
               if stream_type \<noteq> CAM_STREAM_TYPE_METADATA then Some (True, ch)
               else
                 (case bi_buf buf_info of
                    None \<Rightarrow> None
                  | Some b \<Rightarrow>
                      (case bd_buffer b of
                         None \<Rightarrow> Some (False, ch)
                       | Some md \<Rightarrow> do {
                           ch \<leftarrow> (if is_frame_id_reset md then do {
                                   ch \<leftarrow> mm_channel_superbuf_flush CAM_STREAM_TYPE_DEFAULT ch;
                                   Some (set_expected 1 ch)
                                 } else Some ch);
                           if is_meta_invalid md then Some (False, ch)
                           else if st_own stream_obj then
                             metadata_control md (bi_frame_idx buf_info) ch
                           else Some (True, ch)
                         }))))"

section \<open>Matching\<close>

text \<open>The scan of the queue. It returns the position of an unmatched super buffer of the frame
  index, the number of other unmatched ones passed (a byte), the first of them that is older
  (\<open>last_buf\<close>) and the first that is newer (\<open>insert_before_buf\<close>).\<close>

type_synonym scan_result = "nat option \<times> 8 word \<times> nat option \<times> nat option"

fun superbuf_scan ::
    "32 word \<Rightarrow> mm_channel_queue_node list \<Rightarrow> nat \<Rightarrow> 8 word \<Rightarrow> nat option \<Rightarrow> nat option \<Rightarrow> scan_result"
where
  "superbuf_scan f [] pos unmatched last_buf ins = (None, unmatched, last_buf, ins)"
| "superbuf_scan f (sb # sbs) pos unmatched last_buf ins =
     (if matched sb then superbuf_scan f sbs (Suc pos) unmatched last_buf ins
      else if f = sb_frame_idx sb then (Some pos, unmatched, last_buf, ins)
      else superbuf_scan f sbs (Suc pos) (unmatched + 1)
             (if last_buf = None \<and> sb_frame_idx sb < f then Some pos else last_buf)
             (if ins = None \<and> f < sb_frame_idx sb then Some pos else ins))"

definition superbuf_complete :: "mm_channel_queue_node \<Rightarrow> bool" where
  "superbuf_complete sb \<longleftrightarrow> list_all (\<lambda>i. bi_frame_idx i \<noteq> 0) (slots sb)"

text \<open>Giving back the frames of the node at a position and taking it off the queue.\<close>

definition release_node :: "nat \<Rightarrow> mm_channel \<Rightarrow> mm_channel option" where
  "release_node p ch = do {
     ch \<leftarrow> qbuf_framed (que (superbuf_queue ch) ! p) ch;
     Some (upd_queue (\<lambda>q. q\<lparr>que := take p (que q) @ drop (Suc p) (que q),
                            que_size := que_size q - 1\<rparr>) ch)
   }"

text \<open>The loop over \<open>last_buf\<close> up to \<open>pos\<close>: each round takes off the node at \<open>last_buf\<close>, and its
  successor is then at that position.\<close>

fun release_older :: "nat \<Rightarrow> nat \<Rightarrow> mm_channel \<Rightarrow> mm_channel option" where
  "release_older 0 last_buf ch = Some ch"
| "release_older (Suc n) last_buf ch = release_node last_buf ch \<bind> release_older n last_buf"

definition superbuf_matched :: "mm_camera_buf_info \<Rightarrow> nat option \<Rightarrow> nat \<Rightarrow> mm_channel \<Rightarrow> mm_channel option" where
  "superbuf_matched buf_info last_buf pos ch =
     (let ch1 = (if isFlashBracketingEnabled ch
                 then (upd_queue (\<lambda>q. q\<lparr>expected_frame_id := expected_frame_id_without_led q\<rparr>) ch)
                        \<lparr>isFlashBracketingEnabled := False\<rparr>
                 else upd_queue (\<lambda>q. q\<lparr>expected_frame_id :=
                        bi_frame_idx buf_info + ucast (post_frame_skip q)\<rparr>) ch);
          ch2 = upd_queue (\<lambda>q. q\<lparr>match_cnt := match_cnt q + 1\<rparr>) ch1
      in case last_buf of None \<Rightarrow> Some ch2 | Some l \<Rightarrow> release_older (pos - l) l ch2)"

definition superbuf_found ::
    "mm_camera_buf_info \<Rightarrow> nat \<Rightarrow> nat option \<Rightarrow> nat \<Rightarrow> mm_channel \<Rightarrow> mm_channel option" where
  "superbuf_found buf_info s_idx last_buf pos ch =
     (let sb = que (superbuf_queue ch) ! pos;
          sb1 = sb\<lparr>super_buf := (super_buf sb)[s_idx := buf_info]\<rparr>;
          sb2 = sb1\<lparr>matched := superbuf_complete sb1\<rparr>;
          ch1 = upd_queue (\<lambda>q. q\<lparr>que := (que q)[pos := sb2]\<rparr>) ch
      in if matched sb2 then superbuf_matched buf_info last_buf pos ch1 else Some ch1)"

text \<open>A new super buffer with the frame, at the position or at the end. Taking the oldest node off
  the queue first moves the position of \<open>insert_before_buf\<close> one down.\<close>

definition superbuf_insert ::
    "mm_camera_buf_info \<Rightarrow> nat \<Rightarrow> nat option \<Rightarrow> mm_channel \<Rightarrow> mm_channel option" where
  "superbuf_insert buf_info s_idx ins ch =
     (let (new_buf, ch1) = alloc ch; (new_node, ch2) = alloc ch1
      in if new_buf \<and> new_node then
           let q = superbuf_queue ch2;
               sb = \<lparr>num_of_bufs = num_streams q,
                     super_buf = (replicate MAX_STREAM_NUM_IN_BUNDLE no_buf_info)[s_idx := buf_info],
                     matched = (num_streams q = 1), sb_frame_idx = bi_frame_idx buf_info\<rparr>;
               at = (case ins of None \<Rightarrow> length (que q) | Some p \<Rightarrow> p);
               q1 = q\<lparr>que := take at (que q) @ sb # drop at (que q), que_size := que_size q + 1\<rparr>
           in Some (ch2\<lparr>superbuf_queue :=
                (if num_streams q = 1
                 then q1\<lparr>expected_frame_id := bi_frame_idx buf_info + ucast (post_frame_skip q),
                         match_cnt := match_cnt q + 1\<rparr>
                 else q1)\<rparr>)
         else mm_channel_qbuf (bi_buf buf_info) ch2)"

definition superbuf_not_found ::
    "mm_camera_buf_info \<Rightarrow> nat \<Rightarrow> 8 word \<Rightarrow> nat option \<Rightarrow> nat option \<Rightarrow> mm_channel \<Rightarrow> mm_channel option" where
  "superbuf_not_found buf_info s_idx unmatched last_buf ins ch =
     (if max_unmatched_frames (superbuf_queue ch) < unmatched
      then (case last_buf of
              None \<Rightarrow> mm_channel_qbuf (bi_buf buf_info) ch
            | Some l \<Rightarrow>
                release_node l ch \<bind>
                  superbuf_insert buf_info s_idx
                    (map_option (\<lambda>p. if l < p then p - 1 else p) ins))
      else superbuf_insert buf_info s_idx ins ch)"

definition superbuf_comp :: "mm_camera_buf_info \<Rightarrow> nat \<Rightarrow> mm_channel \<Rightarrow> mm_channel option" where
  "superbuf_comp buf_info s_idx ch =
     (case superbuf_scan (bi_frame_idx buf_info) (que (superbuf_queue ch)) 0 0 None None of
        (Some pos, _, last_buf, _) \<Rightarrow> superbuf_found buf_info s_idx last_buf pos ch
      | (None, unmatched, last_buf, ins) \<Rightarrow> superbuf_not_found buf_info s_idx unmatched last_buf ins ch)"

fun bundled_index :: "32 word \<Rightarrow> 32 word list \<Rightarrow> nat" where
  "bundled_index s [] = 0"
| "bundled_index s (h # hs) = (if s = h then 0 else Suc (bundled_index s hs))"

definition mm_channel_superbuf_comp_and_enqueue :: "mm_camera_buf_info \<Rightarrow> mm_channel \<Rightarrow> mm_channel option" where
  "mm_channel_superbuf_comp_and_enqueue buf_info ch =
     (let q = superbuf_queue ch; n = unat (num_streams q);
          s_idx = bundled_index (bi_stream_id buf_info) (take n (bundled_streams q))
      in if s_idx = n then Some ch
         else do {
           (ok, ch) \<leftarrow> mm_channel_handle_metadata buf_info ch;
           if \<not> ok then mm_channel_qbuf (bi_buf buf_info) ch
           else if mm_channel_util_seq_comp_w_rollover (bi_frame_idx buf_info)
                     (expected_frame_id (superbuf_queue ch)) < 0
           then mm_channel_qbuf (bi_buf buf_info) ch
           else superbuf_comp buf_info s_idx ch
         })"

section \<open>The command thread\<close>

definition MM_CAMERA_POST_FLASH_PREVIEW_SKIP_CNT :: "8 word" where
  "MM_CAMERA_POST_FLASH_PREVIEW_SKIP_CNT = 3"

definition call_zsl :: "zsl_call \<Rightarrow> mm_channel \<Rightarrow> mm_channel" where
  "call_zsl c ch = ch\<lparr>zsl_calls := zsl_calls ch @ [c]\<rparr>"

text \<open>The body of the dispatch loop for a dequeued super buffer: the account of the request, and
  the command for the callback thread.\<close>

definition dispatch_account :: "super_buf_notify_mode \<Rightarrow> mm_channel \<Rightarrow> mm_channel" where
  "dispatch_account mode ch =
     (if mode = MM_CAMERA_SUPER_BUF_NOTIFY_BURST then
        let ch = ch\<lparr>pending_cnt := pending_cnt ch - 1\<rparr>
        in if pending_cnt ch = 0 \<and> startZSlSnapshotCalled ch \<and> \<not> manualZSLSnapshot ch
           then (call_zsl Stop_zsl_snapshot
                  (ch\<lparr>previewSkipCnt := MM_CAMERA_POST_FLASH_PREVIEW_SKIP_CNT\<rparr>))
                  \<lparr>startZSlSnapshotCalled := False\<rparr>
           else ch
      else ch)"

definition cb_thread_enq :: "mm_camera_super_buf \<Rightarrow> mm_channel \<Rightarrow> mm_channel" where
  "cb_thread_enq m ch = (let (ok, ch1) = enq_alloc ch in if ok then ch1\<lparr>cb_cmds := cb_cmds ch1 @ [m]\<rparr> else ch1)"

definition dispatch_superbuf :: "mm_channel_queue_node \<Rightarrow> mm_channel \<Rightarrow> mm_channel option" where
  "dispatch_superbuf node ch =
     (if ch_notify_cb ch then
        let (ok, ch1) = alloc ch
        in if ok then Some (cb_thread_enq
                        \<lparr>msb_ch_id = ch_my_hdl ch1, msb_num_bufs = num_of_bufs node,
                         msb_bufs = map bi_buf (slots node)\<rparr> ch1)
           else qbuf_slots node ch1
      else qbuf_slots node ch)"

partial_function (option) dispatch_loop :: "super_buf_notify_mode \<Rightarrow> mm_channel \<Rightarrow> mm_channel option" where
  "dispatch_loop mode ch =
     (if 0 < pending_cnt ch \<or> mode = MM_CAMERA_SUPER_BUF_NOTIFY_CONTINUOUS
      then case mm_channel_superbuf_dequeue (superbuf_queue ch) of
             (None, q) \<Rightarrow> Some (ch\<lparr>superbuf_queue := q\<rparr>)
           | (Some node, q) \<Rightarrow>
               dispatch_superbuf node (dispatch_account mode (ch\<lparr>superbuf_queue := q\<rparr>))
                 \<bind> dispatch_loop mode
      else Some ch)"

definition request_data :: "32 word \<Rightarrow> mm_channel \<Rightarrow> mm_channel option" where
  "request_data num_buf_requested ch = do {
     ch \<leftarrow> mm_channel_superbuf_skip (ch\<lparr>pending_cnt := num_buf_requested\<rparr>);
     Some (
       if 0 < pending_cnt ch \<and>
          (needLEDFlash ch \<or> bracketingState ch \<noteq> MM_CHANNEL_BRACKETING_STATE_OFF) \<and>
          \<not> manualZSLSnapshot ch \<and> \<not> startZSlSnapshotCalled ch
       then (call_zsl Start_zsl_snapshot ch)
              \<lparr>startZSlSnapshotCalled := True, needLEDFlash := False, previewSkipCnt := 0\<rparr>
       else if pending_cnt ch = 0 \<and> startZSlSnapshotCalled ch \<and> \<not> manualZSLSnapshot ch
       then (call_zsl Stop_zsl_snapshot ch)
              \<lparr>startZSlSnapshotCalled := False, needLEDFlash := False,
               bracketingState := MM_CHANNEL_BRACKETING_STATE_OFF\<rparr>
       else ch)
   }"

definition ae_bracketing :: "32 word \<Rightarrow> mm_channel \<Rightarrow> mm_channel option" where
  "ae_bracketing start ch = do {
     ch \<leftarrow> mm_channel_superbuf_flush CAM_STREAM_TYPE_DEFAULT ch;
     Some (ch\<lparr>bracketingState :=
       (if start \<noteq> 0 then MM_CHANNEL_BRACKETING_STATE_WAIT_GOOD_FRAME_IDX
        else MM_CHANNEL_BRACKETING_STATE_OFF)\<rparr>)
   }"

fun general_cmd :: "mm_camera_generic_cmd_type \<Rightarrow> 32 word \<Rightarrow> mm_channel \<Rightarrow> mm_channel option" where
  "general_cmd MM_CAMERA_GENERIC_CMD_TYPE_AE_BRACKETING start ch = ae_bracketing start ch"
| "general_cmd MM_CAMERA_GENERIC_CMD_TYPE_AF_BRACKETING start ch = ae_bracketing start ch"
| "general_cmd MM_CAMERA_GENERIC_CMD_TYPE_MTF_BRACKETING start ch = ae_bracketing start ch"
| "general_cmd MM_CAMERA_GENERIC_CMD_TYPE_FLASH_BRACKETING start ch =
     Some (ch\<lparr>isFlashBracketingEnabled := (start \<noteq> 0)\<rparr>)"
| "general_cmd MM_CAMERA_GENERIC_CMD_TYPE_ZOOM_1X start ch =
     Some (ch\<lparr>isZoom1xFrameRequested := (start \<noteq> 0)\<rparr>)"

fun process_cmd :: "mm_camera_cmdcb \<Rightarrow> mm_channel \<Rightarrow> mm_channel option" where
  "process_cmd (MM_CAMERA_CMD_TYPE_DATA_CB buf) ch = mm_channel_superbuf_comp_and_enqueue buf ch"
| "process_cmd (MM_CAMERA_CMD_TYPE_REQ_DATA_CB n) ch = request_data n ch"
| "process_cmd (MM_CAMERA_CMD_TYPE_SUPER_BUF_DATA_CB m) ch = Some ch"
| "process_cmd (MM_CAMERA_CMD_TYPE_CONFIG_NOTIFY mode) ch =
     Some (upd_queue (\<lambda>q. q\<lparr>notify_mode := mode\<rparr>) ch)"
| "process_cmd MM_CAMERA_CMD_TYPE_START_ZSL ch =
     Some (call_zsl Start_zsl_snapshot (ch\<lparr>manualZSLSnapshot := True\<rparr>))"
| "process_cmd MM_CAMERA_CMD_TYPE_STOP_ZSL ch =
     Some (call_zsl Stop_zsl_snapshot (ch\<lparr>manualZSLSnapshot := False\<rparr>))"
| "process_cmd (MM_CAMERA_CMD_TYPE_FLUSH_QUEUE frame_idx t) ch = do {
     ch \<leftarrow> mm_channel_superbuf_flush t (set_expected frame_idx ch);
     Some (ch\<lparr>sync_posts := sync_posts ch + 1\<rparr>)
   }"
| "process_cmd (MM_CAMERA_CMD_TYPE_GENERAL t start) ch = general_cmd t start ch"

text \<open>Every command but the flush, which returns, is followed by the overflow and dispatch loops.\<close>

fun is_flush_cmd :: "mm_camera_cmdcb \<Rightarrow> bool" where
  "is_flush_cmd (MM_CAMERA_CMD_TYPE_FLUSH_QUEUE _ _) = True"
| "is_flush_cmd _ = False"

definition mm_channel_process_stream_buf :: "mm_camera_cmdcb \<Rightarrow> mm_channel \<Rightarrow> mm_channel option" where
  "mm_channel_process_stream_buf cmd_cb ch = do {
     ch \<leftarrow> process_cmd cmd_cb ch;
     if is_flush_cmd cmd_cb then Some ch
     else do {
       let mode = notify_mode (superbuf_queue ch);
       ch \<leftarrow> mm_channel_superbuf_bufdone_overflow ch;
       dispatch_loop mode ch
     }
   }"

text \<open>The commands the thread takes off its queue, one after the other.\<close>

fun process_stream_bufs :: "mm_camera_cmdcb list \<Rightarrow> mm_channel \<Rightarrow> mm_channel option" where
  "process_stream_bufs [] ch = Some ch"
| "process_stream_bufs (c # cs) ch = mm_channel_process_stream_buf c ch \<bind> process_stream_bufs cs"

end
