(* ===== verification/MmQueueInv.thy ===== *)
theory MmQueueInv
  imports MmMatch "HOL-Library.Multiset"
begin

text \<open>
  The invariant of the super buffer queue and the account of the buffers. \<open>queue_ok\<close> says that the
  matched super buffers are at the front, that the others follow in the order of their frame index,
  not more of them than one above the limit, and that the two counters are right; every slot is empty or holds the frame of its stream with the
  index of its super buffer. \<open>evolves\<close> is what every operation does: it returns, keeps the
  invariant, and each buffer that was held or comes in is still held, has been given back or is in a
  message to the callback thread, once.
\<close>

section \<open>The invariant\<close>

definition buf_ok :: "32 word \<Rightarrow> 32 word \<Rightarrow> mm_camera_buf_def option \<Rightarrow> bool" where
  "buf_ok h f b = (case b of None \<Rightarrow> False | Some d \<Rightarrow> bd_stream_id d = h \<and> bd_frame_idx d = f)"

definition info_ok :: "mm_camera_buf_info \<Rightarrow> bool" where
  "info_ok i \<longleftrightarrow> buf_ok (bi_stream_id i) (bi_frame_idx i) (bi_buf i)"

definition slot_ok :: "32 word \<Rightarrow> mm_camera_buf_info \<Rightarrow> 32 word \<Rightarrow> bool" where
  "slot_ok f i h \<longleftrightarrow> i = no_buf_info \<or> (bi_stream_id i = h \<and> bi_frame_idx i = f \<and> info_ok i)"

definition node_ok :: "32 word list \<Rightarrow> mm_channel_queue_node \<Rightarrow> bool" where
  "node_ok hdls sb \<longleftrightarrow>
     length (super_buf sb) = MAX_STREAM_NUM_IN_BUNDLE \<and>
     unat (num_of_bufs sb) = length hdls \<and>
     list_all2 (slot_ok (sb_frame_idx sb)) (slots sb) hdls \<and>
     (matched sb \<longrightarrow> no_buf_info \<notin> set (slots sb))"

definition hdls :: "mm_channel_queue \<Rightarrow> 32 word list" where
  "hdls q = take (unat (num_streams q)) (bundled_streams q)"

definition matched_part :: "mm_channel_queue \<Rightarrow> mm_channel_queue_node list" where
  "matched_part q = takeWhile matched (que q)"

definition unmatched_part :: "mm_channel_queue \<Rightarrow> mm_channel_queue_node list" where
  "unmatched_part q = dropWhile matched (que q)"

definition queue_ok :: "mm_channel_queue \<Rightarrow> bool" where
  "queue_ok q \<longleftrightarrow>
     length (hdls q) = unat (num_streams q) \<and> hdls q \<noteq> [] \<and>
     length (hdls q) \<le> MAX_STREAM_NUM_IN_BUNDLE \<and> distinct (hdls q) \<and>
     list_all (node_ok (hdls q)) (que q) \<and>
     list_all (\<lambda>sb. \<not> matched sb) (unmatched_part q) \<and>
     sorted_wrt (<) (map sb_frame_idx (unmatched_part q)) \<and>
     match_cnt q = of_nat (length (matched_part q)) \<and>
     que_size q = of_nat (length (que q)) \<and>
     (length (hdls q) = 1 \<longrightarrow> unmatched_part q = []) \<and>
     (unat (max_unmatched_frames q) < 255 \<longrightarrow>
       length (unmatched_part q) \<le> Suc (unat (max_unmatched_frames q)))"

lemma parts_append: "matched_part q @ unmatched_part q = que q"
  by (simp add: matched_part_def unmatched_part_def)

lemma partsI:
  assumes "que q = ms @ us" "list_all matched ms" "list_all (\<lambda>sb. \<not> matched sb) us"
  shows "matched_part q = ms" "unmatched_part q = us"
proof -
  have us: "takeWhile matched us = []" "dropWhile matched us = us"
    using assms(3) by (cases us; simp)+
  show "matched_part q = ms" "unmatched_part q = us"
    using assms us by (simp_all add: matched_part_def unmatched_part_def list_all_iff)
qed

lemma matched_part_matched: "list_all matched (matched_part q)"
  by (auto simp: matched_part_def list_all_iff dest: set_takeWhileD)

lemma queue_okE:
  assumes "queue_ok q"
  obtains ms us where "que q = ms @ us" "list_all matched ms" "list_all (\<lambda>sb. \<not> matched sb) us"
    "sorted_wrt (<) (map sb_frame_idx us)" "match_cnt q = of_nat (length ms)"
    "que_size q = of_nat (length ms + length us)" "length (hdls q) = 1 \<longrightarrow> us = []"
    "list_all (node_ok (hdls q)) ms" "list_all (node_ok (hdls q)) us"
    "unat (max_unmatched_frames q) < 255 \<longrightarrow> length us \<le> Suc (unat (max_unmatched_frames q))"
proof (rule that [of "matched_part q" "unmatched_part q"])
  have split: "que q = matched_part q @ unmatched_part q"
    by (simp add: parts_append)
  show "que q = matched_part q @ unmatched_part q"
    by (rule split)
  show "que_size q = of_nat (length (matched_part q) + length (unmatched_part q))"
    using assms split by (metis length_append queue_ok_def)
  show "list_all (node_ok (hdls q)) (matched_part q)" "list_all (node_ok (hdls q)) (unmatched_part q)"
    using assms by (simp_all add: queue_ok_def split)
qed (use assms matched_part_matched in \<open>auto simp: queue_ok_def\<close>)

definition streams_known :: "mm_channel \<Rightarrow> bool" where
  "streams_known ch \<longleftrightarrow>
     list_all (\<lambda>h. mm_channel_util_get_stream_by_handler ch h \<noteq> None) (hdls (superbuf_queue ch))"

text \<open>A message to the callback thread: a buffer of every bundled stream, all with one index.\<close>

definition super_buf_ok :: "32 word list \<Rightarrow> mm_camera_super_buf \<Rightarrow> bool" where
  "super_buf_ok hs m \<longleftrightarrow>
     unat (msb_num_bufs m) = length hs \<and>
     (case msb_bufs m of
        Some d # _ \<Rightarrow> list_all2 (\<lambda>b h. buf_ok h (bd_frame_idx d) b) (msb_bufs m) hs
      | _ \<Rightarrow> False)"

definition channel_ok :: "mm_channel \<Rightarrow> bool" where
  "channel_ok ch \<longleftrightarrow>
     queue_ok (superbuf_queue ch) \<and> streams_known ch \<and>
     list_all (super_buf_ok (hdls (superbuf_queue ch))) (cb_cmds ch)"

section \<open>The account of the buffers\<close>

definition node_bufs :: "mm_channel_queue_node \<Rightarrow> mm_camera_buf_def list" where
  "node_bufs sb = List.map_filter bi_buf (slots sb)"

definition held :: "mm_channel \<Rightarrow> mm_camera_buf_def list" where
  "held ch = concat (map node_bufs (que (superbuf_queue ch)))"

definition given_back :: "mm_channel \<Rightarrow> mm_camera_buf_def list" where
  "given_back ch = map snd (qbufs ch)"

definition sent :: "mm_channel \<Rightarrow> mm_camera_buf_def list" where
  "sent ch = concat (map (\<lambda>m. List.map_filter id (msb_bufs m)) (cb_cmds ch))"

definition bag :: "mm_channel \<Rightarrow> mm_camera_buf_def multiset" where
  "bag ch = mset (held ch) + mset (given_back ch) + mset (sent ch)"

text \<open>No super buffer has the frame index 0, the index of an empty slot.\<close>

definition frames_counted :: "mm_channel \<Rightarrow> bool" where
  "frames_counted ch \<longleftrightarrow> list_all (\<lambda>sb. sb_frame_idx sb \<noteq> 0) (que (superbuf_queue ch))"

definition ch_setup :: "mm_channel \<Rightarrow> mm_stream list \<times> 8 word \<times> 32 word list \<times> 8 word \<times> 8 word" where
  "ch_setup ch = (streams ch, num_streams (superbuf_queue ch), bundled_streams (superbuf_queue ch),
     max_unmatched_frames (superbuf_queue ch), water_mark (superbuf_queue ch))"

definition matched_num :: "mm_channel \<Rightarrow> nat" where
  "matched_num ch = length (filter matched (que (superbuf_queue ch)))"

lemma matched_num_part: "queue_ok (superbuf_queue ch) \<Longrightarrow> matched_num ch = length (matched_part (superbuf_queue ch))"
proof -
  assume "queue_ok (superbuf_queue ch)"
  then have "filter matched (unmatched_part (superbuf_queue ch)) = []"
    by (auto simp: queue_ok_def list_all_iff filter_empty_conv)
  moreover have "filter matched (matched_part (superbuf_queue ch)) = matched_part (superbuf_queue ch)"
    using matched_part_matched by (auto simp: filter_id_conv list_all_iff)
  ultimately show ?thesis
    unfolding matched_num_def parts_append [of "superbuf_queue ch", symmetric] by simp
qed

definition evolves :: "bool \<Rightarrow> mm_camera_buf_def multiset \<Rightarrow> mm_channel \<Rightarrow> mm_channel \<Rightarrow> bool" where
  "evolves P inc ch ch' \<longleftrightarrow>
     channel_ok ch' \<and> ch_setup ch' = ch_setup ch \<and>
     set (held ch') \<subseteq> set (held ch) \<union> set_mset inc \<and>
     matched_num ch' \<le> matched_num ch + size inc \<and>
     (P \<and> frames_counted ch \<and> enq_mem ch = [] \<longrightarrow>
       frames_counted ch' \<and> enq_mem ch' = [] \<and> bag ch' = bag ch + inc)"

lemma evolves_refl: "channel_ok ch \<Longrightarrow> evolves P {#} ch ch"
  by (simp add: evolves_def)

lemma evolves_trans:
  "evolves P a ch1 ch2 \<Longrightarrow> evolves P b ch2 ch3 \<Longrightarrow> evolves P (a + b) ch1 ch3"
  by (auto simp: evolves_def)

lemma evolves_ok: "evolves P a ch ch' \<Longrightarrow> channel_ok ch'"
  by (simp add: evolves_def)

lemma evolves_bind:
  assumes "returns m (evolves P a ch)"
    and "\<And>ch1. channel_ok ch1 \<Longrightarrow> evolves P a ch ch1 \<Longrightarrow> returns (f ch1) (evolves P b ch1)"
  shows "returns (m \<bind> f) (evolves P (a + b) ch)"
  unfolding returns_bind
  using assms by (auto intro!: returns_mono [OF assms(1)] returns_mono [OF assms(2)]
    intro: evolves_trans evolves_ok)

lemma evolves_bind0:
  assumes "returns m (evolves P {#} ch)"
    and "\<And>ch1. channel_ok ch1 \<Longrightarrow> evolves P {#} ch ch1 \<Longrightarrow> returns (f ch1) (evolves P b ch1)"
  shows "returns (m \<bind> f) (evolves P b ch)"
  using evolves_bind [OF assms] by simp

lemma evolves_then:
  assumes "returns m (evolves P a ch)"
    and "\<And>ch1. channel_ok ch1 \<Longrightarrow> evolves P {#} ch1 (f ch1)"
  shows "returns (m \<bind> (\<lambda>ch. Some (f ch))) (evolves P a ch)"
  using evolves_bind [OF assms(1), of "\<lambda>ch. Some (f ch)" "{#}"] assms(2) by simp

text \<open>An update of the fields that steer the channel.\<close>

lemma evolves_control:
  assumes "channel_ok ch" "ch_setup ch' = ch_setup ch"
    "que (superbuf_queue ch') = que (superbuf_queue ch)"
    "que_size (superbuf_queue ch') = que_size (superbuf_queue ch)"
    "match_cnt (superbuf_queue ch') = match_cnt (superbuf_queue ch)"
    "qbufs ch' = qbufs ch" "cb_cmds ch' = cb_cmds ch" "enq_mem ch' = enq_mem ch"
  shows "evolves P {#} ch ch'"
proof -
  have "hdls (superbuf_queue ch') = hdls (superbuf_queue ch)"
    "num_streams (superbuf_queue ch') = num_streams (superbuf_queue ch)" "streams ch' = streams ch"
    "matched_part (superbuf_queue ch') = matched_part (superbuf_queue ch)"
    "unmatched_part (superbuf_queue ch') = unmatched_part (superbuf_queue ch)"
    "max_unmatched_frames (superbuf_queue ch') = max_unmatched_frames (superbuf_queue ch)"
    using assms by (simp_all add: hdls_def ch_setup_def matched_part_def unmatched_part_def)
  then show ?thesis
    using assms
    by (simp add: evolves_def channel_ok_def queue_ok_def streams_known_def held_def bag_def
        given_back_def sent_def frames_counted_def matched_num_def
        mm_channel_util_get_stream_by_handler_def)
qed

section \<open>Giving back the frames of a super buffer\<close>

lemma get_stream_cong:
  "streams ch' = streams ch \<Longrightarrow>
   mm_channel_util_get_stream_by_handler ch' = mm_channel_util_get_stream_by_handler ch"
  by (simp add: mm_channel_util_get_stream_by_handler_def fun_eq_iff)

definition gives :: "mm_channel option \<Rightarrow> mm_channel \<Rightarrow> mm_camera_buf_def list \<Rightarrow> bool" where
  "gives m ch bs \<longleftrightarrow> (\<exists>qs. m = Some (ch\<lparr>qbufs := qbufs ch @ qs\<rparr>) \<and> map snd qs = bs)"

lemma qbuf_all_gives:
  assumes "\<And>b. b \<in> set bs \<Longrightarrow>
    \<exists>d. b = Some d \<and> mm_channel_util_get_stream_by_handler ch (bd_stream_id d) \<noteq> None"
  shows "gives (qbuf_all bs ch) ch (map the bs)"
  using assms
proof (induction bs arbitrary: ch)
  case Nil
  then show ?case by (auto simp: gives_def intro: exI [of _ "[]"])
next
  case (Cons b bs)
  obtain d s where d: "b = Some d" "mm_channel_util_get_stream_by_handler ch (bd_stream_id d) = Some s"
    using Cons.prems [of b] by auto
  define t where "t = (if \<not> st_own s then Linked_stream (st_my_hdl s) else Own_stream (st_my_hdl s))"
  let ?ch = "ch\<lparr>qbufs := qbufs ch @ [(t, d)]\<rparr>"
  have step: "mm_channel_qbuf b ch = Some ?ch"
    using d by (simp add: mm_channel_qbuf_def t_def Let_def)
  have "gives (qbuf_all bs ?ch) ?ch (map the bs)"
    using Cons.prems by (intro Cons.IH) (simp add: get_stream_cong [of ?ch ch])
  then obtain qs where "qbuf_all bs ?ch = Some (?ch\<lparr>qbufs := qbufs ?ch @ qs\<rparr>)" "map snd qs = map the bs"
    unfolding gives_def by blast
  then show ?case
    unfolding gives_def using step d by (intro exI [of _ "(t, d) # qs"]) simp
qed

lemma node_ok_slot:
  assumes "node_ok hs sb" "i \<in> set (slots sb)"
  shows "i = no_buf_info \<or>
    (\<exists>d. bi_buf i = Some d \<and> bd_stream_id d \<in> set hs \<and> bi_frame_idx i = sb_frame_idx sb \<and>
         bd_frame_idx d = sb_frame_idx sb)"
proof -
  obtain k where k: "k < length (slots sb)" "slots sb ! k = i"
    using assms(2) by (auto simp: in_set_conv_nth)
  have "slot_ok (sb_frame_idx sb) i (hs ! k)" "k < length hs"
    using assms(1) k by (auto simp: node_ok_def list_all2_conv_all_nth)
  then show ?thesis
    by (auto simp: slot_ok_def info_ok_def buf_ok_def split: option.splits)
qed

lemma qbuf_filter_gives:
  assumes "node_ok (hdls (superbuf_queue ch)) sb" "streams_known ch" "streams ch' = streams ch"
    and "\<And>i. i \<in> set (slots sb) \<Longrightarrow> Q i \<Longrightarrow> bi_buf i \<noteq> None"
  shows "gives (qbuf_all (map bi_buf (filter Q (slots sb))) ch') ch'
    (List.map_filter bi_buf (filter Q (slots sb)))"
proof -
  have "gives (qbuf_all (map bi_buf (filter Q (slots sb))) ch') ch'
    (map the (map bi_buf (filter Q (slots sb))))"
  proof (rule qbuf_all_gives)
    fix b assume "b \<in> set (map bi_buf (filter Q (slots sb)))"
    then obtain i where i: "i \<in> set (slots sb)" "Q i" "b = bi_buf i" by auto
    then obtain d where "bi_buf i = Some d" "bd_stream_id d \<in> set (hdls (superbuf_queue ch))"
      using node_ok_slot [OF assms(1) i(1)] assms(4) [of i] by (auto simp: no_buf_info_def)
    then show "\<exists>d. b = Some d \<and> mm_channel_util_get_stream_by_handler ch' (bd_stream_id d) \<noteq> None"
      using i assms(2) by (auto simp: streams_known_def list_all_iff get_stream_cong [OF assms(3)])
  qed
  moreover have "filter (\<lambda>i. bi_buf i \<noteq> None) (filter Q (slots sb)) = filter Q (slots sb)"
    using assms(4) by (subst filter_id_conv) auto
  ultimately show ?thesis
    by (simp add: List.map_filter_def comp_def del: filter_filter)
qed

lemma map_filter_filtered:
  "(\<And>i. i \<in> set xs \<Longrightarrow> f i \<noteq> None \<Longrightarrow> Q i) \<Longrightarrow> List.map_filter f (filter Q xs) = List.map_filter f xs"
  by (induction xs) (auto simp: List.map_filter_simps split: option.splits)

lemma qbuf_present_gives:
  assumes "node_ok (hdls (superbuf_queue ch)) sb" "streams_known ch" "streams ch' = streams ch"
  shows "gives (qbuf_present sb ch') ch' (node_bufs sb)"
proof -
  have "List.map_filter bi_buf (filter (\<lambda>i. bi_buf i \<noteq> None) (slots sb)) = node_bufs sb"
    unfolding node_bufs_def by (rule map_filter_filtered)
  then show ?thesis
    using qbuf_filter_gives [OF assms, of "\<lambda>i. bi_buf i \<noteq> None"]
    unfolding qbuf_present_def by metis
qed

lemma qbuf_framed_gives:
  assumes "node_ok (hdls (superbuf_queue ch)) sb" "streams_known ch" "streams ch' = streams ch"
  shows "\<exists>bs. gives (qbuf_framed sb ch') ch' bs \<and> (sb_frame_idx sb \<noteq> 0 \<longrightarrow> bs = node_bufs sb)"
proof -
  have slot: "bi_buf i \<noteq> None" if "i \<in> set (slots sb)" "bi_frame_idx i \<noteq> 0" for i
    using node_ok_slot [OF assms(1) that(1)] that(2) by (auto simp: no_buf_info_def)
  have "List.map_filter bi_buf (filter (\<lambda>i. bi_frame_idx i \<noteq> 0) (slots sb)) = node_bufs sb"
    if "sb_frame_idx sb \<noteq> 0"
    unfolding node_bufs_def
  proof (rule map_filter_filtered)
    fix i assume "i \<in> set (slots sb)" "bi_buf i \<noteq> None"
    then show "bi_frame_idx i \<noteq> 0"
      using node_ok_slot [OF assms(1), of i] that by (auto simp: no_buf_info_def)
  qed
  moreover have "gives (qbuf_framed sb ch') ch'
      (List.map_filter bi_buf (filter (\<lambda>i. bi_frame_idx i \<noteq> 0) (slots sb)))"
    unfolding qbuf_framed_def by (rule qbuf_filter_gives [OF assms]) (rule slot)
  ultimately show ?thesis
    by blast
qed

lemma qbuf_of_type_gives:
  assumes "node_ok (hdls (superbuf_queue ch)) sb" "streams_known ch" "streams ch' = streams ch"
  shows "\<exists>bs. gives (qbuf_of_type t sb ch') ch' bs \<and>
    (t = CAM_STREAM_TYPE_DEFAULT \<longrightarrow> bs = node_bufs sb)"
proof -
  let ?Q = "\<lambda>i. case bi_buf i of None \<Rightarrow> False
    | Some b \<Rightarrow> CAM_STREAM_TYPE_DEFAULT = t \<or> t = bd_stream_type b"
  have "List.map_filter bi_buf (filter ?Q (slots sb)) = node_bufs sb" if "t = CAM_STREAM_TYPE_DEFAULT"
    unfolding node_bufs_def using that by (intro map_filter_filtered) (auto split: option.splits)
  moreover have "gives (qbuf_of_type t sb ch') ch' (List.map_filter bi_buf (filter ?Q (slots sb)))"
    unfolding qbuf_of_type_def using assms
    by (rule qbuf_filter_gives) (simp split: option.splits)
  ultimately show ?thesis
    by blast
qed

lemma qbuf_slots_gives:
  assumes "node_ok (hdls (superbuf_queue ch)) sb" "streams_known ch" "streams ch' = streams ch"
    and "matched sb"
  shows "gives (qbuf_slots sb ch') ch' (node_bufs sb)"
proof -
  have slot: "bi_buf i \<noteq> None" if "i \<in> set (slots sb)" for i
    using node_ok_slot [OF assms(1) that] assms(1,4) that by (auto simp: node_ok_def)
  then have "gives (qbuf_all (map bi_buf (filter (\<lambda>_. True) (slots sb))) ch') ch'
      (List.map_filter bi_buf (filter (\<lambda>_. True) (slots sb)))"
    by (intro qbuf_filter_gives [OF assms(1-3)])
  then show ?thesis
    by (simp add: qbuf_slots_def node_bufs_def)
qed

section \<open>Taking super buffers off the queue\<close>

lemma queue_okI:
  assumes "queue_ok q0" "hdls q = hdls q0" "num_streams q = num_streams q0"
    "max_unmatched_frames q = max_unmatched_frames q0"
    and que: "que q = ms @ us" "list_all matched ms" "list_all (\<lambda>sb. \<not> matched sb) us"
    and "sorted_wrt (<) (map sb_frame_idx us)" "match_cnt q = of_nat (length ms)"
    and "que_size q = of_nat (length ms + length us)" "length (hdls q0) = 1 \<longrightarrow> us = []"
    and "list_all (node_ok (hdls q0)) ms" "list_all (node_ok (hdls q0)) us"
    and "unat (max_unmatched_frames q0) < 255 \<longrightarrow> length us \<le> Suc (unat (max_unmatched_frames q0))"
  shows "queue_ok q"
  using assms partsI [OF que] by (simp add: queue_ok_def)

lemma queue_ok_remove:
  assumes "queue_ok q" "que q = as @ sb # bs"
  shows "queue_ok (q\<lparr>que := as @ bs, que_size := que_size q - 1,
    match_cnt := (if matched sb then match_cnt q - 1 else match_cnt q)\<rparr>)" (is "queue_ok ?q")
proof -
  obtain ms us where q: "que q = ms @ us" "list_all matched ms" "list_all (\<lambda>sb. \<not> matched sb) us"
    "sorted_wrt (<) (map sb_frame_idx us)" "match_cnt q = of_nat (length ms)"
    "que_size q = of_nat (length ms + length us)" "length (hdls q) = 1 \<longrightarrow> us = []"
    "list_all (node_ok (hdls q)) ms" "list_all (node_ok (hdls q)) us"
    "unat (max_unmatched_frames q) < 255 \<longrightarrow> length us \<le> Suc (unat (max_unmatched_frames q))"
    using assms(1) by (rule queue_okE)
  have hd: "hdls ?q = hdls q" by (simp add: hdls_def)
  from assms(2) q(1) have "as @ sb # bs = ms @ us" by simp
  then consider (m) x where "ms = as @ sb # x" "bs = x @ us" | (u) x where "us = x @ sb # bs" "as = ms @ x"
    by (auto simp: append_eq_append_conv2 append_eq_Cons_conv Cons_eq_append_conv)
  then show ?thesis
  proof cases
    case m
    then show ?thesis
      using q hd by (intro queue_okI [OF assms(1), of ?q "as @ x" us]) auto
  next
    case u
    then show ?thesis
      using q hd by (intro queue_okI [OF assms(1), of ?q ms "x @ bs"]) (auto simp: sorted_wrt_append)
  qed
qed

definition without :: "mm_channel_queue_node list \<Rightarrow> mm_channel_queue_node \<Rightarrow>
    mm_channel_queue_node list \<Rightarrow> mm_channel_queue \<Rightarrow> mm_channel_queue" where
  "without as sb bs q = q\<lparr>que := as @ bs, que_size := que_size q - 1,
     match_cnt := (if matched sb then match_cnt q - 1 else match_cnt q)\<rparr>"

lemma without_simps [simp]:
  "que (without as sb bs q) = as @ bs" "hdls (without as sb bs q) = hdls q"
  "notify_mode (without as sb bs q) = notify_mode q"
  "max_unmatched_frames (without as sb bs q) = max_unmatched_frames q"
  "num_streams (without as sb bs q) = num_streams q"
  "bundled_streams (without as sb bs q) = bundled_streams q"
  "water_mark (without as sb bs q) = water_mark q"
  by (simp_all add: without_def hdls_def)

lemma dequeue_internal_Some:
  "mm_channel_superbuf_dequeue_internal b q = (Some sb, q') \<longleftrightarrow>
   (\<exists>bs. que q = sb # bs \<and> (b \<longrightarrow> matched sb) \<and> q' = without [] sb bs q)"
  by (auto simp: mm_channel_superbuf_dequeue_internal_def without_def split: list.splits)

lemma dequeue_internal_None:
  "mm_channel_superbuf_dequeue_internal b q = (None, q') \<longleftrightarrow>
   q' = q \<and> (que q = [] \<or> b \<and> \<not> matched (hd (que q)))"
  by (auto simp: mm_channel_superbuf_dequeue_internal_def split: list.splits)

lemma evolves_removed:
  assumes ok: "channel_ok ch" and que: "que (superbuf_queue ch) = as @ sb # bs"
    and "P \<longrightarrow> sb_frame_idx sb \<noteq> 0 \<longrightarrow> mset (map snd qs) + mset ms = mset (node_bufs sb)"
    and "cb_cmds ch' = cb_cmds ch @ cs"
    and "mset (concat (map (\<lambda>m. List.map_filter id (msb_bufs m)) cs)) = mset ms"
    and "list_all (super_buf_ok (hdls (superbuf_queue ch))) cs"
    and "superbuf_queue ch' = without as sb bs (superbuf_queue ch)" "qbufs ch' = qbufs ch @ qs"
    and "streams ch' = streams ch" "enq_mem ch = [] \<longrightarrow> enq_mem ch' = []"
  shows "evolves P {#} ch ch'"
proof -
  have "queue_ok (superbuf_queue ch')"
    unfolding assms(7) without_def using ok que by (intro queue_ok_remove) (simp_all add: channel_ok_def)
  then have "channel_ok ch'"
    using assms by (simp add: channel_ok_def streams_known_def get_stream_cong [of ch' ch])
  moreover have "bag ch' = bag ch" if "P" "sb_frame_idx sb \<noteq> 0"
    using assms that by (simp add: bag_def held_def given_back_def sent_def add_ac)
  ultimately show ?thesis
    using assms by (auto simp: evolves_def ch_setup_def held_def frames_counted_def matched_num_def)
qed

lemma evolves_gives:
  assumes "channel_ok ch" "que (superbuf_queue ch) = as @ sb # bs"
    and "gives m (ch\<lparr>superbuf_queue := without as sb bs (superbuf_queue ch)\<rparr>) gb"
    and "P \<longrightarrow> sb_frame_idx sb \<noteq> 0 \<longrightarrow> gb = node_bufs sb"
  shows "returns m (\<lambda>ch'. evolves P {#} ch ch' \<and>
    superbuf_queue ch' = without as sb bs (superbuf_queue ch))"
proof -
  obtain qs where "m = Some (ch\<lparr>superbuf_queue := without as sb bs (superbuf_queue ch),
      qbufs := qbufs ch @ qs\<rparr>)" "map snd qs = gb"
    using assms(3) by (auto simp: gives_def)
  then show ?thesis
    using assms evolves_removed [OF assms(1,2), of P qs "[]" _ "[]"] by simp
qed

lemma queue_node_ok:
  "channel_ok ch \<Longrightarrow> sb \<in> set (que (superbuf_queue ch)) \<Longrightarrow>
   node_ok (hdls (superbuf_queue ch)) sb \<and> streams_known ch"
  by (simp add: channel_ok_def queue_ok_def list_all_iff)

lemma dequeued_evolves:
  assumes "channel_ok ch" "que (superbuf_queue ch) = sb # bs"
  shows "returns (qbuf_present sb (ch\<lparr>superbuf_queue := without [] sb bs (superbuf_queue ch)\<rparr>))
    (\<lambda>ch'. evolves P {#} ch ch' \<and> superbuf_queue ch' = without [] sb bs (superbuf_queue ch))"
proof (rule evolves_gives [OF assms(1)])
  show "que (superbuf_queue ch) = [] @ sb # bs" using assms by simp
qed (use queue_node_ok [OF assms(1), of sb] assms(2) in \<open>auto intro: qbuf_present_gives [of ch]\<close>)

lemma match_cnt_head:
  assumes "queue_ok q" "match_cnt q \<noteq> 0"
  obtains sb bs where "que q = sb # bs" "matched sb"
proof -
  have "matched_part q \<noteq> []"
    using assms by (auto simp: queue_ok_def)
  then show ?thesis
    using that by (cases "que q") (auto simp: matched_part_def split: if_splits)
qed

lemma returns_loop:
  assumes "returns m (\<lambda>ch'. evolves P {#} ch ch' \<and> superbuf_queue ch' = q')"
    and "\<And>ch'. channel_ok ch' \<Longrightarrow> superbuf_queue ch' = q' \<Longrightarrow>
      returns (f ch') (\<lambda>x. evolves P {#} ch' x \<and> Q x)"
  shows "returns (m \<bind> f) (\<lambda>x. evolves P {#} ch x \<and> Q x)"
  unfolding returns_bind
proof (rule returns_mono [OF assms(1)])
  fix ch1 assume ch1: "evolves P {#} ch ch1 \<and> superbuf_queue ch1 = q'"
  then have "returns (f ch1) (\<lambda>x. evolves P {#} ch1 x \<and> Q x)"
    using assms(2) evolves_ok by blast
  then show "returns (f ch1) (\<lambda>x. evolves P {#} ch x \<and> Q x)"
    by (rule returns_mono) (use ch1 evolves_trans [of P "{#}" ch ch1 "{#}"] in auto)
qed

lemma superbuf_trim_evolves:
  "channel_ok ch \<Longrightarrow> returns (superbuf_trim l ch) (\<lambda>ch'. evolves P {#} ch ch' \<and>
     match_cnt (superbuf_queue ch') \<le> ucast l)"
proof (induction "length (que (superbuf_queue ch))" arbitrary: ch rule: less_induct)
  case less
  show ?case
  proof (cases "ucast l < match_cnt (superbuf_queue ch)")
    case True
    then have "match_cnt (superbuf_queue ch) \<noteq> 0" by auto
    then obtain sb bs where que: "que (superbuf_queue ch) = sb # bs" "matched sb"
      using less.prems match_cnt_head by (auto simp: channel_ok_def)
    then have "mm_channel_superbuf_dequeue_internal True (superbuf_queue ch) =
        (Some sb, without [] sb bs (superbuf_queue ch))"
      by (simp add: dequeue_internal_Some)
    then have trim: "superbuf_trim l ch =
        qbuf_present sb (ch\<lparr>superbuf_queue := without [] sb bs (superbuf_queue ch)\<rparr>) \<bind> superbuf_trim l"
      using True by (subst superbuf_trim.simps) simp
    show ?thesis
      unfolding trim
      by (rule returns_loop [OF dequeued_evolves [OF less.prems que(1)]])
        (rule less.hyps, simp add: que)
  next
    case False
    then have "superbuf_trim l ch = Some ch"
      by (subst superbuf_trim.simps) simp
    then show ?thesis
      using less.prems False by (simp add: evolves_refl not_less)
  qed
qed

lemma superbuf_flush_evolves:
  "channel_ok ch \<Longrightarrow> P \<longrightarrow> t = CAM_STREAM_TYPE_DEFAULT \<Longrightarrow>
   returns (mm_channel_superbuf_flush t ch) (\<lambda>ch'. evolves P {#} ch ch' \<and>
     que (superbuf_queue ch') = [])"
proof (induction "length (que (superbuf_queue ch))" arbitrary: ch rule: less_induct)
  case less
  note ok = \<open>channel_ok ch\<close>
  show ?case
  proof (cases "que (superbuf_queue ch)")
    case Nil
    then have "mm_channel_superbuf_dequeue_internal False (superbuf_queue ch) = (None, superbuf_queue ch)"
      by (simp add: dequeue_internal_None)
    then show ?thesis
      using ok Nil by (subst mm_channel_superbuf_flush.simps) (simp add: evolves_refl)
  next
    case (Cons sb bs)
    let ?q = "without [] sb bs (superbuf_queue ch)"
    have "mm_channel_superbuf_dequeue_internal False (superbuf_queue ch) = (Some sb, ?q)"
      using Cons by (simp add: dequeue_internal_Some)
    then have flush: "mm_channel_superbuf_flush t ch =
        qbuf_of_type t sb (ch\<lparr>superbuf_queue := ?q\<rparr>) \<bind> mm_channel_superbuf_flush t"
      by (subst mm_channel_superbuf_flush.simps) simp
    obtain gb where "gives (qbuf_of_type t sb (ch\<lparr>superbuf_queue := ?q\<rparr>)) (ch\<lparr>superbuf_queue := ?q\<rparr>) gb"
      "t = CAM_STREAM_TYPE_DEFAULT \<longrightarrow> gb = node_bufs sb"
      using qbuf_of_type_gives [of ch sb "ch\<lparr>superbuf_queue := ?q\<rparr>" t] queue_node_ok [OF ok, of sb] Cons
      by auto
    then have "returns (qbuf_of_type t sb (ch\<lparr>superbuf_queue := ?q\<rparr>))
        (\<lambda>ch'. evolves P {#} ch ch' \<and> superbuf_queue ch' = ?q)"
      using evolves_gives [OF ok, of "[]" sb bs] Cons less.prems by simp
    then show ?thesis
      unfolding flush by (rule returns_loop) (rule less.hyps, simp_all add: Cons less.prems)
  qed
qed

lemma superbuf_flush_matched_evolves:
  "channel_ok ch \<Longrightarrow> returns (mm_channel_superbuf_flush_matched ch) (\<lambda>ch'. evolves P {#} ch ch' \<and>
     True)"
proof (induction "length (que (superbuf_queue ch))" arbitrary: ch rule: less_induct)
  case less
  show ?case
  proof (cases "mm_channel_superbuf_dequeue_internal True (superbuf_queue ch)")
    case (Pair r q)
    show ?thesis
    proof (cases r)
      case None
      then have "q = superbuf_queue ch"
        using Pair by (simp add: dequeue_internal_None)
      with None Pair have deq: "mm_channel_superbuf_dequeue_internal True (superbuf_queue ch) =
          (None, superbuf_queue ch)"
        by simp
      have "mm_channel_superbuf_flush_matched ch = Some ch"
        by (subst mm_channel_superbuf_flush_matched.simps) (simp add: deq)
      then show ?thesis
        using less.prems by (simp add: evolves_refl)
    next
      case (Some sb)
      then obtain bs where que: "que (superbuf_queue ch) = sb # bs"
        and q: "q = without [] sb bs (superbuf_queue ch)"
        using Pair by (auto simp: dequeue_internal_Some)
      have flush: "mm_channel_superbuf_flush_matched ch =
          qbuf_present sb (ch\<lparr>superbuf_queue := q\<rparr>) \<bind> mm_channel_superbuf_flush_matched"
        using Pair Some by (subst mm_channel_superbuf_flush_matched.simps) simp
      show ?thesis
        unfolding flush q
        by (rule returns_loop [OF dequeued_evolves [OF less.prems que]])
          (rule less.hyps, simp_all add: que)
    qed
  qed
qed

end
