(* ===== verification/MmMatchInv.thy ===== *)
theory MmMatchInv
  imports MmQueueInv
begin

text \<open>
  The matching logic keeps the invariant of the queue and the account of the buffers: metadata, the
  scan and the two ways a frame is put into the queue, and the handler of the command thread.
\<close>

section \<open>Metadata\<close>

lemmas control_defs = upd_queue_def set_expected_def add_expected_def call_zsl_def ch_setup_def

lemma evolves_set_expected: "channel_ok ch \<Longrightarrow> evolves P {#} ch (set_expected f ch)"
  by (rule evolves_control) (simp_all add: control_defs)

lemma evolves_add_expected: "channel_ok ch \<Longrightarrow> evolves P {#} ch (add_expected f ch)"
  by (rule evolves_control) (simp_all add: control_defs)

lemma evolves_after:
  assumes "evolves P {#} ch ch1" "returns m (\<lambda>x. evolves P a ch1 x \<and> Q x)"
  shows "returns m (evolves P a ch)"
  using assms(2) by (rule returns_mono) (use evolves_trans [OF assms(1), of a] in auto)

lemma superbuf_flush_all:
  "channel_ok ch \<Longrightarrow> returns (mm_channel_superbuf_flush CAM_STREAM_TYPE_DEFAULT ch) (evolves P {#} ch)"
  by (rule evolves_after [OF evolves_refl superbuf_flush_evolves]) simp_all

lemma superbuf_flush_matched_all:
  "channel_ok ch \<Longrightarrow> returns (mm_channel_superbuf_flush_matched ch) (evolves P {#} ch)"
  by (rule evolves_after [OF evolves_refl superbuf_flush_matched_evolves])

lemma metadata_expectation_evolves:
  assumes ok: "channel_ok ch"
  shows "returns (metadata_expectation md ch) (evolves P {#} ch)"
proof -
  have flush: "returns (mm_channel_superbuf_flush CAM_STREAM_TYPE_DEFAULT
      (add_expected max_future_frame_offset ch)) (evolves P {#} ch)"
    by (rule evolves_after [OF evolves_add_expected [OF ok] superbuf_flush_evolves])
      (simp_all add: evolves_ok [OF evolves_add_expected [OF ok]])
  have led: "evolves P {#} ch1 (ch1\<lparr>needLEDFlash := b\<rparr>)" if "channel_ok ch1" for ch1 b
    using that by (rule evolves_control) (simp_all add: ch_setup_def)
  have "returns (mm_channel_superbuf_flush CAM_STREAM_TYPE_DEFAULT
      (add_expected max_future_frame_offset ch) \<bind> (\<lambda>ch. Some (ch\<lparr>needLEDFlash := True\<rparr>))) (evolves P {#} ch)"
    by (rule evolves_then [OF flush led])
  moreover have "returns (mm_channel_superbuf_flush_matched ch \<bind>
      (\<lambda>ch. Some (add_expected max_future_frame_offset ch))) (evolves P {#} ch)"
    by (rule evolves_then [OF superbuf_flush_matched_all [OF ok] evolves_add_expected])
  ultimately show ?thesis
    using ok by (simp add: metadata_expectation_def led evolves_set_expected evolves_refl)
qed

lemma metadata_bracketing_evolves: "channel_ok ch \<Longrightarrow> evolves P {#} ch (metadata_bracketing md ch)"
  unfolding metadata_bracketing_def
  by (auto intro!: evolves_control simp: control_defs evolves_refl)

lemma returns_pair:
  assumes "returns m (evolves P a ch)" "\<And>ch1. channel_ok ch1 \<Longrightarrow> evolves P {#} ch1 (f ch1)"
  shows "returns (m \<bind> (\<lambda>ch. Some (b, f ch))) (\<lambda>r. evolves P a ch (snd r))"
  unfolding returns_bind
  by (rule returns_mono [OF assms(1)])
    (use assms(2) evolves_ok evolves_trans [of P a ch _ "{#}"] in fastforce)

lemma metadata_control_evolves:
  assumes ok: "channel_ok ch" and "snapshot_stream_id (streams ch) \<noteq> None"
  shows "returns (metadata_control md f ch) (\<lambda>r. evolves P {#} ch (snd r))"
proof -
  obtain sid where sid: "snapshot_stream_id (streams ch) = Some sid"
    using assms(2) by auto
  have flush: "returns (mm_channel_superbuf_flush_matched (add_expected max_future_frame_offset ch))
      (evolves P {#} ch)"
    by (rule evolves_after [OF evolves_add_expected [OF ok] superbuf_flush_matched_evolves])
      (rule evolves_ok [OF evolves_add_expected [OF ok]])
  have crop: "evolves P {#} ch (set_expected (f + 1) (ch\<lparr>isZoom1xFrameRequested := False\<rparr>))"
    using ok by (rule evolves_control) (simp_all add: control_defs)
  show ?thesis
    using returns_pair [OF flush, of "\<lambda>ch. ch" True] evolves_refl crop ok
      returns_pair [OF metadata_expectation_evolves [OF ok], of P "metadata_bracketing md" md True]
      metadata_bracketing_evolves
    by (simp add: metadata_control_def sid)
qed

lemma handle_metadata_evolves:
  assumes ok: "channel_ok ch" and info: "info_ok i" and snap: "snapshot_stream_id (streams ch) \<noteq> None"
  shows "returns (mm_channel_handle_metadata i ch) (\<lambda>r. evolves P {#} ch (snd r))"
proof -
  obtain d where d: "bi_buf i = Some d"
    using info by (auto simp: info_ok_def buf_ok_def split: option.splits)
  have reset: "returns (if is_frame_id_reset md then do {
      ch \<leftarrow> mm_channel_superbuf_flush CAM_STREAM_TYPE_DEFAULT ch;
      Some (set_expected 1 ch) } else Some ch) (evolves P {#} ch)" for md
    using ok by (auto intro!: evolves_then superbuf_flush_all evolves_set_expected evolves_refl)
  have rest: "returns (if is_meta_invalid md then Some (False, ch1) else if own
      then metadata_control md (bi_frame_idx i) ch1 else Some (True, ch1)) (\<lambda>r. evolves P {#} ch (snd r))"
    if "evolves P {#} ch ch1" for md own ch1
  proof -
    have "streams ch1 = streams ch" "channel_ok ch1"
      using that by (simp_all add: evolves_def ch_setup_def)
    then have "returns (metadata_control md (bi_frame_idx i) ch1) (\<lambda>r. evolves P {#} ch1 (snd r))"
      using snap by (intro metadata_control_evolves) simp_all
    then have "returns (metadata_control md (bi_frame_idx i) ch1) (\<lambda>r. evolves P {#} ch (snd r))"
      by (rule returns_mono) (use evolves_trans [OF that, of "{#}"] in simp)
    then show ?thesis
      using that by simp
  qed
  have "returns ((if is_frame_id_reset md then do {
      ch \<leftarrow> mm_channel_superbuf_flush CAM_STREAM_TYPE_DEFAULT ch;
      Some (set_expected 1 ch) } else Some ch) \<bind>
      (\<lambda>ch1. if is_meta_invalid md then Some (False, ch1) else if own
        then metadata_control md (bi_frame_idx i) ch1 else Some (True, ch1)))
      (\<lambda>r. evolves P {#} ch (snd r))" for md own
    unfolding returns_bind [of "if _ then _ else _"] by (rule returns_mono [OF reset rest])
  then show ?thesis
    unfolding mm_channel_handle_metadata_def
    using ok d by (simp add: evolves_refl split: option.split)
qed

section \<open>The scan\<close>

lemma scan_matched:
  "list_all matched ms \<Longrightarrow>
   superbuf_scan f (ms @ us) p n l ins = superbuf_scan f us (p + length ms) n l ins"
  by (induction ms arbitrary: p) simp_all

lemma scan_older:
  "list_all (\<lambda>sb. \<not> matched sb \<and> sb_frame_idx sb < f) xs \<Longrightarrow>
   superbuf_scan f (xs @ us) p n l ins =
   superbuf_scan f us (p + length xs) (n + of_nat (length xs))
     (if l = None \<and> xs \<noteq> [] then Some p else l) ins"
proof (induction xs arbitrary: p n l)
  case (Cons sb xs)
  then have sb: "\<not> matched sb" "f \<noteq> sb_frame_idx sb" "sb_frame_idx sb < f" "\<not> f < sb_frame_idx sb"
    by auto
  then have "superbuf_scan f ((sb # xs) @ us) p n l ins =
      superbuf_scan f (xs @ us) (Suc p) (n + 1) (if l = None then Some p else l) ins"
    by simp
  also have "\<dots> = superbuf_scan f us (Suc p + length xs) (n + 1 + of_nat (length xs))
      (if l = None then Some p else l) ins"
    using Cons by (subst Cons.IH) auto
  finally show ?case by (simp add: add_ac)
qed simp

lemma scan_newer:
  "list_all (\<lambda>sb. \<not> matched sb \<and> f < sb_frame_idx sb) xs \<Longrightarrow>
   superbuf_scan f xs p n l ins =
   (None, n + of_nat (length xs), l, if ins = None \<and> xs \<noteq> [] then Some p else ins)"
proof (induction xs arbitrary: p n ins)
  case (Cons sb xs)
  then have sb: "\<not> matched sb" "f \<noteq> sb_frame_idx sb" "f < sb_frame_idx sb" "\<not> sb_frame_idx sb < f"
    by auto
  then have "superbuf_scan f (sb # xs) p n l ins =
      superbuf_scan f xs (Suc p) (n + 1) l (if ins = None then Some p else ins)"
    by simp
  also have "\<dots> = (None, n + 1 + of_nat (length xs), l, if ins = None then Some p else ins)"
    using Cons by (subst Cons.IH) auto
  finally show ?case by (simp add: add_ac)
qed simp

text \<open>The unmatched super buffers fall into the older ones, the one of the frame, if any, and the
  newer ones.\<close>

lemma split_at_frame:
  fixes f :: "32 word"
  assumes "sorted_wrt (<) (map sb_frame_idx us)" "list_all (\<lambda>sb. \<not> matched sb) us"
  obtains older this newer where "us = older @ this @ newer"
    "list_all (\<lambda>sb. \<not> matched sb \<and> sb_frame_idx sb < f) older"
    "list_all (\<lambda>sb. \<not> matched sb \<and> f < sb_frame_idx sb) newer"
    "this = [] \<or> (\<exists>sb. this = [sb] \<and> sb_frame_idx sb = f \<and> \<not> matched sb)"
proof -
  have "\<exists>older this newer. us = older @ this @ newer \<and>
    list_all (\<lambda>sb. \<not> matched sb \<and> sb_frame_idx sb < f) older \<and>
    list_all (\<lambda>sb. \<not> matched sb \<and> f < sb_frame_idx sb) newer \<and>
    (this = [] \<or> (\<exists>sb. this = [sb] \<and> sb_frame_idx sb = f \<and> \<not> matched sb))"
    using assms
  proof (induction us)
    case Nil
    then show ?case by simp
  next
    case (Cons sb us)
    consider "sb_frame_idx sb < f" | "sb_frame_idx sb = f" | "f < sb_frame_idx sb"
      by (rule linorder_cases)
    then show ?case
    proof cases
      case 1
      obtain older this newer where "us = older @ this @ newer"
        "list_all (\<lambda>sb. \<not> matched sb \<and> sb_frame_idx sb < f) older"
        "list_all (\<lambda>sb. \<not> matched sb \<and> f < sb_frame_idx sb) newer"
        "this = [] \<or> (\<exists>sb. this = [sb] \<and> sb_frame_idx sb = f \<and> \<not> matched sb)"
        using Cons by auto
      then show ?thesis
        using 1 Cons.prems by (intro exI [of _ "sb # older"] exI [of _ this] exI [of _ newer]) simp
    next
      case 2
      then show ?thesis
        using Cons.prems
        by (intro exI [of _ "[]"] exI [of _ "[sb]"] exI [of _ us]) (auto simp: list_all_iff)
    next
      case 3
      then show ?thesis
        using Cons.prems
        by (intro exI [of _ "[]"] exI [of _ "[]"] exI [of _ "sb # us"]) (auto simp: list_all_iff)
    qed
  qed
  then show ?thesis using that by blast
qed

lemma scan_found:
  assumes "list_all matched ms" "list_all (\<lambda>sb. \<not> matched sb \<and> sb_frame_idx sb < f) older"
    and "\<not> matched sb" "sb_frame_idx sb = f"
  shows "superbuf_scan f (ms @ older @ sb # newer) 0 0 None None =
    (Some (length ms + length older), of_nat (length older),
     if older = [] then None else Some (length ms), None)"
  using assms by (simp add: scan_matched scan_older)

lemma scan_not_found:
  assumes "list_all matched ms" "list_all (\<lambda>sb. \<not> matched sb \<and> sb_frame_idx sb < f) older"
    and "list_all (\<lambda>sb. \<not> matched sb \<and> f < sb_frame_idx sb) newer"
  shows "superbuf_scan f (ms @ older @ newer) 0 0 None None =
    (None, of_nat (length older) + of_nat (length newer),
     if older = [] then None else Some (length ms),
     if newer = [] then None else Some (length ms + length older))"
  using assms by (simp add: scan_matched scan_older scan_newer)

section \<open>Releasing unmatched super buffers\<close>

lemma release_node_gives:
  assumes "que (superbuf_queue ch) = as @ sb # bs"
    and "node_ok (hdls (superbuf_queue ch)) sb" "streams_known ch"
  shows "\<exists>qs. release_node (length as) ch = Some (ch\<lparr>superbuf_queue := (superbuf_queue ch)
      \<lparr>que := as @ bs, que_size := que_size (superbuf_queue ch) - 1\<rparr>, qbufs := qbufs ch @ qs\<rparr>) \<and>
    (sb_frame_idx sb \<noteq> 0 \<longrightarrow> map snd qs = node_bufs sb)"
proof -
  obtain qs where "qbuf_framed sb ch = Some (ch\<lparr>qbufs := qbufs ch @ qs\<rparr>)"
    "sb_frame_idx sb \<noteq> 0 \<longrightarrow> map snd qs = node_bufs sb"
    using qbuf_framed_gives [OF assms(2,3), of ch] by (auto simp: gives_def)
  then show ?thesis
    using assms(1) by (intro exI [of _ qs]) (simp add: release_node_def upd_queue_def nth_append)
qed

lemma release_older_gives:
  assumes "que (superbuf_queue ch) = as @ sbs @ bs"
    and "list_all (node_ok (hdls (superbuf_queue ch))) sbs" "streams_known ch"
  shows "\<exists>qs. release_older (length sbs) (length as) ch = Some (ch\<lparr>superbuf_queue :=
      (superbuf_queue ch)\<lparr>que := as @ bs, que_size := que_size (superbuf_queue ch) - of_nat (length sbs)\<rparr>,
      qbufs := qbufs ch @ qs\<rparr>) \<and>
    (list_all (\<lambda>sb. sb_frame_idx sb \<noteq> 0) sbs \<longrightarrow> map snd qs = concat (map node_bufs sbs))"
  using assms
proof (induction sbs arbitrary: ch)
  case Nil
  have "ch = ch\<lparr>superbuf_queue := (superbuf_queue ch)\<lparr>que := as @ bs,
      que_size := que_size (superbuf_queue ch) - 0\<rparr>, qbufs := qbufs ch @ []\<rparr>"
    using Nil.prems by (cases ch, cases "superbuf_queue ch") simp
  then show ?case by (intro exI [of _ "[]"]) simp
next
  case (Cons sb sbs)
  obtain qs1 where r1: "release_node (length as) ch = Some (ch\<lparr>superbuf_queue := (superbuf_queue ch)
      \<lparr>que := as @ sbs @ bs, que_size := que_size (superbuf_queue ch) - 1\<rparr>, qbufs := qbufs ch @ qs1\<rparr>)"
    "sb_frame_idx sb \<noteq> 0 \<longrightarrow> map snd qs1 = node_bufs sb"
    using release_node_gives [of ch as sb "sbs @ bs"] Cons.prems by auto
  define ch1 where "ch1 = ch\<lparr>superbuf_queue := (superbuf_queue ch)
      \<lparr>que := as @ sbs @ bs, que_size := que_size (superbuf_queue ch) - 1\<rparr>, qbufs := qbufs ch @ qs1\<rparr>"
  have hd: "hdls (superbuf_queue ch1) = hdls (superbuf_queue ch)"
    by (simp add: ch1_def hdls_def)
  have "\<exists>qs. release_older (length sbs) (length as) ch1 = Some (ch1\<lparr>superbuf_queue :=
      (superbuf_queue ch1)\<lparr>que := as @ bs, que_size := que_size (superbuf_queue ch1) - of_nat (length sbs)\<rparr>,
      qbufs := qbufs ch1 @ qs\<rparr>) \<and>
    (list_all (\<lambda>sb. sb_frame_idx sb \<noteq> 0) sbs \<longrightarrow> map snd qs = concat (map node_bufs sbs))"
  proof (rule Cons.IH)
    show "streams_known ch1"
      using Cons.prems(3) get_stream_cong [of ch1 ch] unfolding streams_known_def hd
      by (simp add: ch1_def)
  qed (use Cons.prems(2) hd in \<open>simp_all add: ch1_def\<close>)
  then obtain qs2 where "release_older (length sbs) (length as) ch1 = Some (ch1\<lparr>superbuf_queue :=
      (superbuf_queue ch1)\<lparr>que := as @ bs, que_size := que_size (superbuf_queue ch1) - of_nat (length sbs)\<rparr>,
      qbufs := qbufs ch1 @ qs2\<rparr>)"
    "list_all (\<lambda>sb. sb_frame_idx sb \<noteq> 0) sbs \<longrightarrow> map snd qs2 = concat (map node_bufs sbs)"
    by blast
  then show ?case
    using r1 by (intro exI [of _ "qs1 @ qs2"]) (simp add: ch1_def diff_diff_add)
qed

lemma release_node_evolves:
  assumes ok: "channel_ok ch" and que: "que (superbuf_queue ch) = as @ sb # bs" and "\<not> matched sb"
  shows "returns (release_node (length as) ch) (\<lambda>ch'. evolves P {#} ch ch' \<and>
    que (superbuf_queue ch') = as @ bs)"
proof -
  obtain qs where rel: "release_node (length as) ch = Some (ch\<lparr>superbuf_queue := (superbuf_queue ch)
      \<lparr>que := as @ bs, que_size := que_size (superbuf_queue ch) - 1\<rparr>, qbufs := qbufs ch @ qs\<rparr>)"
    "sb_frame_idx sb \<noteq> 0 \<longrightarrow> map snd qs = node_bufs sb"
    using release_node_gives [OF que] queue_node_ok [OF ok, of sb] que by auto
  have "(superbuf_queue ch)\<lparr>que := as @ bs, que_size := que_size (superbuf_queue ch) - 1\<rparr> =
      without as sb bs (superbuf_queue ch)"
    using assms(3) by (cases "superbuf_queue ch") (simp add: without_def)
  then show ?thesis
    using rel evolves_removed [OF ok que, of P qs "[]" _ "[]"] by simp
qed

section \<open>The frame joins a super buffer\<close>

text \<open>The frame is one of the bundled streams, with the index of its slot.\<close>

definition frame_of :: "mm_channel \<Rightarrow> mm_camera_buf_info \<Rightarrow> nat \<Rightarrow> mm_camera_buf_def \<Rightarrow> bool" where
  "frame_of ch i k d \<longleftrightarrow> info_ok i \<and> bi_buf i = Some d \<and>
     k < length (hdls (superbuf_queue ch)) \<and> hdls (superbuf_queue ch) ! k = bi_stream_id i"

text \<open>No frame of the stream with this index is held: the slot it goes to is empty.\<close>

definition buf_key :: "mm_camera_buf_def \<Rightarrow> 32 word \<times> 32 word" where
  "buf_key d = (bd_stream_id d, bd_frame_idx d)"

definition new_frame :: "mm_channel \<Rightarrow> mm_camera_buf_def \<Rightarrow> bool" where
  "new_frame ch d \<longleftrightarrow> bd_frame_idx d \<noteq> 0 \<and> buf_key d \<notin> buf_key ` set (held ch)"

lemma frame_of_key:
  "frame_of ch i k d \<Longrightarrow> bd_stream_id d = bi_stream_id i \<and> bd_frame_idx d = bi_frame_idx i"
  by (auto simp: frame_of_def info_ok_def buf_ok_def)

definition set_slot :: "nat \<Rightarrow> mm_camera_buf_info \<Rightarrow> mm_channel_queue_node \<Rightarrow> mm_channel_queue_node" where
  "set_slot k i sb = (let sb1 = sb\<lparr>super_buf := (super_buf sb)[k := i]\<rparr>
     in sb1\<lparr>matched := superbuf_complete sb1\<rparr>)"

lemma slots_update [simp]:
  "slots (set_slot k i sb) = (slots sb)[k := i]"
  by (simp add: set_slot_def slots_def Let_def take_update_swap)

lemma set_slot_simps [simp]:
  "num_of_bufs (set_slot k i sb) = num_of_bufs sb"
  "sb_frame_idx (set_slot k i sb) = sb_frame_idx sb"
  "length (super_buf (set_slot k i sb)) = length (super_buf sb)"
  by (simp_all add: set_slot_def Let_def)

lemma set_slot_matched: "matched (set_slot k i sb) \<Longrightarrow> no_buf_info \<notin> set (slots (set_slot k i sb))"
  unfolding set_slot_def Let_def
  by (auto simp: superbuf_complete_def list_all_iff slots_def no_buf_info_def)

lemma map_filter_update:
  assumes "k < length xs" "f (xs ! k) = None" "f y = Some b"
  shows "mset (List.map_filter f (xs[k := y])) = mset (List.map_filter f xs) + {#b#}"
  using assms
proof (induction xs arbitrary: k)
  case (Cons x xs)
  then show ?case
    by (cases k) (auto simp: List.map_filter_simps split: option.splits)
qed simp

lemma set_map_filter_update:
  "f y = Some b \<Longrightarrow> set (List.map_filter f (xs[k := y])) \<subseteq> set (List.map_filter f xs) \<union> {b}"
  using set_update_subset_insert [of xs k y] by (fastforce simp: List.map_filter_def image_iff)

lemma set_slot_ok:
  assumes f: "frame_of ch i k d" and sb: "node_ok (hdls (superbuf_queue ch)) sb"
    "sb_frame_idx sb = bi_frame_idx i"
  shows "node_ok (hdls (superbuf_queue ch)) (set_slot k i sb)"
    and "set (node_bufs (set_slot k i sb)) \<subseteq> set (node_bufs sb) \<union> {d}"
    and "sb \<in> set (que (superbuf_queue ch)) \<Longrightarrow> new_frame ch d \<Longrightarrow>
      mset (node_bufs (set_slot k i sb)) = mset (node_bufs sb) + {#d#}"
proof -
  have k: "k < length (slots sb)"
    using f sb by (auto simp: frame_of_def node_ok_def list_all2_lengthD)
  have "slot_ok (sb_frame_idx sb) i (hdls (superbuf_queue ch) ! k)"
    using f sb by (simp add: frame_of_def slot_ok_def)
  then have "list_all2 (slot_ok (sb_frame_idx sb)) ((slots sb)[k := i]) (hdls (superbuf_queue ch))"
    using sb list_all2_update_cong [of "slot_ok (sb_frame_idx sb)" "slots sb" "hdls (superbuf_queue ch)" i
        "hdls (superbuf_queue ch) ! k" k]
    by (simp add: node_ok_def)
  then show "node_ok (hdls (superbuf_queue ch)) (set_slot k i sb)"
    using sb set_slot_matched [of k i sb] by (simp add: node_ok_def)
  have d: "bi_buf i = Some d" using f by (simp add: frame_of_def)
  then show "set (node_bufs (set_slot k i sb)) \<subseteq> set (node_bufs sb) \<union> {d}"
    using set_map_filter_update [of bi_buf i d "slots sb" k] by (simp add: node_bufs_def)
  assume held: "sb \<in> set (que (superbuf_queue ch))" and new: "new_frame ch d"
  have "bi_buf (slots sb ! k) = None"
  proof (rule ccontr)
    assume "bi_buf (slots sb ! k) \<noteq> None"
    moreover have "slot_ok (sb_frame_idx sb) (slots sb ! k) (hdls (superbuf_queue ch) ! k)"
      using sb k by (auto simp: node_ok_def list_all2_conv_all_nth)
    ultimately obtain d' where d': "bi_buf (slots sb ! k) = Some d'" "bd_stream_id d' = bd_stream_id d"
      "bd_frame_idx d' = bd_frame_idx d"
      using f sb(2) frame_of_key [OF f]
      by (auto simp: slot_ok_def no_buf_info_def info_ok_def buf_ok_def frame_of_def)
    then have "d' \<in> set (node_bufs sb)"
      using k nth_mem [OF k] by (force simp: node_bufs_def List.map_filter_def)
    then have "d' \<in> set (held ch)"
      using held by (auto simp: held_def)
    moreover have "buf_key d' = buf_key d"
      using d' by (simp add: buf_key_def)
    ultimately show False
      using new by (metis new_frame_def image_eqI)
  qed
  then show "mset (node_bufs (set_slot k i sb)) = mset (node_bufs sb) + {#d#}"
    using k d by (simp add: node_bufs_def map_filter_update)
qed

lemma frame_of_known:
  assumes "channel_ok ch" "frame_of ch i k d"
  shows "mm_channel_util_get_stream_by_handler ch (bd_stream_id d) \<noteq> None"
  using assms frame_of_key [OF assms(2)] nth_mem [of k "hdls (superbuf_queue ch)"]
  by (auto simp: channel_ok_def streams_known_def list_all_iff frame_of_def)

lemma frame_given_back:
  assumes ok: "channel_ok ch" and f: "frame_of ch i k d"
    and same: "superbuf_queue ch' = superbuf_queue ch" "streams ch' = streams ch"
      "cb_cmds ch' = cb_cmds ch" "qbufs ch' = qbufs ch" "enq_mem ch' = enq_mem ch"
  shows "returns (mm_channel_qbuf (bi_buf i) ch') (evolves P {#d#} ch)"
proof -
  have d: "bi_buf i = Some d" using f by (simp add: frame_of_def)
  obtain t where t: "mm_channel_qbuf (bi_buf i) ch' = Some (ch'\<lparr>qbufs := qbufs ch @ [(t, d)]\<rparr>)"
    using frame_of_known [OF ok f] get_stream_cong [OF same(2)] same(4) d
    by (auto simp: mm_channel_qbuf_def Let_def)
  have "channel_ok (ch'\<lparr>qbufs := qbufs ch @ [(t, d)]\<rparr>)"
    using ok same get_stream_cong [of "ch'\<lparr>qbufs := qbufs ch @ [(t, d)]\<rparr>" ch]
    by (simp add: channel_ok_def streams_known_def)
  then show ?thesis
    using same unfolding t
    by (auto simp: evolves_def ch_setup_def held_def frames_counted_def bag_def given_back_def sent_def
        matched_num_def)
qed

text \<open>The counters and the lists after a step of the matching, the invariant and the account.\<close>

lemma evolves_queue:
  assumes ok: "channel_ok ch"
    and same: "hdls q = hdls (superbuf_queue ch)" "num_streams q = num_streams (superbuf_queue ch)"
      "bundled_streams q = bundled_streams (superbuf_queue ch)"
      "max_unmatched_frames q = max_unmatched_frames (superbuf_queue ch)"
      "water_mark q = water_mark (superbuf_queue ch)" "streams ch' = streams ch"
      "cb_cmds ch' = cb_cmds ch" "enq_mem ch' = enq_mem ch" "superbuf_queue ch' = q"
    and q: "queue_ok q"
    and bufs: "qbufs ch' = qbufs ch @ qs"
      "P \<and> frames_counted ch \<longrightarrow> mset (concat (map node_bufs (que q))) + mset (map snd qs) =
        mset (held ch) + inc"
      "P \<and> frames_counted ch \<longrightarrow> frames_counted ch'"
      "set (concat (map node_bufs (que q))) \<subseteq> set (held ch) \<union> set_mset inc"
      "length (filter matched (que q)) \<le> matched_num ch + size inc"
  shows "evolves P inc ch ch'"
proof -
  have "channel_ok ch'"
    using ok q same get_stream_cong [of ch' ch] by (simp add: channel_ok_def streams_known_def)
  moreover have "held ch' = concat (map node_bufs (que q))"
    using same by (simp add: held_def)
  moreover have "bag ch' = bag ch + inc" if "P" "frames_counted ch"
    using same bufs that by (simp add: bag_def held_def given_back_def sent_def add_ac)
  ultimately show ?thesis
    using same bufs by (simp add: evolves_def ch_setup_def matched_num_def)
qed

lemma superbuf_found_eq:
  "superbuf_found i k l pos ch =
     (let sb = set_slot k i (que (superbuf_queue ch) ! pos);
          ch1 = upd_queue (\<lambda>q. q\<lparr>que := (que q)[pos := sb]\<rparr>) ch
      in if matched sb then superbuf_matched i l pos ch1 else Some ch1)"
  by (simp add: superbuf_found_def set_slot_def Let_def)

lemma superbuf_matched_result:
  assumes "que (superbuf_queue ch) = ms @ older @ rest"
    and "list_all (node_ok (hdls (superbuf_queue ch))) older" "streams_known ch"
  shows "\<exists>qs e b. superbuf_matched i (if older = [] then None else Some (length ms))
      (length ms + length older) ch = Some (ch\<lparr>superbuf_queue := (superbuf_queue ch)\<lparr>que := ms @ rest,
        que_size := que_size (superbuf_queue ch) - of_nat (length older),
        match_cnt := match_cnt (superbuf_queue ch) + 1, expected_frame_id := e\<rparr>,
        isFlashBracketingEnabled := b, qbufs := qbufs ch @ qs\<rparr>) \<and>
    (list_all (\<lambda>sb. sb_frame_idx sb \<noteq> 0) older \<longrightarrow> map snd qs = concat (map node_bufs older))"
proof -
  let ?q = "superbuf_queue ch"
  define e where "e = (if isFlashBracketingEnabled ch then expected_frame_id_without_led ?q
    else bi_frame_idx i + ucast (post_frame_skip ?q))"
  define ch2 where "ch2 = ch\<lparr>isFlashBracketingEnabled := False,
    superbuf_queue := ?q\<lparr>expected_frame_id := e, match_cnt := match_cnt ?q + 1\<rparr>\<rparr>"
  have flag: "ch\<lparr>isFlashBracketingEnabled := False, superbuf_queue := x\<rparr> = ch\<lparr>superbuf_queue := x\<rparr>"
    if "\<not> isFlashBracketingEnabled ch" for x
    using that by (cases ch) simp
  have ch2: "superbuf_matched i l p ch =
      (case l of None \<Rightarrow> Some ch2 | Some l \<Rightarrow> release_older (p - l) l ch2)" for l p
    by (cases "isFlashBracketingEnabled ch"; cases l)
      (simp_all add: superbuf_matched_def upd_queue_def Let_def ch2_def e_def flag)
  have "que (superbuf_queue ch2) = ms @ older @ rest" "hdls (superbuf_queue ch2) = hdls ?q"
    "streams ch2 = streams ch"
    using assms(1) by (simp_all add: ch2_def hdls_def)
  then obtain qs where "release_older (length older) (length ms) ch2 = Some (ch2\<lparr>superbuf_queue :=
      (superbuf_queue ch2)\<lparr>que := ms @ rest, que_size := que_size (superbuf_queue ch2) - of_nat (length older)\<rparr>,
      qbufs := qbufs ch2 @ qs\<rparr>)"
    "list_all (\<lambda>sb. sb_frame_idx sb \<noteq> 0) older \<longrightarrow> map snd qs = concat (map node_bufs older)"
    using release_older_gives [of ch2 ms older rest] assms get_stream_cong [of ch2 ch]
    by (auto simp: streams_known_def)
  moreover have "superbuf_matched i (if older = [] then None else Some (length ms))
      (length ms + length older) ch = release_older (length older) (length ms) ch2"
    by (cases older) (simp_all add: ch2)
  ultimately show ?thesis
    by (intro exI [of _ qs] exI [of _ e] exI [of _ False]) (simp add: ch2_def)
qed

lemma superbuf_found_evolves:
  assumes ok: "channel_ok ch" and f: "frame_of ch i k d"
    and que: "que (superbuf_queue ch) = ms @ older @ sb # newer" "list_all matched ms"
      "list_all (\<lambda>sb. \<not> matched sb \<and> sb_frame_idx sb < bi_frame_idx i) older"
      "list_all (\<lambda>sb. \<not> matched sb \<and> bi_frame_idx i < sb_frame_idx sb) newer"
    and sb: "\<not> matched sb" "sb_frame_idx sb = bi_frame_idx i"
    and P: "P \<longrightarrow> new_frame ch d"
  shows "returns (superbuf_found i k (if older = [] then None else Some (length ms))
    (length ms + length older) ch) (evolves P {#d#} ch)"
proof -
  let ?q = "superbuf_queue ch" and ?sb = "set_slot k i sb"
  have us: "list_all (\<lambda>sb. \<not> matched sb) (older @ sb # newer)"
    using que sb by (auto simp: list_all_iff)
  have parts: "matched_part ?q = ms" "unmatched_part ?q = older @ sb # newer"
    using partsI [OF que(1,2) us] by simp_all
  have q: "queue_ok ?q" using ok by (simp add: channel_ok_def)
  have nodes: "list_all (node_ok (hdls ?q)) (ms @ older @ sb # newer)"
    using q que by (simp add: queue_ok_def)
  have "sb \<in> set (que ?q)" "node_ok (hdls ?q) sb" using que nodes by auto
  note slot = set_slot_ok [OF f this(2) sb(2)] and slotP = set_slot_ok(3) [OF f this(2) sb(2) this(1)]
  have known: "streams_known ch" using ok by (simp add: channel_ok_def)
  have sorted: "sorted_wrt (<) (map sb_frame_idx (older @ sb # newer))" "length (hdls ?q) \<noteq> 1"
    "unat (max_unmatched_frames ?q) < 255 \<longrightarrow>
      length (older @ sb # newer) \<le> Suc (unat (max_unmatched_frames ?q))"
    "match_cnt ?q = of_nat (length ms)" "que_size ?q = of_nat (length (ms @ older @ sb # newer))"
    using q parts que by (auto simp: queue_ok_def)
  have counted: "P \<and> frames_counted ch \<longrightarrow> list_all (\<lambda>sb. sb_frame_idx sb \<noteq> 0) (ms @ older @ ?sb # newer)"
    using que(1) sb by (auto simp: frames_counted_def)
  define ch1 where "ch1 = ch\<lparr>superbuf_queue := ?q\<lparr>que := ms @ older @ ?sb # newer\<rparr>\<rparr>"
  have found: "superbuf_found i k l (length ms + length older) ch =
      (if matched ?sb then superbuf_matched i l (length ms + length older) ch1 else Some ch1)" for l
    by (simp add: superbuf_found_eq que nth_append list_update_append upd_queue_def ch1_def Let_def)
  show ?thesis
  proof (cases "matched ?sb")
    case False
    have "evolves P {#d#} ch ch1"
    proof (rule evolves_queue [OF ok, where qs = "[]" and q = "superbuf_queue ch1"])
      show "queue_ok (superbuf_queue ch1)"
        using us sorted nodes slot False
        by (intro queue_okI [OF q, of _ ms "older @ ?sb # newer"]) (auto simp: ch1_def que hdls_def)
      show "P \<and> frames_counted ch \<longrightarrow> mset (concat (map node_bufs (que (superbuf_queue ch1)))) +
          mset (map snd []) = mset (held ch) + {#d#}"
        using P slotP by (simp add: ch1_def held_def que)
      show "set (concat (map node_bufs (que (superbuf_queue ch1)))) \<subseteq> set (held ch) \<union> set_mset {#d#}"
        using slot(2) by (auto simp: ch1_def held_def que)
      show "P \<and> frames_counted ch \<longrightarrow> frames_counted ch1"
        using counted by (simp add: frames_counted_def ch1_def)
    qed (simp_all add: ch1_def hdls_def matched_num_def que(1))
    then show ?thesis using False by (simp add: found)
  next
    case True
    have "que (superbuf_queue ch1) = ms @ older @ ?sb # newer" "hdls (superbuf_queue ch1) = hdls ?q"
      "streams ch1 = streams ch"
      by (simp_all add: ch1_def hdls_def)
    then obtain qs e b where m: "superbuf_matched i (if older = [] then None else Some (length ms))
      (length ms + length older) ch1 = Some (ch1\<lparr>superbuf_queue := (superbuf_queue ch1)\<lparr>que := ms @ ?sb # newer,
        que_size := que_size (superbuf_queue ch1) - of_nat (length older),
        match_cnt := match_cnt (superbuf_queue ch1) + 1, expected_frame_id := e\<rparr>,
        isFlashBracketingEnabled := b, qbufs := qbufs ch1 @ qs\<rparr>)"
      "list_all (\<lambda>sb. sb_frame_idx sb \<noteq> 0) older \<longrightarrow> map snd qs = concat (map node_bufs older)"
      using superbuf_matched_result [of ch1 ms older "?sb # newer" i] nodes known
        get_stream_cong [of ch1 ch] by (auto simp: streams_known_def)
    define ch2 where "ch2 = ch1\<lparr>superbuf_queue := (superbuf_queue ch1)\<lparr>que := ms @ ?sb # newer,
        que_size := que_size (superbuf_queue ch1) - of_nat (length older),
        match_cnt := match_cnt (superbuf_queue ch1) + 1, expected_frame_id := e\<rparr>,
        isFlashBracketingEnabled := b, qbufs := qbufs ch1 @ qs\<rparr>"
    have "evolves P {#d#} ch ch2"
    proof (rule evolves_queue [OF ok, where qs = qs and q = "superbuf_queue ch2"])
      show "queue_ok (superbuf_queue ch2)"
        using us sorted nodes slot True que(2)
        by (intro queue_okI [OF q, of _ "ms @ [?sb]" newer])
          (auto simp: ch2_def ch1_def que hdls_def sorted_wrt_append)
      show "P \<and> frames_counted ch \<longrightarrow> mset (concat (map node_bufs (que (superbuf_queue ch2)))) +
          mset (map snd qs) = mset (held ch) + {#d#}"
        using P slotP counted m(2) by (simp add: ch2_def held_def que)
      show "set (concat (map node_bufs (que (superbuf_queue ch2)))) \<subseteq> set (held ch) \<union> set_mset {#d#}"
        using slot(2) by (auto simp: ch2_def held_def que)
      show "P \<and> frames_counted ch \<longrightarrow> frames_counted ch2"
        using counted by (simp add: frames_counted_def ch2_def)
    qed (simp_all add: ch2_def ch1_def hdls_def matched_num_def que(1))
    then show ?thesis using True m(1) by (simp add: found ch2_def)
  qed
qed

section \<open>The frame starts a super buffer\<close>

lemma alloc_same:
  "alloc ch = (b, ch') \<Longrightarrow> superbuf_queue ch' = superbuf_queue ch \<and> streams ch' = streams ch \<and>
   cb_cmds ch' = cb_cmds ch \<and> qbufs ch' = qbufs ch \<and> enq_mem ch' = enq_mem ch \<and>
   ch_my_hdl ch' = ch_my_hdl ch \<and> pending_cnt ch' = pending_cnt ch"
  by (auto simp: alloc_def split: list.splits)

definition new_node :: "8 word \<Rightarrow> nat \<Rightarrow> mm_camera_buf_info \<Rightarrow> mm_channel_queue_node" where
  "new_node n k i = \<lparr>num_of_bufs = n,
     super_buf = (replicate MAX_STREAM_NUM_IN_BUNDLE no_buf_info)[k := i],
     matched = (n = 1), sb_frame_idx = bi_frame_idx i\<rparr>"

lemma map_filter_replicate: "f x = None \<Longrightarrow> List.map_filter f (replicate n x) = []"
  by (induction n) (simp_all add: List.map_filter_simps)

lemma map_filter_single:
  "k < n \<Longrightarrow> f x = None \<Longrightarrow> f y = Some b \<Longrightarrow> List.map_filter f ((replicate n x)[k := y]) = [b]"
proof (induction n arbitrary: k)
  case (Suc n)
  then show ?case
    by (cases k) (simp_all add: List.map_filter_simps map_filter_replicate)
qed simp

lemma new_node_ok:
  assumes q: "queue_ok (superbuf_queue ch)" and f: "frame_of ch i k d"
  shows "node_ok (hdls (superbuf_queue ch)) (new_node (num_streams (superbuf_queue ch)) k i)"
    and "node_bufs (new_node (num_streams (superbuf_queue ch)) k i) = [d]"
proof -
  let ?hs = "hdls (superbuf_queue ch)" and ?sb = "new_node (num_streams (superbuf_queue ch)) k i"
  have n: "unat (num_streams (superbuf_queue ch)) = length ?hs" "length ?hs \<le> MAX_STREAM_NUM_IN_BUNDLE"
    "k < length ?hs" "bi_buf i = Some d" "?hs ! k = bi_stream_id i" "info_ok i"
    using q f by (simp_all add: queue_ok_def frame_of_def)
  have slots: "slots ?sb = (replicate (length ?hs) no_buf_info)[k := i]"
    using n by (simp add: slots_def new_node_def take_update_swap)
  have "list_all2 (slot_ok (bi_frame_idx i)) ((replicate (length ?hs) no_buf_info)[k := i]) ?hs"
    using n by (auto simp: list_all2_conv_all_nth nth_list_update slot_ok_def)
  moreover have "no_buf_info \<notin> set (slots ?sb)" if "num_streams (superbuf_queue ch) = 1"
  proof -
    have "length ?hs = 1" using that n(1) by simp
    then show ?thesis
      using n(3,4) unfolding slots by (auto simp: no_buf_info_def)
  qed
  ultimately show "node_ok ?hs ?sb"
    unfolding node_ok_def slots using n by (simp add: new_node_def)
  show "node_bufs ?sb = [d]"
    using n by (simp add: node_bufs_def slots map_filter_single no_buf_info_def)
qed

lemma superbuf_insert_evolves:
  assumes ok: "channel_ok ch" and f: "frame_of ch i k d"
    and que: "que (superbuf_queue ch) = ms @ older @ newer" "list_all matched ms"
      "list_all (\<lambda>sb. \<not> matched sb \<and> sb_frame_idx sb < bi_frame_idx i) older"
      "list_all (\<lambda>sb. \<not> matched sb \<and> bi_frame_idx i < sb_frame_idx sb) newer"
    and room: "unat (max_unmatched_frames (superbuf_queue ch)) < 255 \<longrightarrow>
      length older + length newer \<le> unat (max_unmatched_frames (superbuf_queue ch))"
    and P: "P \<longrightarrow> bd_frame_idx d \<noteq> 0"
  shows "returns (superbuf_insert i k (if newer = [] then None else Some (length ms + length older)) ch)
    (evolves P {#d#} ch)"
proof -
  obtain b1 ch1 where a1: "alloc ch = (b1, ch1)" by fastforce
  obtain b2 ch2 where a2: "alloc ch1 = (b2, ch2)" by fastforce
  have same: "superbuf_queue ch2 = superbuf_queue ch" "streams ch2 = streams ch"
    "cb_cmds ch2 = cb_cmds ch" "qbufs ch2 = qbufs ch" "enq_mem ch2 = enq_mem ch"
    using alloc_same [OF a1] alloc_same [OF a2] by simp_all
  show ?thesis
  proof (cases "b1 \<and> b2")
    case False
    then have "superbuf_insert i k ins ch = mm_channel_qbuf (bi_buf i) ch2" for ins
      by (cases b1) (simp_all add: superbuf_insert_def a1 a2)
    then show ?thesis
      using frame_given_back [OF ok f same] by simp
  next
    case True
    let ?q = "superbuf_queue ch"
    let ?sb = "new_node (num_streams ?q) k i"
    define q' where "q' = (if num_streams ?q = 1
      then ?q\<lparr>que := ms @ older @ ?sb # newer, que_size := que_size ?q + 1,
        expected_frame_id := bi_frame_idx i + ucast (post_frame_skip ?q), match_cnt := match_cnt ?q + 1\<rparr>
      else ?q\<lparr>que := ms @ older @ ?sb # newer, que_size := que_size ?q + 1\<rparr>)"
    have ins: "superbuf_insert i k (if newer = [] then None else Some (length ms + length older)) ch =
        Some (ch2\<lparr>superbuf_queue := q'\<rparr>)"
      using True by (simp add: superbuf_insert_def a1 a2 same que(1) q'_def new_node_def Let_def)
    have us: "list_all (\<lambda>sb. \<not> matched sb) (older @ newer)"
      using que by (auto simp: list_all_iff)
    have parts: "matched_part ?q = ms" "unmatched_part ?q = older @ newer"
      using partsI [OF que(1,2) us] by simp_all
    have q: "queue_ok ?q" using ok by (simp add: channel_ok_def)
    then have facts: "sorted_wrt (<) (map sb_frame_idx (older @ newer))"
      "match_cnt ?q = of_nat (length ms)" "que_size ?q = of_nat (length (ms @ older @ newer))"
      "list_all (node_ok (hdls ?q)) (ms @ older @ newer)"
      "length (hdls ?q) = 1 \<longrightarrow> older @ newer = []" "unat (num_streams ?q) = length (hdls ?q)"
      using parts que by (auto simp: queue_ok_def)
    note sb = new_node_ok [OF q f]
    have sbf: "sb_frame_idx ?sb = bi_frame_idx i" "matched ?sb \<longleftrightarrow> num_streams ?q = 1"
      by (simp_all add: new_node_def)
    have one: "num_streams ?q = 1 \<longleftrightarrow> length (hdls ?q) = 1"
      using facts(6) by (metis unat_1 unsigned_word_eqI)
    have que': "que q' = ms @ older @ ?sb # newer" "hdls q' = hdls ?q" "num_streams q' = num_streams ?q"
      "bundled_streams q' = bundled_streams ?q" "max_unmatched_frames q' = max_unmatched_frames ?q"
      "water_mark q' = water_mark ?q"
      by (simp_all add: q'_def hdls_def)
    have q': "queue_ok q'"
    proof (cases "num_streams ?q = 1")
      case True
      then have "older = []" "newer = []" using facts(5) one by auto
      then show ?thesis
        using True facts(1-5) sb sbf que(2)
        by (intro queue_okI [OF q que'(2,3,5), of "ms @ [?sb]" "[]"]) (simp_all add: q'_def)
    next
      case False
      then show ?thesis
        using facts sb sbf que us one room
        by (intro queue_okI [OF q que'(2,3,5), of ms "older @ ?sb # newer"])
          (auto simp: q'_def sorted_wrt_append list_all_iff)
    qed
    have "evolves P {#d#} ch (ch2\<lparr>superbuf_queue := q'\<rparr>)"
    proof (rule evolves_queue [OF ok que'(2-6), where qs = "[]"])
      show "P \<and> frames_counted ch \<longrightarrow> mset (concat (map node_bufs (que q'))) +
          mset (map snd []) = mset (held ch) + {#d#}"
        by (simp add: que' held_def que(1) sb)
      show "P \<and> frames_counted ch \<longrightarrow> frames_counted (ch2\<lparr>superbuf_queue := q'\<rparr>)"
        using P frame_of_key [OF f] by (auto simp: frames_counted_def que' que(1) sbf)
    qed (auto simp: same q' que' held_def que(1) sb matched_num_def)
    then show ?thesis by (simp add: ins)
  qed
qed

end
