(* ===== verification/MmRunInv.thy ===== *)
theory MmRunInv
  imports MmMatchInv
begin

text \<open>
  The handler of the command thread: an incoming frame, a request, the other commands, and the two
  loops that follow every command but a flush. Every command returns and keeps the invariant and
  the account of the buffers, and so does every sequence of commands.
\<close>

section \<open>An incoming frame\<close>

lemma superbuf_not_found_evolves:
  assumes ok: "channel_ok ch" and f: "frame_of ch i k d"
    and que: "que (superbuf_queue ch) = ms @ older @ newer" "list_all matched ms"
      "list_all (\<lambda>sb. \<not> matched sb \<and> sb_frame_idx sb < bi_frame_idx i) older"
      "list_all (\<lambda>sb. \<not> matched sb \<and> bi_frame_idx i < sb_frame_idx sb) newer"
    and P: "P \<longrightarrow> bd_frame_idx d \<noteq> 0"
  shows "returns (superbuf_not_found i k (of_nat (length older) + of_nat (length newer))
      (if older = [] then None else Some (length ms))
      (if newer = [] then None else Some (length ms + length older)) ch) (evolves P {#d#} ch)"
proof -
  let ?q = "superbuf_queue ch" and ?max = "max_unmatched_frames (superbuf_queue ch)"
  let ?n = "of_nat (length older) + of_nat (length newer) :: 8 word"
  have us: "list_all (\<lambda>sb. \<not> matched sb) (older @ newer)"
    using que by (auto simp: list_all_iff)
  have "unmatched_part ?q = older @ newer"
    using partsI [OF que(1,2) us] by simp
  then have len: "unat ?max < 255 \<longrightarrow> length older + length newer \<le> Suc (unat ?max)"
    using ok by (simp add: channel_ok_def queue_ok_def)
  have n: "unat ?n = length older + length newer" if "unat ?max < 255"
    using len that by (simp add: unat_of_nat flip: of_nat_add)
  show ?thesis
  proof (cases "?max < ?n")
    case False
    have "unat ?max < 255 \<longrightarrow> length older + length newer \<le> unat ?max"
      using False n by (auto simp: word_less_nat_alt)
    then show ?thesis
      using superbuf_insert_evolves [OF ok f que _ P] False by (simp add: superbuf_not_found_def)
  next
    case full: True
    show ?thesis
    proof (cases older)
      case Nil
      then show ?thesis
        using full frame_given_back [OF ok f, of ch] by (simp add: superbuf_not_found_def)
    next
      case (Cons sb older')
      let ?ins = "if newer = [] then None else Some (length ms + length older')"
      have eq: "superbuf_not_found i k ?n (if older = [] then None else Some (length ms))
          (if newer = [] then None else Some (length ms + length older)) ch =
          release_node (length ms) ch \<bind> superbuf_insert i k ?ins"
        using full Cons by (simp add: superbuf_not_found_def)
      have rel: "returns (release_node (length ms) ch) (\<lambda>ch'. evolves P {#} ch ch' \<and>
          que (superbuf_queue ch') = ms @ older' @ newer)"
        using release_node_evolves [OF ok, of ms sb "older' @ newer"] que Cons by simp
      show ?thesis
        unfolding eq returns_bind
      proof (rule returns_mono [OF rel])
        fix ch1 assume ch1: "evolves P {#} ch ch1 \<and> que (superbuf_queue ch1) = ms @ older' @ newer"
        then have ok1: "channel_ok ch1" and same: "hdls (superbuf_queue ch1) = hdls ?q"
          "max_unmatched_frames (superbuf_queue ch1) = ?max"
          by (auto simp: evolves_def ch_setup_def hdls_def)
        have "frame_of ch1 i k d"
          using f same by (simp add: frame_of_def)
        then have "returns (superbuf_insert i k ?ins ch1) (evolves P {#d#} ch1)"
          using ch1 que Cons len same P by (intro superbuf_insert_evolves [OF ok1]) auto
        then show "returns (superbuf_insert i k ?ins ch1) (evolves P {#d#} ch)"
          by (rule returns_mono) (use ch1 evolves_trans [of P "{#}" ch ch1 "{#d#}"] in auto)
      qed
    qed
  qed
qed

lemma superbuf_comp_evolves:
  assumes ok: "channel_ok ch" and f: "frame_of ch i k d" and P: "P \<longrightarrow> new_frame ch d"
  shows "returns (superbuf_comp i k ch) (evolves P {#d#} ch)"
proof -
  obtain ms us where q: "que (superbuf_queue ch) = ms @ us" "list_all matched ms"
    "list_all (\<lambda>sb. \<not> matched sb) us" "sorted_wrt (<) (map sb_frame_idx us)"
    using ok queue_okE unfolding channel_ok_def by blast
  obtain older this newer where us: "us = older @ this @ newer"
    "list_all (\<lambda>sb. \<not> matched sb \<and> sb_frame_idx sb < bi_frame_idx i) older"
    "list_all (\<lambda>sb. \<not> matched sb \<and> bi_frame_idx i < sb_frame_idx sb) newer"
    "this = [] \<or> (\<exists>sb. this = [sb] \<and> sb_frame_idx sb = bi_frame_idx i \<and> \<not> matched sb)"
    using split_at_frame [OF q(4,3)] by blast
  from us(4) show ?thesis
  proof (elim disjE exE conjE)
    assume "this = []"
    then show ?thesis
      using q us P superbuf_not_found_evolves [OF ok f, of ms older newer P]
      by (simp add: superbuf_comp_def scan_not_found new_frame_def)
  next
    fix sb assume "this = [sb]" and sb: "sb_frame_idx sb = bi_frame_idx i" "\<not> matched sb"
    then show ?thesis
      using q us P superbuf_found_evolves [OF ok f, of ms older sb newer P]
      by (simp add: superbuf_comp_def scan_found)
  qed
qed

lemma bundled_index:
  "bundled_index s hs \<le> length hs" "bundled_index s hs < length hs \<longleftrightarrow> s \<in> set hs"
  "s \<in> set hs \<Longrightarrow> hs ! bundled_index s hs = s"
  by (induction hs) auto

lemma comp_and_enqueue_evolves:
  assumes ok: "channel_ok ch" and info: "info_ok i" "bi_buf i = Some d"
    and snap: "snapshot_stream_id (streams ch) \<noteq> None" and P: "P \<longrightarrow> new_frame ch d"
    and bundled: "bi_stream_id i \<in> set (hdls (superbuf_queue ch))"
  shows "returns (mm_channel_superbuf_comp_and_enqueue i ch) (evolves P {#d#} ch)"
proof -
  let ?k = "bundled_index (bi_stream_id i) (hdls (superbuf_queue ch))"
  have f: "frame_of ch i ?k d"
    using bundled info bundled_index by (simp add: frame_of_def)
  have "unat (num_streams (superbuf_queue ch)) = length (hdls (superbuf_queue ch))"
    using ok by (simp add: channel_ok_def queue_ok_def)
  then have eq: "mm_channel_superbuf_comp_and_enqueue i ch = (do {
      (b, ch) \<leftarrow> mm_channel_handle_metadata i ch;
      if \<not> b then mm_channel_qbuf (bi_buf i) ch
      else if mm_channel_util_seq_comp_w_rollover (bi_frame_idx i)
                (expected_frame_id (superbuf_queue ch)) < 0 then mm_channel_qbuf (bi_buf i) ch
      else superbuf_comp i ?k ch })"
    using bundled bundled_index(2) [of "bi_stream_id i" "hdls (superbuf_queue ch)"]
    unfolding mm_channel_superbuf_comp_and_enqueue_def Let_def hdls_def [symmetric] by auto
  show ?thesis
    unfolding eq returns_bind
  proof (rule returns_mono [OF handle_metadata_evolves [OF ok info(1) snap, of P]], clarify)
    fix b :: bool and ch1 assume "evolves P {#} ch (snd (b, ch1))"
    then have ev: "evolves P {#} ch ch1" by simp
    then have ok1: "channel_ok ch1" and f1: "frame_of ch1 i ?k d"
      and P1: "P \<longrightarrow> new_frame ch1 d"
      using f P by (auto simp: evolves_def ch_setup_def frame_of_def hdls_def new_frame_def)
    have "returns (if \<not> b then mm_channel_qbuf (bi_buf i) ch1
      else if mm_channel_util_seq_comp_w_rollover (bi_frame_idx i)
                (expected_frame_id (superbuf_queue ch1)) < 0 then mm_channel_qbuf (bi_buf i) ch1
      else superbuf_comp i ?k ch1) (evolves P {#d#} ch1)"
      using frame_given_back [OF ok1 f1, of ch1] superbuf_comp_evolves [OF ok1 f1 P1] by simp
    then show "returns (if \<not> b then mm_channel_qbuf (bi_buf i) ch1
      else if mm_channel_util_seq_comp_w_rollover (bi_frame_idx i)
                (expected_frame_id (superbuf_queue ch1)) < 0 then mm_channel_qbuf (bi_buf i) ch1
      else superbuf_comp i ?k ch1) (evolves P {#d#} ch)"
      by (rule returns_mono) (use ev evolves_trans [of P "{#}" ch ch1 "{#d#}"] in auto)
  qed
qed

section \<open>The loops after a command\<close>

lemma dispatch_account_evolves: "channel_ok ch \<Longrightarrow> evolves P {#} ch (dispatch_account mode ch)"
  by (rule evolves_control) (simp_all add: dispatch_account_def call_zsl_def ch_setup_def Let_def)

lemma dispatch_account_simps [simp]:
  "superbuf_queue (dispatch_account mode ch) = superbuf_queue ch"
  "streams (dispatch_account mode ch) = streams ch" "qbufs (dispatch_account mode ch) = qbufs ch"
  "cb_cmds (dispatch_account mode ch) = cb_cmds ch" "enq_mem (dispatch_account mode ch) = enq_mem ch"
  by (simp_all add: dispatch_account_def call_zsl_def Let_def)

lemma matched_node_message:
  assumes "node_ok hs sb" "matched sb" "hs \<noteq> []"
  shows "super_buf_ok hs \<lparr>msb_ch_id = h, msb_num_bufs = num_of_bufs sb, msb_bufs = map bi_buf (slots sb)\<rparr>"
    and "List.map_filter id (map bi_buf (slots sb)) = node_bufs sb"
proof -
  have slots: "list_all2 (slot_ok (sb_frame_idx sb)) (slots sb) hs" "no_buf_info \<notin> set (slots sb)"
    using assms by (simp_all add: node_ok_def)
  have all: "list_all2 (\<lambda>i h. buf_ok h (sb_frame_idx sb) (bi_buf i)) (slots sb) hs"
    using slots unfolding list_all2_conv_all_nth slot_ok_def info_ok_def by (metis nth_mem)
  obtain i rest where i: "slots sb = i # rest"
    using slots(1) assms(3) by (cases "slots sb") auto
  then obtain d where d: "bi_buf i = Some d" "bd_frame_idx d = sb_frame_idx sb"
    using all assms(3) by (cases hs) (auto simp: buf_ok_def split: option.splits)
  show "super_buf_ok hs \<lparr>msb_ch_id = h, msb_num_bufs = num_of_bufs sb, msb_bufs = map bi_buf (slots sb)\<rparr>"
    using all assms(1) d i by (cases hs) (simp_all add: super_buf_ok_def node_ok_def list.rel_map)
  show "List.map_filter id (map bi_buf (slots sb)) = node_bufs sb"
    by (simp add: node_bufs_def List.map_filter_def filter_map comp_def)
qed

lemma dispatch_superbuf_evolves:
  assumes ok: "channel_ok ch" and que: "que (superbuf_queue ch) = sb # bs" "matched sb"
  shows "returns (dispatch_superbuf sb (dispatch_account mode
      (ch\<lparr>superbuf_queue := without [] sb bs (superbuf_queue ch)\<rparr>)))
    (\<lambda>ch'. evolves P {#} ch ch' \<and> superbuf_queue ch' = without [] sb bs (superbuf_queue ch))"
proof -
  let ?q = "without [] sb bs (superbuf_queue ch)"
  define ch0 where "ch0 = dispatch_account mode (ch\<lparr>superbuf_queue := ?q\<rparr>)"
  have ch0: "superbuf_queue ch0 = ?q" "streams ch0 = streams ch" "qbufs ch0 = qbufs ch"
    "cb_cmds ch0 = cb_cmds ch" "enq_mem ch0 = enq_mem ch"
    by (simp_all add: ch0_def)
  have node: "node_ok (hdls (superbuf_queue ch)) sb" "streams_known ch"
    using queue_node_ok [OF ok, of sb] que by simp_all
  have give: "returns (qbuf_slots sb ch1) (\<lambda>ch'. evolves P {#} ch ch' \<and> superbuf_queue ch' = ?q)"
    if "superbuf_queue ch1 = ?q" "streams ch1 = streams ch" "qbufs ch1 = qbufs ch"
      "cb_cmds ch1 = cb_cmds ch" "enq_mem ch1 = enq_mem ch" for ch1
  proof -
    note same = that
    obtain qs where "qbuf_slots sb ch1 = Some (ch1\<lparr>qbufs := qbufs ch1 @ qs\<rparr>)" "map snd qs = node_bufs sb"
      using qbuf_slots_gives [OF node same(2) que(2)] by (auto simp: gives_def)
    then show ?thesis
      using same evolves_removed [OF ok, of "[]" sb bs P qs "[]" _ "[]"] que by simp
  qed
  obtain b ch1 where a: "alloc ch0 = (b, ch1)" by fastforce
  have ch1: "superbuf_queue ch1 = ?q" "streams ch1 = streams ch" "qbufs ch1 = qbufs ch"
    "cb_cmds ch1 = cb_cmds ch" "enq_mem ch1 = enq_mem ch"
    using alloc_same [OF a] ch0 by simp_all
  have hs: "hdls (superbuf_queue ch) \<noteq> []" using ok by (simp add: channel_ok_def queue_ok_def)
  define m where "m = \<lparr>msb_ch_id = ch_my_hdl ch1, msb_num_bufs = num_of_bufs sb,
      msb_bufs = map bi_buf (slots sb)\<rparr>"
  have msg: "evolves P {#} ch (cb_thread_enq m ch1)" "superbuf_queue (cb_thread_enq m ch1) = ?q"
  proof -
    show "superbuf_queue (cb_thread_enq m ch1) = ?q"
      using ch1 by (simp add: cb_thread_enq_def enq_alloc_def split: list.split)
    show "evolves P {#} ch (cb_thread_enq m ch1)"
    proof (cases "fst (enq_alloc ch1)")
      case True
      then show ?thesis
        using ch1 que matched_node_message [OF node(1) que(2) hs]
          evolves_removed [OF ok, of "[]" sb bs P "[]" "node_bufs sb" _ "[m]"]
        by (auto simp: cb_thread_enq_def enq_alloc_def m_def split: list.splits)
    next
      case False
      then have "enq_mem ch \<noteq> []" using ch1 by (auto simp: enq_alloc_def split: list.splits)
      moreover have "evolves False {#} ch (cb_thread_enq m ch1)"
        using False ch1 que evolves_removed [OF ok, of "[]" sb bs False "[]" "[]" _ "[]"]
        by (auto simp: cb_thread_enq_def enq_alloc_def split: list.splits)
      ultimately show ?thesis
        by (simp add: evolves_def)
    qed
  qed
  show ?thesis
    unfolding ch0_def [symmetric]
    using give [OF ch0] give [OF ch1] msg by (simp add: dispatch_superbuf_def a m_def)
qed

text \<open>In continuous mode the loop ends when no matched super buffer is left.\<close>

lemma dispatch_loop_evolves:
  "channel_ok ch \<Longrightarrow> returns (dispatch_loop mode ch) (\<lambda>ch'. evolves P {#} ch ch' \<and>
     (mode = MM_CAMERA_SUPER_BUF_NOTIFY_CONTINUOUS \<longrightarrow> matched_num ch' = 0))"
proof (induction "length (que (superbuf_queue ch))" arbitrary: ch rule: less_induct)
  case less
  note ok = \<open>channel_ok ch\<close>
  show ?case
  proof (cases "0 < pending_cnt ch \<or> mode = MM_CAMERA_SUPER_BUF_NOTIFY_CONTINUOUS")
    case False
    then have "dispatch_loop mode ch = Some ch" by (subst dispatch_loop.simps) simp
    then show ?thesis using ok False by (simp add: evolves_refl)
  next
    case go: True
    obtain r q where deq: "mm_channel_superbuf_dequeue (superbuf_queue ch) = (r, q)" by fastforce
    show ?thesis
    proof (cases r)
      case None
      then have q: "q = superbuf_queue ch" "que q = [] \<or> \<not> matched (hd (que q))"
        using deq by (auto simp: mm_channel_superbuf_dequeue_def dequeue_internal_None)
      have "dispatch_loop mode ch = Some (ch\<lparr>superbuf_queue := q\<rparr>)"
        using go None deq by (subst dispatch_loop.simps) simp
      moreover have "matched_part q = []"
        using q(2) by (cases "que q") (auto simp: matched_part_def)
      ultimately show ?thesis
        using ok q(1) matched_num_part [of ch] by (simp add: evolves_refl channel_ok_def)
    next
      case (Some sb)
      then obtain bs where que: "que (superbuf_queue ch) = sb # bs" "matched sb"
        and q: "q = without [] sb bs (superbuf_queue ch)"
        using deq by (auto simp: mm_channel_superbuf_dequeue_def dequeue_internal_Some)
      have loop: "dispatch_loop mode ch =
          dispatch_superbuf sb (dispatch_account mode (ch\<lparr>superbuf_queue := q\<rparr>)) \<bind> dispatch_loop mode"
        using go Some deq by (subst dispatch_loop.simps) simp
      show ?thesis
        unfolding loop q
        by (rule returns_loop [OF dispatch_superbuf_evolves [OF ok que]])
          (rule less.hyps, simp_all add: que)
    qed
  qed
qed

section \<open>The commands\<close>

text \<open>What the channel relies on: a frame that comes in is described by the buffer it comes in, as
  \<^verbatim>\<open>mm_stream_read_msm_frame\<close> fills both in, and its stream is bundled; \<open>cmd_buf\<close> is the buffer.\<close>

fun cmd_ok :: "32 word list \<Rightarrow> mm_camera_cmdcb \<Rightarrow> bool" where
  "cmd_ok hs (MM_CAMERA_CMD_TYPE_DATA_CB i) \<longleftrightarrow> info_ok i \<and> bi_stream_id i \<in> set hs"
| "cmd_ok hs _ \<longleftrightarrow> True"

fun cmd_buf :: "mm_camera_cmdcb \<Rightarrow> mm_camera_buf_def list" where
  "cmd_buf (MM_CAMERA_CMD_TYPE_DATA_CB i) = (case bi_buf i of None \<Rightarrow> [] | Some d \<Rightarrow> [d])"
| "cmd_buf _ = []"

text \<open>A frame is new when its index is not 0 and the queue holds no frame of its stream with the
  index; a flush keeps the account when it flushes every type.\<close>

fun cmd_new :: "mm_channel \<Rightarrow> mm_camera_cmdcb \<Rightarrow> bool" where
  "cmd_new ch (MM_CAMERA_CMD_TYPE_DATA_CB i) \<longleftrightarrow> (case bi_buf i of None \<Rightarrow> False | Some d \<Rightarrow> new_frame ch d)"
| "cmd_new ch (MM_CAMERA_CMD_TYPE_FLUSH_QUEUE f t) \<longleftrightarrow> t = CAM_STREAM_TYPE_DEFAULT"
| "cmd_new ch _ \<longleftrightarrow> True"

lemma superbuf_skip_evolves:
  "channel_ok ch \<Longrightarrow> returns (mm_channel_superbuf_skip ch) (evolves P {#} ch)"
  unfolding mm_channel_superbuf_skip_def
  by (auto intro: evolves_refl returns_mono [OF superbuf_trim_evolves])

lemma request_data_evolves:
  assumes ok: "channel_ok ch"
  shows "returns (request_data n ch) (evolves P {#} ch)"
proof -
  have pend: "evolves P {#} ch (ch\<lparr>pending_cnt := n\<rparr>)"
    using ok by (rule evolves_control) (simp_all add: ch_setup_def)
  have skip: "returns (mm_channel_superbuf_skip (ch\<lparr>pending_cnt := n\<rparr>)) (evolves P {#} ch)"
    by (rule evolves_after [OF pend, where Q = "\<lambda>_. True"]) (use superbuf_skip_evolves [OF evolves_ok [OF pend]] in simp)
  show ?thesis
    unfolding request_data_def
    by (rule evolves_then [OF skip], rule evolves_control) (simp_all add: call_zsl_def ch_setup_def)
qed

lemma ae_bracketing_evolves:
  "channel_ok ch \<Longrightarrow> returns (ae_bracketing n ch) (evolves P {#} ch)"
  unfolding ae_bracketing_def
  by (rule evolves_then [OF superbuf_flush_all], assumption, rule evolves_control)
    (simp_all add: ch_setup_def)

lemma general_cmd_evolves:
  assumes "channel_ok ch"
  shows "returns (general_cmd t n ch) (evolves P {#} ch)"
  using assms by (cases t) (auto intro: ae_bracketing_evolves evolves_control simp: ch_setup_def)

lemma flush_cmd_evolves:
  assumes ok: "channel_ok ch" and P: "P \<longrightarrow> t = CAM_STREAM_TYPE_DEFAULT"
  shows "returns (process_cmd (MM_CAMERA_CMD_TYPE_FLUSH_QUEUE f t) ch)
    (\<lambda>ch'. evolves P {#} ch ch' \<and> que (superbuf_queue ch') = [])"
proof -
  have ok1: "channel_ok (set_expected f ch)"
    by (rule evolves_ok [OF evolves_set_expected [OF ok]])
  have "returns (mm_channel_superbuf_flush t (set_expected f ch))
      (\<lambda>x. evolves P {#} ch (x\<lparr>sync_posts := sync_posts x + 1\<rparr>) \<and> que (superbuf_queue x) = [])"
  proof (rule returns_mono [OF superbuf_flush_evolves [OF ok1 P]], elim conjE)
    fix x assume x: "evolves P {#} (set_expected f ch) x" "que (superbuf_queue x) = []"
    have "evolves P {#} x (x\<lparr>sync_posts := sync_posts x + 1\<rparr>)"
      using evolves_ok [OF x(1)] by (rule evolves_control) (simp_all add: ch_setup_def)
    then show "evolves P {#} ch (x\<lparr>sync_posts := sync_posts x + 1\<rparr>) \<and> que (superbuf_queue x) = []"
      using evolves_trans [OF evolves_trans [OF evolves_set_expected [OF ok] x(1)]] x(2) by simp
  qed
  then show ?thesis by (simp add: returns_bind)
qed

lemma process_cmd_evolves:
  assumes ok: "channel_ok ch" and cmd: "cmd_ok (hdls (superbuf_queue ch)) c"
    and snap: "snapshot_stream_id (streams ch) \<noteq> None" and P: "P \<longrightarrow> cmd_new ch c"
  shows "returns (process_cmd c ch) (evolves P (mset (cmd_buf c)) ch)"
proof (cases c)
  case (MM_CAMERA_CMD_TYPE_DATA_CB i)
  then obtain d where d: "bi_buf i = Some d" "info_ok i"
    using cmd by (auto simp: info_ok_def buf_ok_def split: option.splits)
  then show ?thesis
    using comp_and_enqueue_evolves [OF ok d(2,1) snap, of P] P cmd MM_CAMERA_CMD_TYPE_DATA_CB by simp
next
  case (MM_CAMERA_CMD_TYPE_FLUSH_QUEUE f t)
  then show ?thesis
    using flush_cmd_evolves [OF ok, of P t f] P by (auto elim: returns_mono simp del: process_cmd.simps)
qed (use ok in \<open>auto intro: request_data_evolves general_cmd_evolves evolves_refl evolves_control
    simp: call_zsl_def ch_setup_def upd_queue_def\<close>)

lemma bufdone_overflow_evolves:
  assumes ok: "channel_ok ch" and few: "matched_num ch < 2 ^ 32"
  shows "returns (mm_channel_superbuf_bufdone_overflow ch) (\<lambda>ch'. evolves P {#} ch ch' \<and>
    (notify_mode (superbuf_queue ch) = MM_CAMERA_SUPER_BUF_NOTIFY_CONTINUOUS \<or>
     matched_num ch' \<le> unat (water_mark (superbuf_queue ch))))"
proof (cases "notify_mode (superbuf_queue ch) = MM_CAMERA_SUPER_BUF_NOTIFY_CONTINUOUS")
  case True
  then show ?thesis
    using ok by (simp add: mm_channel_superbuf_bufdone_overflow_def evolves_refl)
next
  case False
  let ?w = "water_mark (superbuf_queue ch)"
  have "returns (superbuf_trim ?w ch) (\<lambda>ch'. evolves P {#} ch ch' \<and> matched_num ch' \<le> unat ?w)"
  proof (rule returns_mono [OF superbuf_trim_evolves [OF ok, of _ P]], elim conjE)
    fix x assume x: "evolves P {#} ch x" "match_cnt (superbuf_queue x) \<le> ucast ?w"
    then have "queue_ok (superbuf_queue x)" "matched_num x < 2 ^ 32"
      using few evolves_ok [OF x(1)] by (auto simp: evolves_def channel_ok_def)
    then have "unat (match_cnt (superbuf_queue x)) = matched_num x"
      using matched_num_part [of x] by (simp add: queue_ok_def unat_of_nat)
    moreover have "unat ?w < 2 ^ LENGTH(8)"
      by (rule unsigned_less)
    ultimately show "evolves P {#} ch x \<and> matched_num x \<le> unat ?w"
      using x by (simp add: word_le_nat_alt unsigned_ucast_eq take_bit_eq_mod)
  qed
  then show ?thesis
    using False by (simp add: mm_channel_superbuf_bufdone_overflow_def)
qed

text \<open>Every command returns; after it no more than the water mark of matched super buffers is left.\<close>

lemma process_stream_buf_evolves:
  assumes ok: "channel_ok ch" and cmd: "cmd_ok (hdls (superbuf_queue ch)) c"
    and snap: "snapshot_stream_id (streams ch) \<noteq> None" and P: "P \<longrightarrow> cmd_new ch c"
    and few: "matched_num ch \<le> 255"
  shows "returns (mm_channel_process_stream_buf c ch) (\<lambda>ch'. evolves P (mset (cmd_buf c)) ch ch' \<and>
    matched_num ch' \<le> unat (water_mark (superbuf_queue ch)))"
proof (cases "is_flush_cmd c")
  case True
  then obtain f t where c: "c = MM_CAMERA_CMD_TYPE_FLUSH_QUEUE f t"
    by (cases c) simp_all
  then have "returns (process_cmd c ch) (\<lambda>ch'. evolves P (mset (cmd_buf c)) ch ch' \<and>
      matched_num ch' \<le> unat (water_mark (superbuf_queue ch)))"
    unfolding c using flush_cmd_evolves [OF ok, of P t f] P c
    by (auto elim!: returns_mono simp: matched_num_def simp del: process_cmd.simps)
  then show ?thesis
    using c by (simp add: mm_channel_process_stream_buf_def)
next
  case False
  let ?W = "unat (water_mark (superbuf_queue ch))"
  have rest: "returns (mm_channel_superbuf_bufdone_overflow ch1 \<bind>
      dispatch_loop (notify_mode (superbuf_queue ch1)))
      (\<lambda>x. evolves P (mset (cmd_buf c)) ch x \<and> matched_num x \<le> ?W)"
    if ev: "evolves P (mset (cmd_buf c)) ch ch1" for ch1
    unfolding returns_bind
  proof (rule returns_mono [OF bufdone_overflow_evolves [OF evolves_ok [OF ev], of P]], goal_cases)
    case 1
    have "size (mset (cmd_buf c)) \<le> 1"
      by (cases c) (simp_all split: option.split)
    then show ?case using few ev by (simp add: evolves_def)
  next
    case (2 x)
    then have evx: "evolves P (mset (cmd_buf c)) ch x" "channel_ok x"
      using evolves_trans [OF ev, of "{#}" x] evolves_ok by auto
    have W: "water_mark (superbuf_queue ch1) = water_mark (superbuf_queue ch)"
      using ev by (simp add: evolves_def ch_setup_def)
    show ?case
    proof (rule returns_mono [OF dispatch_loop_evolves [OF evx(2), of _ P]], elim conjE)
      fix y assume y: "evolves P {#} x y" "notify_mode (superbuf_queue ch1) =
        MM_CAMERA_SUPER_BUF_NOTIFY_CONTINUOUS \<longrightarrow> matched_num y = 0"
      have "matched_num y \<le> matched_num x" using y(1) by (simp add: evolves_def)
      then show "evolves P (mset (cmd_buf c)) ch y \<and> matched_num y \<le> ?W"
        using evolves_trans [OF evx(1) y(1)] y(2) 2 W by auto
    qed
  qed
  show ?thesis
    using False returns_mono [OF process_cmd_evolves [OF ok cmd snap P] rest]
    by (simp add: mm_channel_process_stream_buf_def returns_bind Let_def)
qed

end
