(* ===== verification/MmChannelProps.thy ===== *)
theory MmChannelProps
  imports MmRunInv
begin

text \<open>
  The properties of the super buffer queue over runs of its command thread: every command returns,
  the super buffers the client gets are complete and of one frame, no buffer is lost or used twice,
  and the queue stays within its limits. The last part shows where the code falls short of this.
\<close>

section \<open>Runs\<close>

definition full_flush :: "mm_camera_cmdcb \<Rightarrow> bool" where
  "full_flush c \<longleftrightarrow> (case c of MM_CAMERA_CMD_TYPE_FLUSH_QUEUE f t \<Rightarrow> t = CAM_STREAM_TYPE_DEFAULT | _ \<Rightarrow> True)"

definition incoming :: "mm_camera_cmdcb list \<Rightarrow> mm_camera_buf_def list" where
  "incoming cs = concat (map cmd_buf cs)"

text \<open>No frame has index 0, none comes twice, and flushes flush all types.\<close>

definition frames_new :: "mm_channel \<Rightarrow> mm_camera_cmdcb list \<Rightarrow> bool" where
  "frames_new ch cs \<longleftrightarrow>
     list_all full_flush cs \<and> list_all (\<lambda>d. bd_frame_idx d \<noteq> 0) (incoming cs) \<and>
     distinct (map buf_key (incoming cs)) \<and>
     list_all (\<lambda>d. buf_key d \<notin> buf_key ` set (held ch)) (incoming cs)"

lemma frames_new_Cons:
  assumes "frames_new ch (c # cs)" "cmd_ok hs c"
  shows "cmd_new ch c" "evolves P (mset (cmd_buf c)) ch ch1 \<Longrightarrow> frames_new ch1 cs"
proof -
  show "cmd_new ch c"
    using assms by (cases c) (auto simp: frames_new_def full_flush_def incoming_def new_frame_def
        info_ok_def buf_ok_def split: option.splits)
  assume "evolves P (mset (cmd_buf c)) ch ch1"
  then have "set (held ch1) \<subseteq> set (held ch) \<union> set (cmd_buf c)"
    by (simp add: evolves_def)
  moreover have "buf_key ` set (cmd_buf c) \<inter> buf_key ` set (incoming cs) = {}"
    "list_all (\<lambda>d. buf_key d \<notin> buf_key ` set (held ch)) (incoming cs)"
    using assms(1) by (auto simp: frames_new_def incoming_def)
  ultimately have "list_all (\<lambda>d. buf_key d \<notin> buf_key ` set (held ch1)) (incoming cs)"
    unfolding list_all_iff by blast
  then show "frames_new ch1 cs"
    using assms(1) by (simp add: frames_new_def incoming_def)
qed

lemma process_stream_bufs_evolves:
  assumes "channel_ok ch" "list_all (cmd_ok (hdls (superbuf_queue ch))) cs"
    and "snapshot_stream_id (streams ch) \<noteq> None" "matched_num ch \<le> 255"
    and "P \<longrightarrow> frames_new ch cs"
  shows "returns (process_stream_bufs cs ch) (\<lambda>ch'. evolves P (mset (incoming cs)) ch ch' \<and>
    (cs \<noteq> [] \<longrightarrow> matched_num ch' \<le> unat (water_mark (superbuf_queue ch))))"
  using assms
proof (induction cs arbitrary: ch)
  case Nil
  then show ?case by (simp add: evolves_refl incoming_def)
next
  case (Cons c cs)
  have cmd: "cmd_ok (hdls (superbuf_queue ch)) c" using Cons.prems by simp
  have "P \<longrightarrow> cmd_new ch c" using Cons.prems frames_new_Cons(1) [OF _ cmd] by blast
  note step = process_stream_buf_evolves [OF Cons.prems(1) cmd Cons.prems(3) this Cons.prems(4)]
  show ?case
    unfolding process_stream_bufs.simps returns_bind
  proof (rule returns_mono [OF step], elim conjE)
    fix ch1 assume ch1: "evolves P (mset (cmd_buf c)) ch ch1"
      "matched_num ch1 \<le> unat (water_mark (superbuf_queue ch))"
    have same: "streams ch1 = streams ch" "hdls (superbuf_queue ch1) = hdls (superbuf_queue ch)"
      "water_mark (superbuf_queue ch1) = water_mark (superbuf_queue ch)" "channel_ok ch1"
      using ch1(1) by (simp_all add: evolves_def ch_setup_def hdls_def)
    have "unat (water_mark (superbuf_queue ch)) < 2 ^ LENGTH(8)" by (rule unsigned_less)
    then have "returns (process_stream_bufs cs ch1) (\<lambda>ch'. evolves P (mset (incoming cs)) ch1 ch' \<and>
        (cs \<noteq> [] \<longrightarrow> matched_num ch' \<le> unat (water_mark (superbuf_queue ch1))))"
      using Cons.prems same ch1 frames_new_Cons(2) [OF _ cmd ch1(1)] by (intro Cons.IH) auto
    then show "returns (process_stream_bufs cs ch1) (\<lambda>ch'. evolves P (mset (incoming (c # cs))) ch ch' \<and>
        (c # cs \<noteq> [] \<longrightarrow> matched_num ch' \<le> unat (water_mark (superbuf_queue ch))))"
    proof (rule returns_mono, elim conjE, intro conjI impI)
      fix x assume x: "evolves P (mset (incoming cs)) ch1 x"
        "cs \<noteq> [] \<longrightarrow> matched_num x \<le> unat (water_mark (superbuf_queue ch1))"
      show "evolves P (mset (incoming (c # cs))) ch x"
        using evolves_trans [OF ch1(1) x(1)] by (simp add: incoming_def)
      show "matched_num x \<le> unat (water_mark (superbuf_queue ch))"
        using x ch1(2) same by (cases cs) (auto simp: evolves_def incoming_def)
    qed
  qed
qed

section \<open>A started channel\<close>

text \<open>The channel as \<open>mm_channel_start\<close> leaves it: the queue is empty and nothing is counted, the
  bundled streams are those of the stream table.\<close>

definition channel_started :: "mm_channel \<Rightarrow> bool" where
  "channel_started ch \<longleftrightarrow> (let q = superbuf_queue ch in
     que q = [] \<and> que_size q = 0 \<and> match_cnt q = 0 \<and>
     num_streams q \<noteq> 0 \<and> unat (num_streams q) \<le> MAX_STREAM_NUM_IN_BUNDLE \<and>
     length (bundled_streams q) = MAX_STREAM_NUM_IN_BUNDLE \<and> distinct (hdls q) \<and>
     streams_known ch \<and> qbufs ch = [] \<and> cb_cmds ch = [])"

lemma channel_started_ok:
  assumes "channel_started ch"
  shows "channel_ok ch" "matched_num ch = 0" "held ch = []" "bag ch = {#}" "frames_counted ch"
proof -
  let ?q = "superbuf_queue ch"
  have "length (hdls ?q) = unat (num_streams ?q)" "unat (num_streams ?q) \<noteq> 0"
    using assms by (simp_all add: channel_started_def Let_def hdls_def unat_eq_0)
  then show "channel_ok ch"
    using assms by (auto simp: channel_started_def Let_def channel_ok_def queue_ok_def
        matched_part_def unmatched_part_def)
qed (use assms in \<open>simp_all add: channel_started_def Let_def matched_num_def held_def bag_def
    given_back_def sent_def frames_counted_def\<close>)

lemma queue_start_started:
  assumes "s_objs \<noteq> []" "length s_objs \<le> MAX_STREAM_NUM_IN_BUNDLE" "distinct (map st_my_hdl s_objs)"
    and "length (bundled_streams q) = MAX_STREAM_NUM_IN_BUNDLE" "match_cnt q = 0"
    and "list_all st_used s_objs" "set s_objs \<subseteq> set (streams ch)" "qbufs ch = []" "cb_cmds ch = []"
  shows "channel_started (ch\<lparr>superbuf_queue := superbuf_queue_start s_objs q\<rparr>)"
proof -
  let ?q = "superbuf_queue_start s_objs q"
  have n: "unat (num_streams ?q) = length s_objs" "num_streams ?q = of_nat (length s_objs)"
    using assms(2) by (simp_all add: superbuf_queue_start_def unat_of_nat MAX_STREAM_NUM_IN_BUNDLE_def)
  then have h: "hdls ?q = map st_my_hdl s_objs"
    unfolding hdls_def n(1) by (simp add: superbuf_queue_start_def)
  have "mm_channel_util_get_stream_by_handler (ch\<lparr>superbuf_queue := ?q\<rparr>) (st_my_hdl s) \<noteq> None"
    if "s \<in> set s_objs" for s
    using that assms(6,7) by (auto simp: mm_channel_util_get_stream_by_handler_def find_None_iff list_all_iff)
  moreover have "num_streams ?q \<noteq> 0"
    using n assms(1) by (metis length_0_conv unat_0)
  ultimately show ?thesis
    using assms n h by (auto simp: channel_started_def Let_def streams_known_def list_all_iff
        superbuf_queue_start_def mm_channel_superbuf_queue_init_def)
qed

section \<open>A channel with a metadata and a snapshot stream\<close>

definition demo_streams :: "mm_stream list" where
  "demo_streams =
     [\<lparr>st_used = True, st_my_hdl = 1, st_server_stream_id = 11,
       st_stream_info = Some CAM_STREAM_TYPE_METADATA, st_own = True\<rparr>,
      \<lparr>st_used = True, st_my_hdl = 2, st_server_stream_id = 12,
       st_stream_info = Some CAM_STREAM_TYPE_SNAPSHOT, st_own = True\<rparr>]"

definition demo_queue :: mm_channel_queue where
  "demo_queue = superbuf_queue_start demo_streams
     \<lparr>que = [], que_size = 0, num_streams = 0, bundled_streams = [0, 0, 0, 0],
      notify_mode = MM_CAMERA_SUPER_BUF_NOTIFY_BURST, water_mark = 1, look_back = 1,
      post_frame_skip = 0, max_unmatched_frames = 1, expected_frame_id = 0, match_cnt = 0,
      expected_frame_id_without_led = 0\<rparr>"

definition demo_channel :: mm_channel where
  "demo_channel = \<lparr>ch_my_hdl = 7, ch_notify_cb = True, superbuf_queue = demo_queue, pending_cnt = 0,
     streams = demo_streams, manualZSLSnapshot = False, startZSlSnapshotCalled = False,
     needLEDFlash = False, previewSkipCnt = 0, bracketingState = MM_CHANNEL_BRACKETING_STATE_OFF,
     isFlashBracketingEnabled = False, isZoom1xFrameRequested = False, sync_posts = 0, qbufs = [],
     cb_cmds = [], zsl_calls = [], mem = [], enq_mem = []\<rparr>"

definition demo_metadata :: cam_metadata_info where
  "demo_metadata = \<lparr>is_frame_id_reset = False, is_meta_invalid = False, is_crop_valid = False,
     crop_info = [], is_prep_snapshot_done_valid = False,
     prep_snapshot_done_state = DO_NOT_NEED_FUTURE_FRAME, is_good_frame_idx_range_valid = False,
     min_frame_idx = 0, max_frame_idx = 0\<rparr>"

definition demo_frame :: "32 word \<Rightarrow> 32 word \<Rightarrow> 32 word \<Rightarrow> mm_camera_cmdcb" where
  "demo_frame s f b = MM_CAMERA_CMD_TYPE_DATA_CB \<lparr>bi_stream_id = s, bi_frame_idx = f,
     bi_buf = Some \<lparr>bd_stream_id = s,
       bd_stream_type = (if s = 1 then CAM_STREAM_TYPE_METADATA else CAM_STREAM_TYPE_SNAPSHOT),
       bd_buf_idx = b, bd_frame_idx = f, bd_buffer = Some demo_metadata\<rparr>\<rparr>"

text \<open>Frames 1 to 4 of both streams, the snapshot of frame 2 missing, and a request for two.\<close>

definition demo_cmds :: "mm_camera_cmdcb list" where
  "demo_cmds = [demo_frame 1 1 0, demo_frame 2 1 0, demo_frame 1 2 1, demo_frame 2 3 1,
     demo_frame 1 3 2, MM_CAMERA_CMD_TYPE_REQ_DATA_CB 2, demo_frame 2 4 2, demo_frame 1 4 3]"

declare superbuf_trim.simps [code] dispatch_loop.simps [code] mm_channel_superbuf_flush.simps [code]
  mm_channel_superbuf_flush_matched.simps [code]

lemma demo_started: "channel_started demo_channel"
  by code_simp

lemma demo_cmds_ok: "list_all (cmd_ok (hdls (superbuf_queue demo_channel))) demo_cmds"
  by code_simp

lemma demo_snapshot: "snapshot_stream_id (streams demo_channel) \<noteq> None"
  by code_simp

lemma demo_new: "frames_new demo_channel demo_cmds"
  by code_simp

definition demo_end :: mm_channel where
  "demo_end = the (process_stream_bufs demo_cmds demo_channel)"

lemma demo_runs: "process_stream_bufs demo_cmds demo_channel = Some demo_end"
proof -
  have "process_stream_bufs demo_cmds demo_channel \<noteq> None" by code_simp
  then show ?thesis by (auto simp: demo_end_def)
qed

section \<open>Properties\<close>



text \<open>
  C12. A super buffer that is sent to the client is complete and of one frame: it holds a buffer of
  every bundled stream, in the order of the bundle, all with the same frame index.\<close>

theorem superbufs_synchronised:
  assumes started: "channel_started ch" "list_all (cmd_ok (hdls (superbuf_queue ch))) cs"
      "snapshot_stream_id (streams ch) \<noteq> None"
    and run: "process_stream_bufs cs ch = Some ch'" and m: "m \<in> set (cb_cmds ch')"
  shows "unat (msb_num_bufs m) = unat (num_streams (superbuf_queue ch)) \<and>
    (\<exists>f. \<forall>k < unat (num_streams (superbuf_queue ch)). \<exists>d. msb_bufs m ! k = Some d \<and>
       bd_stream_id d = bundled_streams (superbuf_queue ch) ! k \<and> bd_frame_idx d = f)"
proof -
  let ?hs = "hdls (superbuf_queue ch)"
  have "evolves False (mset (incoming cs)) ch ch'"
    using process_stream_bufs_evolves [of ch cs False] started channel_started_ok [of ch] run by simp
  then have "hdls (superbuf_queue ch') = ?hs" "channel_ok ch'"
    by (simp_all add: evolves_def ch_setup_def hdls_def)
  then have "list_all (super_buf_ok ?hs) (cb_cmds ch')"
    by (simp add: channel_ok_def)
  then have ok: "super_buf_ok ?hs m" using m by (simp add: list_all_iff)
  have n: "length ?hs = unat (num_streams (superbuf_queue ch))"
    using channel_started_ok(1) [OF started(1)] by (simp add: channel_ok_def queue_ok_def)
  from ok obtain d bs where "msb_bufs m = Some d # bs"
    "list_all2 (\<lambda>b h. buf_ok h (bd_frame_idx d) b) (msb_bufs m) ?hs"
    by (auto simp: super_buf_ok_def split: list.splits option.splits)
  then show ?thesis
    using ok n by (auto simp: super_buf_ok_def list_all2_conv_all_nth buf_ok_def hdls_def
        split: option.splits intro!: exI [of _ "bd_frame_idx d"])
qed

lemma superbufs_synchronised_witness:
  "\<exists>f d e. msb_bufs (hd (cb_cmds demo_end)) ! 0 = Some d \<and> bd_stream_id d = 1 \<and> bd_frame_idx d = f \<and>
    msb_bufs (hd (cb_cmds demo_end)) ! 1 = Some e \<and> bd_stream_id e = 2 \<and> bd_frame_idx e = f"
proof -
  have "cb_cmds demo_end \<noteq> []" by code_simp
  then have m: "hd (cb_cmds demo_end) \<in> set (cb_cmds demo_end)" by simp
  have n: "unat (num_streams (superbuf_queue demo_channel)) = 2"
    "bundled_streams (superbuf_queue demo_channel) ! 0 = 1"
    "bundled_streams (superbuf_queue demo_channel) ! 1 = 2"
    by code_simp+
  obtain f where f: "\<forall>k < 2. \<exists>d. msb_bufs (hd (cb_cmds demo_end)) ! k = Some d \<and>
      bd_stream_id d = bundled_streams (superbuf_queue demo_channel) ! k \<and> bd_frame_idx d = f"
    using superbufs_synchronised [OF demo_started demo_cmds_ok demo_snapshot demo_runs m] n(1) by auto
  show ?thesis
    using f [rule_format, of 0] f [rule_format, of 1] n(2,3) by auto
qed



lemma unmatched_filter:
  assumes "queue_ok q"
  shows "filter (\<lambda>sb. \<not> matched sb) (que q) = unmatched_part q"
proof -
  have "filter (\<lambda>sb. \<not> matched sb) (matched_part q) = []"
    using matched_part_matched [of q] by (auto simp: list_all_iff filter_empty_conv)
  moreover have "filter (\<lambda>sb. \<not> matched sb) (unmatched_part q) = unmatched_part q"
    using assms by (auto simp: queue_ok_def list_all_iff filter_id_conv)
  ultimately show ?thesis
    unfolding parts_append [of q, symmetric] by simp
qed

text \<open>
  C33. After every command the queue holds at most \<open>water_mark\<close> matched super buffers, and at
  most one more than \<open>max_unmatched_frames\<close> that wait for a frame, when that limit is below 255.\<close>

theorem superbuf_queue_bounded:
  assumes "channel_started ch" "list_all (cmd_ok (hdls (superbuf_queue ch))) cs"
    and "snapshot_stream_id (streams ch) \<noteq> None" "max_unmatched_frames (superbuf_queue ch) < 255"
    and run: "process_stream_bufs cs ch = Some ch'"
  shows "length (filter matched (que (superbuf_queue ch'))) \<le> unat (water_mark (superbuf_queue ch)) \<and>
    length (filter (\<lambda>sb. \<not> matched sb) (que (superbuf_queue ch'))) \<le>
      unat (max_unmatched_frames (superbuf_queue ch)) + 1"
proof -
  let ?q = "superbuf_queue ch" and ?q' = "superbuf_queue ch'"
  have ev: "evolves False (mset (incoming cs)) ch ch'"
    and W: "cs \<noteq> [] \<longrightarrow> matched_num ch' \<le> unat (water_mark ?q)"
    using process_stream_bufs_evolves [of ch cs False] assms channel_started_ok [of ch] by simp_all
  have "matched_num ch' \<le> unat (water_mark ?q)"
    using W run channel_started_ok(2) [OF assms(1)] by (cases cs) auto
  moreover have max: "max_unmatched_frames ?q' = max_unmatched_frames ?q" "queue_ok ?q'"
    using ev by (simp_all add: evolves_def ch_setup_def channel_ok_def)
  have "unat (max_unmatched_frames ?q) < 255"
    using assms(4) by (simp add: word_less_nat_alt)
  ultimately show ?thesis
    using max unmatched_filter [OF max(2)] by (simp add: matched_num_def queue_ok_def)
qed

lemma superbuf_queue_bounded_witness:
  "length (filter matched (que (superbuf_queue demo_end))) \<le> unat (water_mark (superbuf_queue demo_channel)) \<and>
    length (filter (\<lambda>sb. \<not> matched sb) (que (superbuf_queue demo_end))) \<le>
      unat (max_unmatched_frames (superbuf_queue demo_channel)) + 1"
  by (rule superbuf_queue_bounded [OF demo_started demo_cmds_ok demo_snapshot _ demo_runs]) code_simp

section \<open>Where the code falls short\<close>

text \<open>\<open>mm_channel_start\<close> empties the queue and keeps the count of matched super buffers, and
  \<open>mm_channel_stop\<close> frees the queue and keeps the count too. When a channel that was stopped with
  more matched super buffers than its water mark is started again, the first command that is no
  flush never ends: the overflow loop finds nothing to take off and the count does not change.\<close>

lemma superbuf_trim_stuck:
  assumes "que (superbuf_queue ch) = []" "ucast l < match_cnt (superbuf_queue ch)"
  shows "superbuf_trim l ch = None"
proof (rule ccontr)
  assume "superbuf_trim l ch \<noteq> None"
  then obtain r where "superbuf_trim l ch = Some r" by blast
  then have "\<not> (que (superbuf_queue ch) = [] \<and> ucast l < match_cnt (superbuf_queue ch))"
  proof (rule superbuf_trim.raw_induct [where
        P = "\<lambda>l ch r. \<not> (que (superbuf_queue ch) = [] \<and> ucast l < match_cnt (superbuf_queue ch))", rotated])
    fix f l ch y
    assume IH: "\<And>l ch r. f l ch = Some r \<Longrightarrow>
        \<not> (que (superbuf_queue ch) = [] \<and> ucast l < match_cnt (superbuf_queue ch))"
      and step: "(if ucast l < match_cnt (superbuf_queue ch)
        then case mm_channel_superbuf_dequeue_internal True (superbuf_queue ch) of
               (None, q) \<Rightarrow> f l (ch\<lparr>superbuf_queue := q\<rparr>)
             | (Some sb, q) \<Rightarrow> qbuf_present sb (ch\<lparr>superbuf_queue := q\<rparr>) \<bind> f l
        else Some ch) = Some y"
    show "\<not> (que (superbuf_queue ch) = [] \<and> ucast l < match_cnt (superbuf_queue ch))"
    proof
      assume stuck: "que (superbuf_queue ch) = [] \<and> ucast l < match_cnt (superbuf_queue ch)"
      then have "mm_channel_superbuf_dequeue_internal True (superbuf_queue ch) = (None, superbuf_queue ch)"
        by (simp add: mm_channel_superbuf_dequeue_internal_def)
      with step stuck have "f l (ch\<lparr>superbuf_queue := superbuf_queue ch\<rparr>) = Some y" by simp
      then show False using IH [of l "ch\<lparr>superbuf_queue := superbuf_queue ch\<rparr>" y] stuck by simp
    qed
  qed
  then show False using assms by blast
qed

theorem restarted_channel_hangs:
  assumes "notify_mode q = MM_CAMERA_SUPER_BUF_NOTIFY_BURST" "ucast (water_mark q) < match_cnt q"
  shows "mm_channel_process_stream_buf MM_CAMERA_CMD_TYPE_START_ZSL
    (ch\<lparr>superbuf_queue := superbuf_queue_start s_objs (mm_channel_superbuf_queue_deinit q)\<rparr>) = None"
proof -
  let ?ch = "ch\<lparr>superbuf_queue := superbuf_queue_start s_objs (mm_channel_superbuf_queue_deinit q)\<rparr>"
  let ?ch1 = "call_zsl Start_zsl_snapshot (?ch\<lparr>manualZSLSnapshot := True\<rparr>)"
  have q: "que (superbuf_queue ?ch1) = []" "match_cnt (superbuf_queue ?ch1) = match_cnt q"
    "water_mark (superbuf_queue ?ch1) = water_mark q" "notify_mode (superbuf_queue ?ch1) = notify_mode q"
    by (simp_all add: call_zsl_def superbuf_queue_start_def mm_channel_superbuf_queue_init_def
        mm_channel_superbuf_queue_deinit_def)
  have "superbuf_trim (water_mark (superbuf_queue ?ch1)) ?ch1 = None"
    by (rule superbuf_trim_stuck) (simp_all add: q assms)
  then have "mm_channel_superbuf_bufdone_overflow ?ch1 = None"
    using assms(1) q(4) by (simp add: mm_channel_superbuf_bufdone_overflow_def)
  then show ?thesis
    by (simp add: mm_channel_process_stream_buf_def Let_def)
qed

text \<open>The second frame of a stream with an index takes the slot of the first, whose buffer is neither
  held nor given back any more; the code logs the case and goes on.\<close>

lemma duplicate_frame_is_lost:
  "map_option (\<lambda>ch. (map bd_buf_idx (held ch), map bd_buf_idx (given_back ch), sent ch))
     (process_stream_bufs [demo_frame 1 1 0, demo_frame 1 1 5] demo_channel) = Some ([5], [], [])"
  by code_simp

text \<open>A frame with index 0 marks its slot as empty: the super buffer never gets complete, and its
  buffers are not given back when it is released.\<close>

lemma frame_zero_is_lost:
  "map_option (\<lambda>ch. (map bd_buf_idx (held ch), map bd_buf_idx (given_back ch)))
     (process_stream_bufs [demo_frame 1 0 0, demo_frame 2 0 0, demo_frame 1 1 1, demo_frame 2 1 1]
       demo_channel) = Some ([1, 1], [])"
  by code_simp

text \<open>A flush of one stream type empties the whole queue and gives back the buffers of that type only.\<close>

lemma partial_flush_loses:
  "map_option (\<lambda>ch. (held ch, map bd_buf_idx (given_back ch)))
     (process_stream_bufs [demo_frame 1 1 3, demo_frame 2 1 4,
        MM_CAMERA_CMD_TYPE_FLUSH_QUEUE 0 CAM_STREAM_TYPE_SNAPSHOT] demo_channel) = Some ([], [4])"
  by code_simp

text \<open>When the queue of the callback thread has no memory for the message, which
  \<open>cam_queue_enq\<close> reports and the caller does not look at, the super buffer is gone.\<close>

lemma failed_enqueue_loses:
  "map_option (\<lambda>ch. (held ch, given_back ch, cb_cmds ch, pending_cnt ch))
     (process_stream_bufs [demo_frame 1 1 3, demo_frame 2 1 4, MM_CAMERA_CMD_TYPE_REQ_DATA_CB 1]
       (demo_channel\<lparr>enq_mem := [False]\<rparr>)) = Some ([], [], [], 0)"
  by code_simp

text \<open>A metadata frame on a channel with no snapshot stream and a free slot in its stream table
  follows the null \<open>stream_info\<close> of the free slot.\<close>

lemma no_snapshot_stream_faults:
  "mm_channel_process_stream_buf (demo_frame 1 1 0)
     (demo_channel\<lparr>streams := [demo_streams ! 0,
        \<lparr>st_used = True, st_my_hdl = 2, st_server_stream_id = 12,
         st_stream_info = Some CAM_STREAM_TYPE_RAW, st_own = True\<rparr>,
        \<lparr>st_used = False, st_my_hdl = 0, st_server_stream_id = 0, st_stream_info = None,
         st_own = False\<rparr>]\<rparr>) = None"
  by code_simp

text \<open>The comparison that is to handle the roll over of the frame index takes index 0 for older than
  the last index before it.\<close>

lemma seq_comp_no_rollover: "mm_channel_util_seq_comp_w_rollover 0 (- 1) = - 1"
  by code_simp

end
