(* ===== verification/MmOffset.thy ===== *)
theory MmOffset
  imports MmChannel "HOL-Library.Signed_Division"
begin

text \<open>
  The layout of a stream's frame buffers, from
  \<^verbatim>\<open>src/camera/QCamera2/stack/mm-camera-interface/src/mm_camera_stream.c\<close>: the functions
  \<open>mm_stream_calc_offset_*\<close> derive from the format, the dimension and the padding of a stream how
  many planes a frame has, the length, stride and scanline of each and the length of the frame,
  which is what the HAL allocates. All numbers are 32 bit words, as in the code; the division of
  signed values truncates (\<open>div_int\<close>).

  What the build decides is the parameter \<open>build\<close>: \<open>venus\<close> holds the \<^verbatim>\<open>VENUS_*\<close> macros of the kernel
  header \<^verbatim>\<open>msm_media_info.h\<close>, which is not under \<^verbatim>\<open>src/\<close>, when \<^verbatim>\<open>VENUS_PRESENT\<close> is defined, and
  \<open>a_family\<close> is \<^verbatim>\<open>USE_A_FAMILY\<close>.
\<close>

unbundle bit_operations_syntax

section \<open>Types\<close>

text \<open>The Bayer formats \<^verbatim>\<open>CAM_FORMAT_BAYER_<packing>_<depth>_<order>\<close> of \<open>cam_format_t\<close> are one
  constructor with three arguments; \<^verbatim>\<open>IDEAL_RAW_PLAIN8\<close> exists for 8 bits only.\<close>

datatype bayer_packing =
  QCOM_RAW | MIPI_RAW | IDEAL_RAW_QCOM | IDEAL_RAW_MIPI | IDEAL_RAW_PLAIN8 | IDEAL_RAW_PLAIN16
datatype bayer_depth = BPP_8 | BPP_10 | BPP_12 | BPP_14
datatype bayer_order = GBRG | GRBG | RGGB | BGGR

datatype cam_format =
    CAM_FORMAT_JPEG
  | CAM_FORMAT_YUV_420_NV12 | CAM_FORMAT_YUV_420_NV21 | CAM_FORMAT_YUV_420_NV21_ADRENO
  | CAM_FORMAT_YUV_420_YV12 | CAM_FORMAT_YUV_422_NV16 | CAM_FORMAT_YUV_422_NV61
  | CAM_FORMAT_YUV_420_NV12_VENUS
  | CAM_FORMAT_YUV_RAW_8BIT_YUYV | CAM_FORMAT_YUV_RAW_8BIT_YVYU
  | CAM_FORMAT_YUV_RAW_8BIT_UYVY | CAM_FORMAT_YUV_RAW_8BIT_VYUY
  | CAM_FORMAT_BAYER bayer_packing bayer_depth bayer_order
  | CAM_FORMAT_JPEG_RAW_8BIT | CAM_FORMAT_META_RAW_8BIT | CAM_FORMAT_META_RAW_10BIT

record cam_mp_len_offset =
  mp_len :: "32 word"
  mp_offset :: "32 word"
  mp_offset_x :: "32 word"
  mp_offset_y :: "32 word"
  mp_stride :: "32 word"
  mp_scanline :: "32 word"
  mp_width :: "32 word"
  mp_height :: "32 word"

record cam_padding_info =
  width_padding :: "32 word"
  height_padding :: "32 word"
  plane_padding :: "32 word"

record cam_frame_len_offset =
  num_planes :: "32 word"
  mp :: "cam_mp_len_offset list"
  frame_len :: "32 word"

record cam_dimension =
  dim_width :: "32 word"
  dim_height :: "32 word"

datatype cam_rotation = ROTATE_0 | ROTATE_90 | ROTATE_180 | ROTATE_270
datatype cam_reprocess_type = CAM_ONLINE_REPROCESS_TYPE | CAM_OFFLINE_REPROCESS_TYPE

text \<open>The stream information shared with the server, as far as this file uses it.\<close>

record cam_stream_info =
  stream_svr_id :: "32 word"
  stream_type :: cam_stream_type
  fmt :: cam_format
  dim :: cam_dimension
  buf_planes :: cam_frame_len_offset
  num_bufs :: "32 word"
  pp_feature_mask :: "32 word"
  pp_rotation :: cam_rotation
  pp_type :: cam_reprocess_type
  online_input_stream_type :: cam_stream_type
  offline_input_type :: cam_stream_type
  offline_input_buf_planes :: cam_frame_len_offset
  reprocess_feature_mask :: "32 word"
  tp_meta_max_size :: "32 word"

record venus_macros =
  VENUS_Y_STRIDE :: "32 word \<Rightarrow> 32 word"
  VENUS_Y_SCANLINES :: "32 word \<Rightarrow> 32 word"
  VENUS_UV_STRIDE :: "32 word \<Rightarrow> 32 word"
  VENUS_UV_SCANLINES :: "32 word \<Rightarrow> 32 word"
  VENUS_BUFFER_SIZE :: "32 word \<Rightarrow> 32 word \<Rightarrow> 32 word"

record build =
  venus :: "venus_macros option"
  a_family :: bool

section \<open>Arithmetic\<close>

definition PAD_TO_SIZE :: "32 word \<Rightarrow> 32 word \<Rightarrow> 32 word" where
  "PAD_TO_SIZE sz padding = (sz + (padding - 1)) AND NOT (padding - 1)"

definition div_int :: "32 word \<Rightarrow> int \<Rightarrow> 32 word" where
  "div_int a n = word_of_int (sint a sdiv n)"

definition CAM_PAD_TO_4K :: "32 word" where "CAM_PAD_TO_4K = 4096"

definition CAM_QCOM_FEATURE_ROTATION :: "32 word" where "CAM_QCOM_FEATURE_ROTATION = 8"
definition CAM_QCOM_FEATURE_TRUEPORTRAIT :: "32 word" where
  "CAM_QCOM_FEATURE_TRUEPORTRAIT = 131072"

text \<open>A plane of \<open>len\<close> bytes without an offset, and the same plane filled in from padded lines.\<close>

definition mp_plane ::
  "32 word \<Rightarrow> 32 word \<Rightarrow> 32 word \<Rightarrow> 32 word \<Rightarrow> 32 word \<Rightarrow> cam_mp_len_offset" where
  "mp_plane len stride scanline w h =
    \<lparr>mp_len = len, mp_offset = 0, mp_offset_x = 0, mp_offset_y = 0, mp_stride = stride,
     mp_scanline = scanline, mp_width = w, mp_height = h\<rparr>"

definition set_planes :: "cam_mp_len_offset list \<Rightarrow> 32 word \<Rightarrow> cam_frame_len_offset \<Rightarrow> cam_frame_len_offset" where
  "set_planes ps len bp = bp\<lparr>num_planes := of_nat (length ps),
    mp := ps @ drop (length ps) (mp bp), frame_len := len\<rparr>"

definition sum_len :: "cam_mp_len_offset list \<Rightarrow> 32 word" where
  "sum_len ps = sum_list (map mp_len ps)"

section \<open>The layouts\<close>

text \<open>Two planes, luma and chroma of half the height, both padded by \<open>pw\<close> and \<open>ph\<close>.\<close>

definition nv_planes :: "32 word \<Rightarrow> 32 word \<Rightarrow> cam_dimension \<Rightarrow> cam_mp_len_offset list" where
  "nv_planes pw ph d =
    (let w = dim_width d; h = dim_height d; h2 = div_int h 2; stride = PAD_TO_SIZE w pw;
         sc0 = PAD_TO_SIZE h ph; sc1 = PAD_TO_SIZE h2 ph in
     [mp_plane (stride * sc0) stride sc0 w h, mp_plane (stride * sc1) stride sc1 w h2])"

definition adreno_planes :: "cam_dimension \<Rightarrow> cam_mp_len_offset list" where
  "adreno_planes d =
    (let w = dim_width d; h = dim_height d; st0 = PAD_TO_SIZE w 32; sc0 = PAD_TO_SIZE h 32;
         st1 = PAD_TO_SIZE (div_int w 2) 32 * 2; sc1 = PAD_TO_SIZE (div_int h 2) 32 in
     [mp_plane (PAD_TO_SIZE (st0 * sc0) CAM_PAD_TO_4K) st0 sc0 w h,
      mp_plane (PAD_TO_SIZE (st1 * sc1) CAM_PAD_TO_4K) st1 sc1 w (div_int h 2)])"

definition yv12_planes :: "cam_dimension \<Rightarrow> cam_mp_len_offset list" where
  "yv12_planes d =
    (let w = dim_width d; h = dim_height d; st0 = PAD_TO_SIZE w 16; sc0 = PAD_TO_SIZE h 2;
         st1 = PAD_TO_SIZE (div_int st0 2) 16; sc1 = div_int sc0 2;
         p = mp_plane (st1 * sc1) st1 sc1 (div_int w 2) (div_int h 2) in
     [mp_plane (st0 * sc0) st0 sc0 w h, p, p])"

definition nv16_planes :: "cam_dimension \<Rightarrow> cam_mp_len_offset list" where
  "nv16_planes d =
    (let w = dim_width d; h = dim_height d; stride = PAD_TO_SIZE w 16;
         p = mp_plane (stride * h) stride h w h in [p, p])"

text \<open>The layout of the video core: its macros give the length of the frame.\<close>

definition venus_frame :: "venus_macros \<Rightarrow> cam_dimension \<Rightarrow> cam_frame_len_offset \<Rightarrow> cam_frame_len_offset" where
  "venus_frame v d =
    (let w = dim_width d; h = dim_height d; st0 = VENUS_Y_STRIDE v w; sc0 = VENUS_Y_SCANLINES v h;
         len = VENUS_BUFFER_SIZE v w h in
     set_planes [mp_plane (st0 * sc0) st0 sc0 w h,
                 mp_plane (len - st0 * sc0) (VENUS_UV_STRIDE v w) (VENUS_UV_SCANLINES v h) w h] len)"

definition packed :: "cam_mp_len_offset list \<Rightarrow> cam_frame_len_offset \<Rightarrow> cam_frame_len_offset" where
  "packed ps = set_planes ps (PAD_TO_SIZE (sum_len ps) CAM_PAD_TO_4K)"

definition mm_stream_calc_offset_preview ::
  "build \<Rightarrow> cam_stream_info \<Rightarrow> cam_dimension \<Rightarrow> cam_padding_info \<Rightarrow> cam_frame_len_offset \<Rightarrow>
   int \<times> cam_frame_len_offset" where
  "mm_stream_calc_offset_preview B si d pad bp =
    (let nv = if stream_type si \<noteq> CAM_STREAM_TYPE_OFFLINE_PROC then nv_planes 32 2 d
              else nv_planes (width_padding pad) (height_padding pad) d in
     case fmt si of
       CAM_FORMAT_YUV_420_NV12 \<Rightarrow> (0, packed nv bp)
     | CAM_FORMAT_YUV_420_NV21 \<Rightarrow> (0, packed nv bp)
     | CAM_FORMAT_YUV_420_NV21_ADRENO \<Rightarrow> (0, packed (adreno_planes d) bp)
     | CAM_FORMAT_YUV_420_YV12 \<Rightarrow> (0, packed (yv12_planes d) bp)
     | CAM_FORMAT_YUV_422_NV16 \<Rightarrow> (0, packed (nv16_planes d) bp)
     | CAM_FORMAT_YUV_422_NV61 \<Rightarrow> (0, packed (nv16_planes d) bp)
     | CAM_FORMAT_YUV_420_NV12_VENUS \<Rightarrow>
         (case venus B of Some v \<Rightarrow> (0, venus_frame v d bp) | None \<Rightarrow> (-1, bp))
     | _ \<Rightarrow> (-1, bp))"

definition mm_stream_calc_offset_post_view ::
  "build \<Rightarrow> cam_format \<Rightarrow> cam_dimension \<Rightarrow> cam_frame_len_offset \<Rightarrow> int \<times> cam_frame_len_offset" where
  "mm_stream_calc_offset_post_view B f d bp =
    (case f of
       CAM_FORMAT_YUV_420_NV12 \<Rightarrow> (0, packed (nv_planes 64 64 d) bp)
     | CAM_FORMAT_YUV_420_NV21 \<Rightarrow> (0, packed (nv_planes 64 64 d) bp)
     | CAM_FORMAT_YUV_420_NV21_ADRENO \<Rightarrow> (0, packed (adreno_planes d) bp)
     | CAM_FORMAT_YUV_420_YV12 \<Rightarrow> (0, packed (yv12_planes d) bp)
     | CAM_FORMAT_YUV_422_NV16 \<Rightarrow> (0, packed (nv16_planes d) bp)
     | CAM_FORMAT_YUV_422_NV61 \<Rightarrow> (0, packed (nv16_planes d) bp)
     | CAM_FORMAT_YUV_420_NV12_VENUS \<Rightarrow>
         (case venus B of Some v \<Rightarrow> (0, venus_frame v d bp) | None \<Rightarrow> (-1, bp))
     | _ \<Rightarrow> (-1, bp))"

text \<open>Planes of a snapshot keep the offset of their first pixel, which only the A family pads.\<close>

definition snap_plane ::
  "cam_padding_info \<Rightarrow> 32 word \<Rightarrow> 32 word \<Rightarrow> 32 word \<Rightarrow> 32 word \<Rightarrow> 32 word \<Rightarrow> 32 word \<Rightarrow>
   cam_mp_len_offset" where
  "snap_plane pad ox oy stride scanline w h =
    \<lparr>mp_len = PAD_TO_SIZE (stride * scanline) (plane_padding pad),
     mp_offset = PAD_TO_SIZE (ox + stride * oy) (plane_padding pad),
     mp_offset_x = ox, mp_offset_y = oy, mp_stride = stride, mp_scanline = scanline,
     mp_width = w, mp_height = h\<rparr>"

text \<open>Stride, scanline and vertical offset of the luma plane.\<close>

definition snap_lines :: "build \<Rightarrow> cam_dimension \<Rightarrow> cam_padding_info \<Rightarrow> 32 word \<times> 32 word \<times> 32 word" where
  "snap_lines B d pad =
    (if a_family B then
       let sc = PAD_TO_SIZE (dim_height d) 16; oy = sc - dim_height d in (dim_width d, sc + oy, oy)
     else
       (PAD_TO_SIZE (dim_width d) (width_padding pad), PAD_TO_SIZE (dim_height d) (height_padding pad), 0))"

definition mm_stream_calc_offset_snapshot ::
  "build \<Rightarrow> cam_stream_info \<Rightarrow> cam_dimension \<Rightarrow> cam_padding_info \<Rightarrow> cam_frame_len_offset \<Rightarrow>
   int \<times> cam_frame_len_offset" where
  "mm_stream_calc_offset_snapshot B si d pad bp =
    (let (stride, sc, oy) = snap_lines B d pad; w = dim_width d; h = dim_height d;
         w2 = div_int w 2; h2 = div_int h 2;
         luma = snap_plane pad 0 oy stride sc w h;
         nv = [luma, snap_plane pad 0 oy stride (div_int sc 2) w h2];
         c = snap_plane pad 0 oy (PAD_TO_SIZE (div_int stride 2) 16) (div_int sc 2) w2 h2;
         nv_frame = (if reprocess_feature_mask si AND CAM_QCOM_FEATURE_TRUEPORTRAIT \<noteq> 0
           then set_planes nv (PAD_TO_SIZE (sum_len nv + tp_meta_max_size si) CAM_PAD_TO_4K) bp
           else packed nv bp) in
     case fmt si of
       CAM_FORMAT_YUV_420_NV12 \<Rightarrow> (0, nv_frame)
     | CAM_FORMAT_YUV_420_NV21 \<Rightarrow> (0, nv_frame)
     | CAM_FORMAT_YUV_420_YV12 \<Rightarrow> (0, packed [luma, c, c] bp)
     | CAM_FORMAT_YUV_422_NV16 \<Rightarrow> (0, packed [luma, luma] bp)
     | CAM_FORMAT_YUV_422_NV61 \<Rightarrow> (0, packed [luma, luma] bp)
     | _ \<Rightarrow> (-1, bp))"

text \<open>A raw frame is one plane of \<open>len\<close> bytes, whose width is its length.\<close>

definition raw_frame ::
  "32 word \<Rightarrow> 32 word \<Rightarrow> 32 word \<Rightarrow> cam_padding_info \<Rightarrow> cam_frame_len_offset \<Rightarrow> cam_frame_len_offset" where
  "raw_frame stride scanline len pad =
    (let l = PAD_TO_SIZE len (plane_padding pad) in
     set_planes [mp_plane l stride scanline l 1] (PAD_TO_SIZE l CAM_PAD_TO_4K))"

definition raw_layout :: "cam_format \<Rightarrow> 32 word \<Rightarrow> 32 word \<Rightarrow> (32 word \<times> 32 word) option" where
  "raw_layout f w h =
    (let lines16 = PAD_TO_SIZE w 16; lines12 = div_int (w + 11) 12 * 12; lines10 = div_int (w + 9) 10 * 10;
         mipi10 = PAD_TO_SIZE (div_int (w * 5) 4) 8; lines32 = PAD_TO_SIZE w 32; lines8 = PAD_TO_SIZE w 8;
         yuv = Some (lines16, lines16 * h * 2) in
     case f of
       CAM_FORMAT_YUV_RAW_8BIT_YUYV \<Rightarrow> yuv
     | CAM_FORMAT_YUV_RAW_8BIT_YVYU \<Rightarrow> yuv
     | CAM_FORMAT_YUV_RAW_8BIT_UYVY \<Rightarrow> yuv
     | CAM_FORMAT_YUV_RAW_8BIT_VYUY \<Rightarrow> yuv
     | CAM_FORMAT_JPEG_RAW_8BIT \<Rightarrow> yuv
     | CAM_FORMAT_META_RAW_8BIT \<Rightarrow> yuv
     | CAM_FORMAT_BAYER p b _ \<Rightarrow>
         (case (p, b) of
            (IDEAL_RAW_PLAIN8, BPP_8) \<Rightarrow> Some (lines16, lines16 * h)
          | (IDEAL_RAW_PLAIN8, _) \<Rightarrow> None
          | (_, BPP_14) \<Rightarrow> None
          | (IDEAL_RAW_PLAIN16, _) \<Rightarrow> Some (lines8, lines8 * h * 2)
          | (_, BPP_8) \<Rightarrow> Some (lines16, lines16 * h)
          | (QCOM_RAW, BPP_10) \<Rightarrow> Some (lines12, div_int (lines12 * h * 8) 6)
          | (IDEAL_RAW_QCOM, BPP_10) \<Rightarrow> Some (lines12, div_int (lines12 * h * 8) 6)
          | (QCOM_RAW, BPP_12) \<Rightarrow> Some (lines10, div_int (lines10 * h * 8) 5)
          | (IDEAL_RAW_QCOM, BPP_12) \<Rightarrow> Some (lines10, div_int (lines10 * h * 8) 5)
          | (_, BPP_10) \<Rightarrow> Some (mipi10, mipi10 * h)
          | (_, BPP_12) \<Rightarrow> Some (lines32, div_int (lines32 * h * 3) 2))
     | _ \<Rightarrow> None)"

definition mm_stream_calc_offset_raw ::
  "cam_format \<Rightarrow> cam_dimension \<Rightarrow> cam_padding_info \<Rightarrow> cam_frame_len_offset \<Rightarrow> int \<times> cam_frame_len_offset" where
  "mm_stream_calc_offset_raw f d pad bp =
    (case raw_layout f (dim_width d) (dim_height d) of
       Some (stride, len) \<Rightarrow> (0, raw_frame stride (dim_height d) len pad bp)
     | None \<Rightarrow> (-1, bp))"

text \<open>Without the Venus macros the width and height of the chroma plane are written into the luma
  plane, and the chroma plane keeps the ones it had.\<close>

definition mm_stream_calc_offset_video ::
  "build \<Rightarrow> cam_dimension \<Rightarrow> cam_frame_len_offset \<Rightarrow> int \<times> cam_frame_len_offset" where
  "mm_stream_calc_offset_video B d bp =
    (case venus B of
       Some v \<Rightarrow> (0, venus_frame v d bp)
     | None \<Rightarrow>
         let w = dim_width d; h = dim_height d; h2 = div_int h 2;
             p0 = mp_plane (PAD_TO_SIZE (w * h) 2048) w h w h2;
             p1 = mp_plane (PAD_TO_SIZE (w * h2) 2048) w h2 (mp_width (mp bp ! 1)) (mp_height (mp bp ! 1)) in
         (0, packed [p0, p1] bp))"

definition mm_stream_calc_offset_metadata ::
  "cam_dimension \<Rightarrow> cam_padding_info \<Rightarrow> cam_frame_len_offset \<Rightarrow> int \<times> cam_frame_len_offset" where
  "mm_stream_calc_offset_metadata d pad bp =
    (let w = dim_width d; h = dim_height d; len = PAD_TO_SIZE (w * h) (plane_padding pad) in
     (0, set_planes [mp_plane len w h w h] len bp))"

definition mm_stream_calc_offset_postproc ::
  "build \<Rightarrow> cam_stream_info \<Rightarrow> cam_padding_info \<Rightarrow> cam_frame_len_offset \<Rightarrow> int \<times> cam_frame_len_offset" where
  "mm_stream_calc_offset_postproc B si pad plns =
    (let offline = (pp_type si = CAM_OFFLINE_REPROCESS_TYPE);
         type = (if offline then offline_input_type si else online_input_stream_type si) in
     if offline \<and> type = CAM_STREAM_TYPE_DEFAULT then
       (0, if frame_len plns = 0 then offline_input_buf_planes si else plns)
     else case type of
       CAM_STREAM_TYPE_PREVIEW \<Rightarrow> mm_stream_calc_offset_preview B si (dim si) pad plns
     | CAM_STREAM_TYPE_POSTVIEW \<Rightarrow> mm_stream_calc_offset_post_view B (fmt si) (dim si) plns
     | CAM_STREAM_TYPE_SNAPSHOT \<Rightarrow> mm_stream_calc_offset_snapshot B si (dim si) pad plns
     | CAM_STREAM_TYPE_VIDEO \<Rightarrow> mm_stream_calc_offset_video B (dim si) plns
     | CAM_STREAM_TYPE_RAW \<Rightarrow> mm_stream_calc_offset_raw (fmt si) (dim si) pad plns
     | CAM_STREAM_TYPE_METADATA \<Rightarrow> mm_stream_calc_offset_metadata (dim si) pad plns
     | _ \<Rightarrow> (-1, plns))"

definition rotated_dim :: "cam_stream_info \<Rightarrow> cam_dimension" where
  "rotated_dim si =
    (if pp_feature_mask si AND CAM_QCOM_FEATURE_ROTATION \<noteq> 0 \<and> stream_type si \<noteq> CAM_STREAM_TYPE_VIDEO
        \<and> (pp_rotation si = ROTATE_90 \<or> pp_rotation si = ROTATE_270)
     then \<lparr>dim_width = dim_height (dim si), dim_height = dim_width (dim si)\<rparr> else dim si)"

text \<open>The result code and the layout; the stream information keeps it, and the stream copies it into
  its \<open>frame_offset\<close> whatever the result.\<close>

definition layout_of :: "build \<Rightarrow> cam_padding_info \<Rightarrow> cam_stream_info \<Rightarrow> int \<times> cam_frame_len_offset" where
  "layout_of B pad si =
    (let d = rotated_dim si; bp = buf_planes si in
     case stream_type si of
       CAM_STREAM_TYPE_PREVIEW \<Rightarrow> mm_stream_calc_offset_preview B si d pad bp
     | CAM_STREAM_TYPE_POSTVIEW \<Rightarrow> mm_stream_calc_offset_post_view B (fmt si) d bp
     | CAM_STREAM_TYPE_SNAPSHOT \<Rightarrow> mm_stream_calc_offset_snapshot B si d pad bp
     | CAM_STREAM_TYPE_OFFLINE_PROC \<Rightarrow> mm_stream_calc_offset_postproc B si pad bp
     | CAM_STREAM_TYPE_VIDEO \<Rightarrow> mm_stream_calc_offset_video B d bp
     | CAM_STREAM_TYPE_RAW \<Rightarrow> mm_stream_calc_offset_raw (fmt si) d pad bp
     | CAM_STREAM_TYPE_METADATA \<Rightarrow> mm_stream_calc_offset_metadata d pad bp
     | _ \<Rightarrow> (-1, bp))"

definition mm_stream_calc_offset :: "build \<Rightarrow> cam_padding_info \<Rightarrow> cam_stream_info \<Rightarrow> int \<times> cam_stream_info" where
  "mm_stream_calc_offset B pad si =
    (case layout_of B pad si of (rc, bp) \<Rightarrow> (rc, si\<lparr>buf_planes := bp\<rparr>))"

end
