(* ===== verification/MmOffsetProps.thy ===== *)
theory MmOffsetProps
  imports MmOffset
begin

text \<open>
  What the layouts of \<^verbatim>\<open>MmOffset\<close> promise to the code that allocates and maps the frames: each plane
  is long enough for its lines, the planes fit into the frame one after the other, the frame is a
  whole number of pages, and the luma lines hold the picture. The sizes are those of a sensor: up
  to 8192 pixels a side, and paddings that are powers of two up to a page, so that no product
  overflows 32 bits.
\<close>

unbundle bit_operations_syntax

section \<open>Padding and products without overflow\<close>

definition pad_ok :: "32 word \<Rightarrow> bool" where
  "pad_ok p \<longleftrightarrow> (\<exists>k \<le> 12. p = 2 ^ k)"

lemma pad_ok_numeral [simp]:
  "pad_ok 1" "pad_ok 2" "pad_ok 8" "pad_ok 16" "pad_ok 32" "pad_ok 64" "pad_ok 2048" "pad_ok 4096"
proof -
  have "pad_ok (2 ^ k)" if "k \<le> 12" for k
    using that unfolding pad_ok_def by blast
  from this [of 0] this [of 1] this [of 3] this [of 4] this [of 5] this [of 6] this [of 11] this [of 12]
  show "pad_ok 1" "pad_ok 2" "pad_ok 8" "pad_ok 16" "pad_ok 32" "pad_ok 64" "pad_ok 2048" "pad_ok 4096"
    by simp_all
qed

lemma and_not_word: "(x :: 32 word) AND NOT m = x - (x AND m)"
proof -
  have "(x AND m) AND (x AND NOT m) = 0" "(x AND m) OR (x AND NOT m) = x"
    by (auto simp: bit_eq_iff bit_simps)
  then show ?thesis
    using word_plus_and_or [of "x AND m" "x AND NOT m"] by (simp add: algebra_simps)
qed

lemma unat_of_small: "m < 2 ^ 32 \<Longrightarrow> unat (of_nat m :: 32 word) = m"
  by (simp add: unat_of_nat)

text \<open>Padding rounds up to a multiple of the padding.\<close>

lemma pad_mod:
  assumes "pad_ok p"
  obtains k where "k \<le> 12" "unat p = 2 ^ k"
    "\<And>s. PAD_TO_SIZE s p = (s + (p - 1)) - (s + (p - 1)) mod p"
proof -
  obtain k where k: "k \<le> 12" "p = 2 ^ k"
    using assms by (auto simp: pad_ok_def)
  have m: "p - 1 = mask k"
    by (simp add: k mask_eq_decr_exp)
  have "PAD_TO_SIZE s p = (s + (p - 1)) - (s + (p - 1)) mod p" for s
  proof -
    let ?x = "s + (p - 1)"
    have "PAD_TO_SIZE s p = ?x - (?x AND mask k)"
      by (simp add: PAD_TO_SIZE_def m and_not_word)
    also have "?x AND mask k = ?x mod p"
      using k by (simp add: take_bit_eq_mask [symmetric] take_bit_eq_mod)
    finally show ?thesis .
  qed
  moreover have "unat p = 2 ^ k"
  proof -
    have "p = of_nat (2 ^ k)" by (simp add: k)
    moreover have "(2 :: nat) ^ k < 2 ^ 32"
      using k by (intro power_strict_increasing) simp_all
    ultimately show ?thesis by (metis unat_of_small)
  qed
  ultimately show ?thesis
    using that k(1) by blast
qed

lemma unat_pad:
  assumes p: "pad_ok p" and fits: "unat s + unat p \<le> 2 ^ 32"
  shows "unat s \<le> unat (PAD_TO_SIZE s p)" "unat (PAD_TO_SIZE s p) < unat s + unat p"
    "unat p dvd unat (PAD_TO_SIZE s p)"
proof -
  obtain k where k: "k \<le> 12" "unat p = 2 ^ k" and *: "PAD_TO_SIZE s p = (s + (p - 1)) - (s + (p - 1)) mod p"
    using pad_mod [OF p] by metis
  have p0: "0 < unat p" by (simp add: k)
  then have p1: "unat (p - 1) = unat p - 1"
    by (metis One_nat_def Suc_pred' unat_minus_one unat_gt_0 diff_Suc_1)
  have x: "unat (s + (p - 1)) = unat s + (unat p - 1)"
    using fits p0 by (subst unat_add_lem [THEN iffD1]) (simp_all add: p1)
  have "unat (PAD_TO_SIZE s p) = unat (s + (p - 1)) - unat (s + (p - 1)) mod unat p"
    unfolding * by (subst unat_sub) (simp_all add: unat_mod word_le_nat_alt)
  also have "\<dots> = (unat s + (unat p - 1)) div unat p * unat p"
    by (simp add: x minus_mod_eq_div_mult)
  finally have eq: "unat (PAD_TO_SIZE s p) = (unat s + (unat p - 1)) div unat p * unat p" .
  have "(unat s + (unat p - 1)) mod unat p < unat p" by (simp add: p0)
  then show "unat s \<le> unat (PAD_TO_SIZE s p)" "unat (PAD_TO_SIZE s p) < unat s + unat p"
    using div_mult_mod_eq [of "unat s + (unat p - 1)" "unat p"] p0 unfolding eq by linarith+
  show "unat p dvd unat (PAD_TO_SIZE s p)" unfolding eq by simp
qed

lemma sdiv_int_nat: "0 < n \<Longrightarrow> int m sdiv int n = int (m div n)"
  by (cases "m = 0") (simp_all add: signed_divide_int_def zdiv_int)

lemma unat_div_int:
  assumes "unat a < 2 ^ 31" "0 < n" "n < 2 ^ 31"
  shows "unat (div_int a (int n)) = unat a div n"
proof -
  have u: "uint a = int (unat a)" by simp
  have "sint a = int (unat a)"
  proof -
    have "uint a < 2 ^ 31"
      unfolding u using assms(1) by (metis of_nat_less_iff of_nat_numeral of_nat_power)
    moreover have "0 \<le> uint a" by simp
    ultimately have "- (2 ^ 31) \<le> uint a" "uint a < 2 ^ 31" by linarith+
    then show ?thesis by (simp add: sint_uint signed_take_bit_int_eq_self)
  qed
  then have "div_int a (int n) = of_nat (unat a div n)"
    unfolding div_int_def by (simp only: sdiv_int_nat [OF assms(2)] of_int_of_nat_eq)
  moreover have "unat a div n < 2 ^ 32"
    by (rule less_trans [OF le_less_trans [OF div_le_dividend assms(1)]]) simp
  ultimately show ?thesis
    by (simp only: unat_of_small)
qed

lemma unat_times: "unat a * unat b < 2 ^ 32 \<Longrightarrow> unat (a * b :: 32 word) = unat a * unat b"
  using unat_mult_lem [of a b] by simp

lemma unat_plus: "unat a + unat b < 2 ^ 32 \<Longrightarrow> unat (a + b :: 32 word) = unat a + unat b"
  using unat_add_lem [of a b] by simp

section \<open>Frames that hold their planes\<close>

definition plane_fits :: "cam_mp_len_offset \<Rightarrow> bool" where
  "plane_fits p \<longleftrightarrow> unat (mp_stride p) * unat (mp_scanline p) \<le> unat (mp_len p)"

definition used_planes :: "cam_frame_len_offset \<Rightarrow> cam_mp_len_offset list" where
  "used_planes bp = take (unat (num_planes bp)) (mp bp)"

definition frame_fits :: "cam_frame_len_offset \<Rightarrow> bool" where
  "frame_fits bp \<longleftrightarrow> used_planes bp \<noteq> [] \<and> list_all plane_fits (used_planes bp) \<and>
    sum_list (map (unat \<circ> mp_len) (used_planes bp)) \<le> unat (frame_len bp)"

definition luma_fits :: "cam_dimension \<Rightarrow> cam_frame_len_offset \<Rightarrow> bool" where
  "luma_fits d bp \<longleftrightarrow> dim_width d \<le> mp_stride (mp bp ! 0) \<and> dim_height d \<le> mp_scanline (mp bp ! 0)"

lemma used_set_planes [simp]:
  "length ps < 2 ^ 32 \<Longrightarrow> used_planes (set_planes ps len bp) = ps"
  by (simp add: used_planes_def set_planes_def unat_of_nat)

lemma frame_len_set_planes [simp]: "frame_len (set_planes ps len bp) = len"
  by (simp add: set_planes_def)

lemma mp_set_planes [simp]: "i < length ps \<Longrightarrow> mp (set_planes ps len bp) ! i = ps ! i"
  by (simp add: set_planes_def nth_append)

lemma unat_sum_len:
  "sum_list (map (unat \<circ> mp_len) ps) < 2 ^ 32 \<Longrightarrow> unat (sum_len ps) = sum_list (map (unat \<circ> mp_len) ps)"
  by (induction ps) (simp_all add: sum_len_def unat_plus)

lemma set_planes_fits:
  assumes "ps \<noteq> []" "length ps < 2 ^ 32" "list_all plane_fits ps"
    and "sum_list (map (unat \<circ> mp_len) ps) \<le> unat len"
  shows "frame_fits (set_planes ps len bp)"
  using assms by (simp add: frame_fits_def)

lemma packed_fits:
  assumes "ps \<noteq> []" "length ps \<le> 3" "list_all plane_fits ps"
    and sum: "sum_list (map (unat \<circ> mp_len) ps) < 2 ^ 31"
  shows "frame_fits (packed ps bp)" "4096 dvd unat (frame_len (packed ps bp))"
proof -
  have "unat (sum_len ps) = sum_list (map (unat \<circ> mp_len) ps)"
    using sum by (intro unat_sum_len) simp
  then show "frame_fits (packed ps bp)" "4096 dvd unat (frame_len (packed ps bp))"
    using unat_pad [of 4096 "sum_len ps"] sum assms(1-3)
    by (auto simp: packed_def CAM_PAD_TO_4K_def intro!: set_planes_fits)
qed

section \<open>Sizes of a sensor\<close>

definition dim_ok :: "cam_dimension \<Rightarrow> bool" where
  "dim_ok d \<longleftrightarrow> 0 < dim_width d \<and> dim_width d \<le> 8192 \<and> 0 < dim_height d \<and> dim_height d \<le> 8192"

definition padding_ok :: "cam_padding_info \<Rightarrow> bool" where
  "padding_ok pad \<longleftrightarrow> pad_ok (width_padding pad) \<and> pad_ok (height_padding pad) \<and> pad_ok (plane_padding pad)"

lemma dim_okD:
  assumes "dim_ok d"
  shows "0 < unat (dim_width d)" "unat (dim_width d) \<le> 8192"
    "0 < unat (dim_height d)" "unat (dim_height d) \<le> 8192"
  using assms by (simp_all add: dim_ok_def word_le_nat_alt word_less_nat_alt)

lemma pad_ok_le:
  assumes "pad_ok p"
  shows "unat p \<le> 4096"
proof -
  obtain k where "k \<le> 12" "unat p = 2 ^ k" using assms by (rule pad_mod)
  then show ?thesis using power_increasing [of k 12 "2 :: nat"] by simp
qed

text \<open>Products of padded sides stay far below the limit.\<close>

lemma pad_small:
  assumes "pad_ok p" "unat s \<le> 12288"
  shows "unat s \<le> unat (PAD_TO_SIZE s p)" "unat (PAD_TO_SIZE s p) < unat s + unat p"
    "unat p dvd unat (PAD_TO_SIZE s p)"
  using unat_pad [of p s] pad_ok_le [of p] assms by simp_all

lemma area:
  assumes "unat a \<le> 16384" "unat b \<le> 16384"
  shows "unat (a * b :: 32 word) = unat a * unat b" "unat a * unat b \<le> 2 ^ 28"
proof -
  have le: "unat a * unat b \<le> 16384 * 16384" using assms by (rule mult_le_mono)
  then show "unat a * unat b \<le> 2 ^ 28" by simp
  show "unat (a * b) = unat a * unat b" by (rule unat_times) (rule le_less_trans [OF le], simp)
qed

lemma mp_plane_simps [simp]:
  "mp_len (mp_plane len st sc w h) = len" "mp_stride (mp_plane len st sc w h) = st"
  "mp_scanline (mp_plane len st sc w h) = sc" "mp_width (mp_plane len st sc w h) = w"
  "mp_height (mp_plane len st sc w h) = h"
  by (simp_all add: mp_plane_def)

definition plane_bounded :: "cam_mp_len_offset \<Rightarrow> bool" where
  "plane_bounded p \<longleftrightarrow> plane_fits p \<and> unat (mp_len p) \<le> 2 ^ 28 + 4096"

lemma exact_plane:
  assumes "unat st \<le> 16384" "unat sc \<le> 16384"
  shows "plane_bounded (mp_plane (st * sc) st sc w h)"
  using area [OF assms] by (simp add: plane_bounded_def plane_fits_def)

lemma padded_plane:
  assumes "unat st \<le> 16384" "unat sc \<le> 16384" "pad_ok p"
  shows "plane_bounded (mp_plane (PAD_TO_SIZE (st * sc) p) st sc w h)"
  using area [OF assms(1,2)] unat_pad [OF assms(3), of "st * sc"] pad_ok_le [OF assms(3)]
  by (simp add: plane_bounded_def plane_fits_def)

lemma bounded_packed:
  assumes "ps \<noteq> []" "length ps \<le> 3" "list_all plane_bounded ps"
  shows "frame_fits (packed ps bp)" "4096 dvd unat (frame_len (packed ps bp))"
proof -
  have "sum_list (map (unat \<circ> mp_len) ps) \<le> length ps * (2 ^ 28 + 4096)"
    using assms(3) by (induction ps) (simp_all add: plane_bounded_def)
  also have "\<dots> \<le> 3 * (2 ^ 28 + 4096)"
    using assms(2) by (intro mult_le_mono) simp_all
  finally have sum: "sum_list (map (unat \<circ> mp_len) ps) < 2 ^ 31" by simp
  have "list_all plane_fits ps"
    using assms(3) by (simp add: list_all_iff plane_bounded_def)
  then show "frame_fits (packed ps bp)" "4096 dvd unat (frame_len (packed ps bp))"
    using packed_fits [OF assms(1,2) _ sum] by blast+
qed

lemma unat_half: "unat a < 2 ^ 31 \<Longrightarrow> unat (div_int a 2) = unat a div 2"
  using unat_div_int [of a 2] by simp

lemma pad_le_16384:
  assumes "pad_ok p" "unat s \<le> 12288"
  shows "unat (PAD_TO_SIZE s p) \<le> 16384"
  using pad_small [OF assms] pad_ok_le [OF assms(1)] assms(2) by linarith

lemma half_le: "unat a \<le> n \<Longrightarrow> n < 2 ^ 31 \<Longrightarrow> unat (div_int a 2) \<le> n"
  by (subst unat_half) linarith+

lemma nv_planes_bounded:
  assumes "dim_ok d" "pad_ok pw" "pad_ok ph"
  shows "list_all plane_bounded (nv_planes pw ph d)"
proof -
  note d = dim_okD [OF assms(1)]
  have "unat (PAD_TO_SIZE (dim_width d) pw) \<le> 16384" "unat (PAD_TO_SIZE (dim_height d) ph) \<le> 16384"
    "unat (PAD_TO_SIZE (div_int (dim_height d) 2) ph) \<le> 16384"
    using d half_le [OF d(4)] by (intro pad_le_16384 assms; simp)+
  then show ?thesis
    by (simp add: nv_planes_def Let_def exact_plane)
qed

lemma nv16_planes_bounded:
  assumes "dim_ok d"
  shows "list_all plane_bounded (nv16_planes d)"
proof -
  note d = dim_okD [OF assms]
  have "unat (PAD_TO_SIZE (dim_width d) 16) \<le> 16384" "unat (dim_height d) \<le> 16384"
    using d by (simp_all add: pad_le_16384)
  then show ?thesis
    by (simp add: nv16_planes_def Let_def exact_plane)
qed

lemma yv12_planes_bounded:
  assumes "dim_ok d"
  shows "list_all plane_bounded (yv12_planes d)"
proof -
  note d = dim_okD [OF assms]
  let ?st = "PAD_TO_SIZE (dim_width d) 16" and ?sc = "PAD_TO_SIZE (dim_height d) 2"
  have st: "unat ?st \<le> 8208"
    using pad_small [of 16 "dim_width d"] d by simp
  have sc: "unat ?sc \<le> 8194"
    using pad_small [of 2 "dim_height d"] d by simp
  have "unat (PAD_TO_SIZE (div_int ?st 2) 16) \<le> 16384"
    using half_le [OF st] by (intro pad_le_16384) simp_all
  moreover have "unat (div_int ?sc 2) \<le> 16384"
    using half_le [OF sc] by simp
  ultimately show ?thesis
    using st sc by (simp add: yv12_planes_def Let_def exact_plane)
qed

lemma adreno_planes_bounded:
  assumes "dim_ok d"
  shows "list_all plane_bounded (adreno_planes d)"
proof -
  note d = dim_okD [OF assms]
  let ?w2 = "div_int (dim_width d) 2" and ?h2 = "div_int (dim_height d) 2"
  have w2: "unat ?w2 \<le> 4096" and h2: "unat ?h2 \<le> 4096"
    using d by (simp_all add: unat_half)
  have "unat (PAD_TO_SIZE ?w2 32) < 4096 + 32"
    using pad_small [of 32 ?w2] w2 by simp
  then have "unat (PAD_TO_SIZE ?w2 32 * 2) \<le> 16384"
    by (subst unat_times) simp_all
  moreover have "unat (PAD_TO_SIZE (dim_width d) 32) \<le> 16384" "unat (PAD_TO_SIZE (dim_height d) 32) \<le> 16384"
    "unat (PAD_TO_SIZE ?h2 32) \<le> 16384"
    using d h2 by (simp_all add: pad_le_16384)
  ultimately show ?thesis
    by (simp add: adreno_planes_def Let_def padded_plane CAM_PAD_TO_4K_def)
qed

section \<open>Snapshots\<close>

lemma snap_plane_simps [simp]:
  "mp_len (snap_plane pad ox oy st sc w h) = PAD_TO_SIZE (st * sc) (plane_padding pad)"
  "mp_stride (snap_plane pad ox oy st sc w h) = st" "mp_scanline (snap_plane pad ox oy st sc w h) = sc"
  by (simp_all add: snap_plane_def)

lemma snap_plane_bounded:
  assumes "pad_ok (plane_padding pad)" "unat st \<le> 16384" "unat sc \<le> 16384"
  shows "plane_bounded (snap_plane pad ox oy st sc w h)"
  using padded_plane [OF assms(2,3,1)] by (simp add: plane_bounded_def plane_fits_def)

lemma snap_lines:
  assumes "dim_ok d" "padding_ok pad" "snap_lines B d pad = (st, sc, oy)"
  shows "dim_width d \<le> st" "unat st \<le> 12288" "dim_height d \<le> sc" "unat sc \<le> 12288"
proof -
  note d = dim_okD [OF assms(1)]
  have "dim_width d \<le> st \<and> unat st \<le> 12288 \<and> dim_height d \<le> sc \<and> unat sc \<le> 12288"
  proof (cases "a_family B")
    case True
    let ?s = "PAD_TO_SIZE (dim_height d) 16"
    have s: "unat (dim_height d) \<le> unat ?s" "unat ?s < unat (dim_height d) + 16"
      using pad_small [of 16 "dim_height d"] d by simp_all
    then have oy: "unat (?s - dim_height d) = unat ?s - unat (dim_height d)"
      by (simp add: unat_sub word_le_nat_alt)
    have "unat (?s + (?s - dim_height d)) = unat ?s + (unat ?s - unat (dim_height d))"
      using s d unfolding oy [symmetric] by (intro unat_plus) (simp add: oy)
    then show ?thesis
      using True assms(3) s d by (auto simp: snap_lines_def Let_def word_le_nat_alt)
  next
    case False
    then show ?thesis
      using assms(2,3) d pad_small [of "width_padding pad" "dim_width d"]
        pad_small [of "height_padding pad" "dim_height d"] pad_ok_le [of "width_padding pad"]
        pad_ok_le [of "height_padding pad"]
      by (auto simp: snap_lines_def padding_ok_def word_le_nat_alt)
  qed
  then show "dim_width d \<le> st" "unat st \<le> 12288" "dim_height d \<le> sc" "unat sc \<le> 12288"
    by blast+
qed

lemma extra_fits:
  assumes "ps \<noteq> []" "length ps \<le> 3" "list_all plane_bounded ps" "unat m \<le> 2 ^ 28"
  shows "frame_fits (set_planes ps (PAD_TO_SIZE (sum_len ps + m) CAM_PAD_TO_4K) bp)"
    "4096 dvd unat (PAD_TO_SIZE (sum_len ps + m) CAM_PAD_TO_4K)"
proof -
  have fits: "list_all plane_fits ps"
    using assms(3) by (simp add: list_all_iff plane_bounded_def)
  have "sum_list (map (unat \<circ> mp_len) ps) \<le> length ps * (2 ^ 28 + 4096)"
    using assms(3) by (induction ps) (simp_all add: plane_bounded_def)
  also have "\<dots> \<le> 3 * (2 ^ 28 + 4096)"
    using assms(2) by (intro mult_le_mono) simp_all
  finally have sum: "sum_list (map (unat \<circ> mp_len) ps) + unat m \<le> 2 ^ 31"
    using assms(4) by simp
  then have eq: "unat (sum_len ps) = sum_list (map (unat \<circ> mp_len) ps)"
    by (intro unat_sum_len) simp
  have "unat (sum_len ps + m) = sum_list (map (unat \<circ> mp_len) ps) + unat m"
    unfolding eq [symmetric] using sum by (intro unat_plus) (simp add: eq)
  then show "frame_fits (set_planes ps (PAD_TO_SIZE (sum_len ps + m) CAM_PAD_TO_4K) bp)"
    "4096 dvd unat (PAD_TO_SIZE (sum_len ps + m) CAM_PAD_TO_4K)"
    using unat_pad [of 4096 "sum_len ps + m"] sum assms(1,2) fits
    by (auto simp: CAM_PAD_TO_4K_def intro!: set_planes_fits)
qed

section \<open>The layout of each kind of stream\<close>

text \<open>What is shown of each: the frame holds its planes, whole pages, and the luma lines.\<close>

definition layout_ok :: "cam_dimension \<Rightarrow> cam_frame_len_offset \<Rightarrow> bool" where
  "layout_ok d bp \<longleftrightarrow> frame_fits bp \<and> luma_fits d bp \<and> 4096 dvd unat (frame_len bp)"

text \<open>What the kernel header promises of the layout of the video core.\<close>

definition venus_ok :: "venus_macros \<Rightarrow> bool" where
  "venus_ok v \<longleftrightarrow> (\<forall>d. dim_ok d \<longrightarrow>
    (let w = dim_width d; h = dim_height d in
     w \<le> VENUS_Y_STRIDE v w \<and> VENUS_Y_STRIDE v w \<le> 16384 \<and> h \<le> VENUS_Y_SCANLINES v h \<and>
     VENUS_Y_SCANLINES v h \<le> 16384 \<and> 4096 dvd unat (VENUS_BUFFER_SIZE v w h) \<and>
     unat (VENUS_Y_STRIDE v w) * unat (VENUS_Y_SCANLINES v h) +
     unat (VENUS_UV_STRIDE v w) * unat (VENUS_UV_SCANLINES v h) \<le> unat (VENUS_BUFFER_SIZE v w h)))"

lemma venus_frame_ok:
  assumes "venus_ok v" "dim_ok d"
  shows "layout_ok d (venus_frame v d bp)"
proof -
  let ?w = "dim_width d" and ?h = "dim_height d"
  let ?st = "VENUS_Y_STRIDE v ?w" and ?sc = "VENUS_Y_SCANLINES v ?h" and ?len = "VENUS_BUFFER_SIZE v ?w ?h"
  have v: "?w \<le> ?st" "unat ?st \<le> 16384" "?h \<le> ?sc" "unat ?sc \<le> 16384" "4096 dvd unat ?len"
    "unat ?st * unat ?sc + unat (VENUS_UV_STRIDE v ?w) * unat (VENUS_UV_SCANLINES v ?h) \<le> unat ?len"
    using assms by (simp_all add: venus_ok_def Let_def word_le_nat_alt)
  note a = area [OF v(2,4)]
  have "unat (?len - ?st * ?sc) = unat ?len - unat ?st * unat ?sc"
    using v(6) by (simp add: unat_sub word_le_nat_alt a)
  then show ?thesis
    using v a by (auto simp: layout_ok_def luma_fits_def venus_frame_def Let_def plane_fits_def
        intro!: set_planes_fits)
qed

lemma packed_ok:
  assumes "ps \<noteq> []" "length ps \<le> 3" "list_all plane_bounded ps"
    and "dim_width d \<le> mp_stride (hd ps)" "dim_height d \<le> mp_scanline (hd ps)"
  shows "layout_ok d (packed ps bp)"
proof -
  have "mp (packed ps bp) ! 0 = hd ps"
    using assms(1) by (simp add: packed_def hd_conv_nth)
  then show ?thesis
    using bounded_packed [OF assms(1-3), of bp] assms(4,5) by (simp add: layout_ok_def luma_fits_def)
qed

lemma le_pad:
  assumes "pad_ok p" "unat s \<le> 12288"
  shows "s \<le> PAD_TO_SIZE s p"
  using pad_small(1) [OF assms] by (simp add: word_le_nat_alt)

lemma nv_ok: "dim_ok d \<Longrightarrow> pad_ok pw \<Longrightarrow> pad_ok ph \<Longrightarrow> layout_ok d (packed (nv_planes pw ph d) bp)"
  using dim_okD [of d]
  by (intro packed_ok nv_planes_bounded) (simp_all add: nv_planes_def Let_def le_pad)

lemma nv16_ok: "dim_ok d \<Longrightarrow> layout_ok d (packed (nv16_planes d) bp)"
  using dim_okD [of d]
  by (intro packed_ok nv16_planes_bounded) (simp_all add: nv16_planes_def Let_def le_pad)

lemma yv12_ok: "dim_ok d \<Longrightarrow> layout_ok d (packed (yv12_planes d) bp)"
  using dim_okD [of d]
  by (intro packed_ok yv12_planes_bounded) (simp_all add: yv12_planes_def Let_def le_pad)

lemma adreno_ok: "dim_ok d \<Longrightarrow> layout_ok d (packed (adreno_planes d) bp)"
  using dim_okD [of d]
  by (intro packed_ok adreno_planes_bounded) (simp_all add: adreno_planes_def Let_def le_pad)

lemmas layouts_ok = nv_ok nv16_ok yv12_ok adreno_ok venus_frame_ok

lemma preview_ok:
  assumes "mm_stream_calc_offset_preview B si d pad bp = (0, bp')"
    and "dim_ok d" "padding_ok pad" "\<And>v. venus B = Some v \<Longrightarrow> venus_ok v"
  shows "layout_ok d bp'"
  using assms
  by (auto simp: mm_stream_calc_offset_preview_def Let_def layouts_ok padding_ok_def
      split: cam_format.splits option.splits if_splits)

lemma post_view_ok:
  assumes "mm_stream_calc_offset_post_view B f d bp = (0, bp')"
    and "dim_ok d" "\<And>v. venus B = Some v \<Longrightarrow> venus_ok v"
  shows "layout_ok d bp'"
  using assms
  by (auto simp: mm_stream_calc_offset_post_view_def layouts_ok split: cam_format.splits option.splits)

lemma snapshot_ok:
  assumes run: "mm_stream_calc_offset_snapshot B si d pad bp = (0, bp')"
    and "dim_ok d" "padding_ok pad" "unat (tp_meta_max_size si) \<le> 2 ^ 28"
  shows "layout_ok d bp'"
proof -
  obtain st sc oy where l: "snap_lines B d pad = (st, sc, oy)" by (metis prod_cases3)
  note b = snap_lines [OF assms(2,3) l]
  have sc2: "unat (div_int sc 2) \<le> 16384"
    using half_le [OF b(4)] by simp
  have st2: "unat (PAD_TO_SIZE (div_int st 2) 16) \<le> 16384"
    using half_le [OF b(2)] by (intro pad_le_16384) simp_all
  let ?luma = "snap_plane pad 0 oy st sc (dim_width d) (dim_height d)"
  let ?c = "snap_plane pad 0 oy st (div_int sc 2) (dim_width d) (div_int (dim_height d) 2)"
  let ?u = "snap_plane pad 0 oy (PAD_TO_SIZE (div_int st 2) 16) (div_int sc 2)
    (div_int (dim_width d) 2) (div_int (dim_height d) 2)"
  have p: "plane_bounded ?luma" "plane_bounded ?c" "plane_bounded ?u"
    using b sc2 st2 assms(3) by (simp_all add: snap_plane_bounded padding_ok_def)
  have "layout_ok d (packed [?luma, ?c] bp)" "layout_ok d (packed [?luma, ?u, ?u] bp)"
    "layout_ok d (packed [?luma, ?luma] bp)"
    using p b by (simp_all add: packed_ok)
  moreover have "layout_ok d (set_planes [?luma, ?c]
      (PAD_TO_SIZE (sum_len [?luma, ?c] + tp_meta_max_size si) CAM_PAD_TO_4K) bp)"
    using extra_fits(1) [of "[?luma, ?c]" "tp_meta_max_size si" bp]
      extra_fits(2) [of "[?luma, ?c]" "tp_meta_max_size si"] p b assms(4)
    by (simp add: layout_ok_def luma_fits_def)
  ultimately show ?thesis
    using run l by (auto simp: mm_stream_calc_offset_snapshot_def Let_def
        split: cam_format.splits if_splits)
qed

lemma video_ok:
  assumes "mm_stream_calc_offset_video B d bp = (0, bp')"
    and "dim_ok d" "\<And>v. venus B = Some v \<Longrightarrow> venus_ok v"
  shows "layout_ok d bp'"
proof (cases "venus B")
  case None
  note d = dim_okD [OF assms(2)]
  have "unat (dim_width d) \<le> 16384" "unat (dim_height d) \<le> 16384"
    "unat (div_int (dim_height d) 2) \<le> 16384"
    using d half_le [OF d(4)] by simp_all
  then show ?thesis
    using None assms(1)
    by (auto simp: mm_stream_calc_offset_video_def Let_def padded_plane intro!: packed_ok)
qed (use assms in \<open>auto simp: mm_stream_calc_offset_video_def venus_frame_ok\<close>)

lemma metadata_ok:
  assumes "mm_stream_calc_offset_metadata d pad bp = (0, bp')" "dim_ok d" "padding_ok pad"
  shows "frame_fits bp'" "luma_fits d bp'"
proof -
  note d = dim_okD [OF assms(2)]
  have "plane_bounded (mp_plane (PAD_TO_SIZE (dim_width d * dim_height d) (plane_padding pad))
      (dim_width d) (dim_height d) (dim_width d) (dim_height d))"
    using d assms(3) by (intro padded_plane) (simp_all add: padding_ok_def)
  then show "frame_fits bp'" "luma_fits d bp'"
    using assms(1)
    by (auto simp: mm_stream_calc_offset_metadata_def Let_def luma_fits_def plane_bounded_def
        intro!: set_planes_fits)
qed

section \<open>Raw frames\<close>

text \<open>Bits of a pixel in a raw format, as its name says.\<close>

fun raw_bits :: "cam_format \<Rightarrow> nat" where
  "raw_bits (CAM_FORMAT_BAYER IDEAL_RAW_PLAIN16 _ _) = 16"
| "raw_bits (CAM_FORMAT_BAYER _ BPP_8 _) = 8"
| "raw_bits (CAM_FORMAT_BAYER _ BPP_10 _) = 10"
| "raw_bits (CAM_FORMAT_BAYER _ BPP_12 _) = 12"
| "raw_bits (CAM_FORMAT_BAYER _ BPP_14 _) = 14"
| "raw_bits _ = 16"

definition raw_line_ok :: "32 word \<Rightarrow> 32 word \<Rightarrow> nat \<Rightarrow> 32 word \<times> 32 word \<Rightarrow> bool" where
  "raw_line_ok w h b l \<longleftrightarrow> (case l of (st, len) \<Rightarrow> w \<le> st \<and> unat st * unat h \<le> unat len \<and>
    unat len \<le> 2 ^ 28 \<and> unat w * unat h * b \<le> 8 * unat len)"

lemma small_div_int:
  assumes "unat a < 2 ^ 31" "c \<in> {2, 4, 5, 6, 10, 12}"
  shows "unat (div_int a c) = unat a div nat c"
  using assms(2) unat_div_int [OF assms(1), of "nat c"] by auto

lemma round_up_lines:
  assumes "unat w \<le> 8192" "c = 10 \<or> c = 12"
  shows "unat (div_int (w + of_nat (c - 1)) (int c) * of_nat c) = (unat w + (c - 1)) div c * c"
proof -
  have s: "unat (w + of_nat (c - 1)) = unat w + (c - 1)"
    using assms by (subst unat_plus) (auto simp: unat_of_nat)
  have d: "unat (div_int (w + of_nat (c - 1)) (int c)) = (unat w + (c - 1)) div c"
  proof -
    have lt: "unat (w + of_nat (c - 1)) < 2 ^ 31" unfolding s using assms by auto
    have "0 < c" "c < 2 ^ 31" using assms(2) by auto
    then show ?thesis using unat_div_int [OF lt] s by simp
  qed
  have c: "unat (of_nat c :: 32 word) = c" using assms(2) by (auto simp: unat_of_nat)
  have "(unat w + (c - 1)) div c * c \<le> unat w + (c - 1)"
    by simp
  then have "(unat w + (c - 1)) div c * c < 2 ^ 32"
    by (rule le_less_trans) (use assms in auto)
  then have "unat (div_int (w + of_nat (c - 1)) (int c)) * unat (of_nat c :: 32 word) < 2 ^ 32"
    unfolding d c .
  from unat_times [OF this] show ?thesis unfolding d c .
qed

lemma times_small:
  assumes "unat a * unat b \<le> 2 ^ 27" "m \<le> 8"
  shows "unat ((a :: 32 word) * b * of_nat m) = unat a * unat b * m"
proof -
  have m: "unat (of_nat m :: 32 word) = m" using assms(2) by (intro unat_of_small) simp
  have ab: "unat (a * b) = unat a * unat b"
    using unat_times [of a b] le_less_trans [OF assms(1), of "2 ^ 32"] by simp
  have "unat a * unat b * m \<le> 2 ^ 27 * 8" using assms by (intro mult_le_mono)
  then show ?thesis
    by (subst unat_times) (simp_all add: ab m)
qed

text \<open>A line of \<open>st\<close> pixels with \<open>m\<close> bytes for each \<open>n\<close> of them.\<close>

lemma raw_line:
  assumes w: "w \<le> st" "unat st \<le> 8224" "unat h \<le> 8192" and m: "m \<le> 8" "0 < n" "n \<le> m"
    and b: "n * b \<le> 8 * m" "n dvd unat st"
    and len: "unat len = unat st * unat h * m div n" "unat st * unat h * m div n \<le> 2 ^ 28"
  shows "raw_line_ok w h b (st, len)"
proof -
  obtain q where q: "unat st = n * q" using b(2) by (rule dvdE)
  have l: "unat len = q * unat h * m"
    unfolding len(1) q using m(2) by (simp add: ac_simps)
  have "n * q * unat h \<le> m * q * unat h" using m(3) by (intro mult_le_mono) simp_all
  then have 1: "unat st * unat h \<le> unat len" by (simp add: l q ac_simps)
  have "unat w * unat h * b \<le> unat st * unat h * b"
    using w(1) by (intro mult_le_mono) (simp_all add: word_le_nat_alt)
  also have "\<dots> = q * unat h * (n * b)" by (simp add: q)
  also have "\<dots> \<le> q * unat h * (8 * m)" using b(1) by (rule mult_le_mono2)
  also have "\<dots> = 8 * unat len" by (simp add: l)
  finally show ?thesis
    using 1 w(1) len by (simp add: raw_line_ok_def)
qed

lemma sides_le:
  assumes "unat (a :: 32 word) \<le> 8224" "unat (b :: 32 word) \<le> 8192"
  shows "unat a * unat b \<le> 67371008" "unat b * unat a \<le> 67371008"
  using mult_le_mono [OF assms] by (simp_all add: mult.commute)

lemma pad_lines:
  assumes "unat w \<le> 8192" "pad_ok p" "unat p \<le> 32"
  shows "w \<le> PAD_TO_SIZE w p" "unat (PAD_TO_SIZE w p) \<le> 8224" "unat p dvd unat (PAD_TO_SIZE w p)"
  using pad_small [of p w] assms by (simp_all add: word_le_nat_alt)

lemma yuv_line:
  assumes "unat w \<le> 8192" "unat h \<le> 8192" "pad_ok p" "unat p \<le> 32"
  shows "raw_line_ok w h 16 (PAD_TO_SIZE w p, PAD_TO_SIZE w p * h * 2)"
proof -
  note st = pad_lines [OF assms(1,3,4)]
  note a = sides_le [OF st(2) assms(2)]
  have "unat (PAD_TO_SIZE w p * h * 2) = unat (PAD_TO_SIZE w p) * unat h * 2"
    using times_small [of "PAD_TO_SIZE w p" h 2] a by simp
  then show ?thesis
    using st a assms(2) by (intro raw_line [where m = 2 and n = 1]) simp_all
qed

lemma byte_line:
  assumes "unat w \<le> 8192" "unat h \<le> 8192" "pad_ok p" "unat p \<le> 32"
  shows "raw_line_ok w h 8 (PAD_TO_SIZE w p, PAD_TO_SIZE w p * h)"
proof -
  note st = pad_lines [OF assms(1,3,4)]
  note a = sides_le [OF st(2) assms(2)]
  have "unat (PAD_TO_SIZE w p * h) = unat (PAD_TO_SIZE w p) * unat h"
    using times_small [of "PAD_TO_SIZE w p" h 1] a by simp
  then show ?thesis
    using st a assms(2) by (intro raw_line [where m = 1 and n = 1]) simp_all
qed

lemma mipi12_line:
  assumes "unat w \<le> 8192" "unat h \<le> 8192"
  shows "raw_line_ok w h 12 (PAD_TO_SIZE w 32, div_int (PAD_TO_SIZE w 32 * h * 3) 2)"
proof -
  have p: "pad_ok 32" "unat (32 :: 32 word) \<le> 32" by simp_all
  note st = pad_lines [OF assms(1) p]
  note a = sides_le [OF st(2) assms(2)]
  have t: "unat (PAD_TO_SIZE w 32 * h * 3) = unat (PAD_TO_SIZE w 32) * unat h * 3"
    using times_small [of "PAD_TO_SIZE w 32" h 3] a by simp
  have "unat (div_int (PAD_TO_SIZE w 32 * h * 3) 2) = unat (PAD_TO_SIZE w 32) * unat h * 3 div 2"
    using a by (subst unat_half) (simp_all add: t)
  moreover have "2 dvd unat (PAD_TO_SIZE w 32)"
    using st(3) by (auto intro: dvd_trans [rotated])
  ultimately show ?thesis
    using st a assms(2) by (intro raw_line [where m = 3 and n = 2]) simp_all
qed

text \<open>Lines of a multiple of 12 pixels, 6 in 8 bytes, and of a multiple of 10, 5 in 8 bytes.\<close>

lemma qcom_line:
  assumes le: "w \<le> st" "unat st \<le> 8224" and h: "unat h \<le> 8192"
    and c: "(b, k, m, n :: nat) = (10, 6, 4, 3) \<or> (b, k, m, n) = (12, 5, 8 :: nat, 5)" and dv: "n dvd unat st"
  shows "raw_line_ok w h b (st, div_int (st * h * 8) (int k))"
proof -
  note a = sides_le [OF le(2) h]
  have t: "unat (st * h * 8) = unat st * unat h * 8"
    using times_small [of st h 8] a by simp
  then have "unat (st * h * 8) < 2 ^ 31" using a by simp
  then have "unat (div_int (st * h * 8) (int k)) = unat st * unat h * 8 div k"
    using c unfolding t [symmetric] by (intro unat_div_int) auto
  moreover have "unat st * unat h * 8 div k = unat st * unat h * m div n"
    using c by (auto simp: ac_simps)
  moreover have "unat st * unat h * m div n \<le> 2 ^ 28"
    using a c by auto
  ultimately show ?thesis
    using le h c dv by (intro raw_line [where m = m and n = n]) auto
qed

lemma padded_lines:
  assumes "unat w \<le> 8192"
  shows "w \<le> div_int (w + 11) 12 * 12" "unat (div_int (w + 11) 12 * 12) \<le> 8224"
    "3 dvd unat (div_int (w + 11) 12 * 12)"
    "w \<le> div_int (w + 9) 10 * 10" "unat (div_int (w + 9) 10 * 10) \<le> 8224"
    "5 dvd unat (div_int (w + 9) 10 * 10)"
proof -
  have 12: "unat (div_int (w + 11) 12 * 12) = (unat w + 11) div 12 * 12"
    using round_up_lines [of w 12] assms by simp
  have 10: "unat (div_int (w + 9) 10 * 10) = (unat w + 9) div 10 * 10"
    using round_up_lines [of w 10] assms by simp
  show "w \<le> div_int (w + 11) 12 * 12" "unat (div_int (w + 11) 12 * 12) \<le> 8224"
    "w \<le> div_int (w + 9) 10 * 10" "unat (div_int (w + 9) 10 * 10) \<le> 8224"
    using assms unfolding word_le_nat_alt 12 10 by linarith+
  show "3 dvd unat (div_int (w + 11) 12 * 12)" "5 dvd unat (div_int (w + 9) 10 * 10)"
    unfolding 12 10 by (simp_all add: dvd_mult)
qed

text \<open>Ten bits a pixel without filling: the length of a line is rounded down first, so only widths
  that are a multiple of four pixels are sure to fit.\<close>

lemma mipi10_line:
  assumes "unat w \<le> 8192" "unat h \<le> 8192" "4 dvd unat w"
  shows "raw_line_ok w h 10 (PAD_TO_SIZE (div_int (w * 5) 4) 8, PAD_TO_SIZE (div_int (w * 5) 4) 8 * h)"
proof -
  obtain q where q: "unat w = 4 * q" using assms(3) by (rule dvdE)
  have w5: "unat (w * 5) = unat w * 5"
    using unat_times [of w 5] assms(1) by simp
  have "unat (div_int (w * 5) 4) = unat w * 5 div 4"
    using small_div_int [of "w * 5" 4] assms(1) by (simp add: w5)
  then have x: "unat (div_int (w * 5) 4) = 5 * q" by (simp add: q)
  let ?st = "PAD_TO_SIZE (div_int (w * 5) 4) 8"
  have st: "5 * q \<le> unat ?st" "unat ?st < 5 * q + 8"
    using pad_small [of 8 "div_int (w * 5) 4"] assms(1) by (simp_all add: x q)
  have le: "unat ?st \<le> 16384" "unat h \<le> 16384" using st assms(1,2) q by simp_all
  note a = area [OF le]
  have "unat w * unat h * 10 = 5 * q * unat h * 8" by (simp add: q)
  also have "\<dots> \<le> unat ?st * unat h * 8" using st(1) by (intro mult_le_mono) simp_all
  finally show ?thesis
    using st a q by (simp add: raw_line_ok_def word_le_nat_alt)
qed

text \<open>The formats whose lines are packed without filling.\<close>

definition mipi10 :: "cam_format \<Rightarrow> bool" where
  "mipi10 f \<longleftrightarrow> (\<exists>p q. f = CAM_FORMAT_BAYER p BPP_10 q \<and> (p = MIPI_RAW \<or> p = IDEAL_RAW_MIPI))"

lemma mipi10_simps [simp]:
  "mipi10 (CAM_FORMAT_BAYER p b q) \<longleftrightarrow> b = BPP_10 \<and> (p = MIPI_RAW \<or> p = IDEAL_RAW_MIPI)"
  by (auto simp: mipi10_def)

lemma raw_layout_line:
  assumes "raw_layout f w h = Some l" "unat w \<le> 8192" "unat h \<le> 8192" "mipi10 f \<longrightarrow> 4 dvd unat w"
  shows "raw_line_ok w h (raw_bits f) l"
proof -
  note lines = yuv_line [OF assms(2,3)] byte_line [OF assms(2,3)] mipi12_line [OF assms(2,3)]
    mipi10_line [OF assms(2,3)]
  have q: "raw_line_ok w h 10 (div_int (w + 11) 12 * 12, div_int (div_int (w + 11) 12 * 12 * h * 8) 6)"
    "raw_line_ok w h 12 (div_int (w + 9) 10 * 10, div_int (div_int (w + 9) 10 * 10 * h * 8) 5)"
    using qcom_line [OF padded_lines(1,2) [OF assms(2)] assms(3), of 10 6 4 3]
      qcom_line [OF padded_lines(4,5) [OF assms(2)] assms(3), of 12 5 8 5]
      padded_lines(3,6) [OF assms(2)] by simp_all
  show ?thesis
  proof (cases f)
    case (CAM_FORMAT_BAYER p b q)
    then show ?thesis
      using assms(1,4) q by (cases p; cases b) (auto simp: raw_layout_def Let_def lines)
  qed (use assms(1) in \<open>auto simp: raw_layout_def Let_def lines\<close>)
qed

lemma raw_ok:
  assumes run: "mm_stream_calc_offset_raw f d pad bp = (0, bp')"
    and "dim_ok d" "padding_ok pad" "mipi10 f \<longrightarrow> 4 dvd unat (dim_width d)"
  shows "layout_ok d bp'"
    and "unat (dim_width d) * unat (dim_height d) * raw_bits f \<le> 8 * unat (frame_len bp')"
proof -
  let ?w = "dim_width d" and ?h = "dim_height d"
  obtain st len where l: "raw_layout f ?w ?h = Some (st, len)"
    and bp': "bp' = raw_frame st ?h len pad bp"
    using run by (auto simp: mm_stream_calc_offset_raw_def split: option.splits)
  have ok: "raw_line_ok ?w ?h (raw_bits f) (st, len)"
    using raw_layout_line [OF l] dim_okD [OF assms(2)] assms(4) by blast
  have pp: "pad_ok (plane_padding pad)" using assms(3) by (simp add: padding_ok_def)
  let ?l = "PAD_TO_SIZE len (plane_padding pad)"
  have len: "unat len \<le> unat ?l" "unat ?l \<le> 2 ^ 28 + 4096"
    using unat_pad [OF pp, of len] ok pad_ok_le [OF pp] by (simp_all add: raw_line_ok_def)
  have page: "unat ?l \<le> unat (PAD_TO_SIZE ?l 4096)" "4096 dvd unat (PAD_TO_SIZE ?l 4096)"
    using unat_pad [of 4096 ?l] len by simp_all
  show "layout_ok d bp'"
    using ok len page unfolding bp'
    by (auto simp: layout_ok_def luma_fits_def raw_frame_def Let_def raw_line_ok_def plane_fits_def
        CAM_PAD_TO_4K_def intro!: set_planes_fits)
  show "unat ?w * unat ?h * raw_bits f \<le> 8 * unat (frame_len bp')"
    using ok len page by (simp add: bp' raw_frame_def Let_def raw_line_ok_def CAM_PAD_TO_4K_def)
qed

section \<open>The layout of a stream\<close>

text \<open>The kind of layout a stream gets and the dimension it is for: an offline stream takes the kind of
  its input, and its own dimension without the rotation.\<close>

definition layout_type :: "cam_stream_info \<Rightarrow> cam_stream_type" where
  "layout_type si =
    (if stream_type si = CAM_STREAM_TYPE_OFFLINE_PROC
     then if pp_type si = CAM_OFFLINE_REPROCESS_TYPE then offline_input_type si else online_input_stream_type si
     else stream_type si)"

definition layout_dim :: "cam_stream_info \<Rightarrow> cam_dimension" where
  "layout_dim si = (if stream_type si = CAM_STREAM_TYPE_OFFLINE_PROC then dim si else rotated_dim si)"

lemma layout_dim_ok: "dim_ok (dim si) \<Longrightarrow> dim_ok (layout_dim si)"
  by (auto simp: layout_dim_def rotated_dim_def dim_ok_def)

lemma calc_offset_layout:
  assumes "mm_stream_calc_offset B pad si = (0, si')" "layout_type si \<noteq> CAM_STREAM_TYPE_DEFAULT"
  shows "case layout_type si of
      CAM_STREAM_TYPE_PREVIEW \<Rightarrow>
        mm_stream_calc_offset_preview B si (layout_dim si) pad (buf_planes si) = (0, buf_planes si')
    | CAM_STREAM_TYPE_POSTVIEW \<Rightarrow>
        mm_stream_calc_offset_post_view B (fmt si) (layout_dim si) (buf_planes si) = (0, buf_planes si')
    | CAM_STREAM_TYPE_SNAPSHOT \<Rightarrow>
        mm_stream_calc_offset_snapshot B si (layout_dim si) pad (buf_planes si) = (0, buf_planes si')
    | CAM_STREAM_TYPE_VIDEO \<Rightarrow>
        mm_stream_calc_offset_video B (layout_dim si) (buf_planes si) = (0, buf_planes si')
    | CAM_STREAM_TYPE_RAW \<Rightarrow>
        mm_stream_calc_offset_raw (fmt si) (layout_dim si) pad (buf_planes si) = (0, buf_planes si')
    | CAM_STREAM_TYPE_METADATA \<Rightarrow>
        mm_stream_calc_offset_metadata (layout_dim si) pad (buf_planes si) = (0, buf_planes si')
    | _ \<Rightarrow> False"
proof (cases "stream_type si = CAM_STREAM_TYPE_OFFLINE_PROC")
  case True
  have "mm_stream_calc_offset_postproc B si pad (buf_planes si) = (0, buf_planes si')"
    using assms(1) True by (auto simp: mm_stream_calc_offset_def layout_of_def split: prod.splits)
  then show ?thesis
    using assms(2) True unfolding mm_stream_calc_offset_postproc_def layout_type_def layout_dim_def Let_def
    by (cases "pp_type si"; cases "offline_input_type si"; cases "online_input_stream_type si") simp_all
next
  case False
  then show ?thesis
    using assms unfolding layout_type_def layout_dim_def mm_stream_calc_offset_def layout_of_def Let_def
    by (cases "stream_type si") (auto split: prod.splits)
qed


text \<open>A build with a layout of the video core: lines of 128 bytes, 32 luma and 16 chroma lines.\<close>

definition demo_venus :: venus_macros where
  "demo_venus = \<lparr>VENUS_Y_STRIDE = \<lambda>w. PAD_TO_SIZE w 64, VENUS_Y_SCANLINES = \<lambda>h. PAD_TO_SIZE h 32,
    VENUS_UV_STRIDE = \<lambda>w. PAD_TO_SIZE w 64, VENUS_UV_SCANLINES = \<lambda>h. PAD_TO_SIZE h 32,
    VENUS_BUFFER_SIZE = \<lambda>w h. PAD_TO_SIZE (PAD_TO_SIZE w 64 * PAD_TO_SIZE h 32 * 2) 4096\<rparr>"

definition demo_build :: build where "demo_build = \<lparr>venus = Some demo_venus, a_family = False\<rparr>"

definition demo_padding :: cam_padding_info where
  "demo_padding = \<lparr>width_padding = 32, height_padding = 32, plane_padding = 4096\<rparr>"

definition demo_layout :: cam_frame_len_offset where
  "demo_layout = \<lparr>num_planes = 0, mp = replicate 8 (mp_plane 0 0 0 0 0), frame_len = 0\<rparr>"

definition demo_info :: "cam_stream_type \<Rightarrow> cam_format \<Rightarrow> 32 word \<Rightarrow> 32 word \<Rightarrow> cam_stream_info" where
  "demo_info t f w h = \<lparr>stream_svr_id = 0, stream_type = t, fmt = f,
    dim = \<lparr>dim_width = w, dim_height = h\<rparr>, buf_planes = demo_layout, num_bufs = 3,
    pp_feature_mask = 0, pp_rotation = ROTATE_0, pp_type = CAM_ONLINE_REPROCESS_TYPE,
    online_input_stream_type = CAM_STREAM_TYPE_DEFAULT, offline_input_type = CAM_STREAM_TYPE_DEFAULT,
    offline_input_buf_planes = demo_layout, reprocess_feature_mask = 0, tp_meta_max_size = 0\<rparr>"

lemma two_areas: "m \<le> 2 ^ 28 \<Longrightarrow> k \<le> 4096 \<Longrightarrow> m * 2 + k \<le> (2 :: nat) ^ 32"
  by simp

lemma demo_venus_ok: "venus_ok demo_venus"
proof -
  have "let w = dim_width d; h = dim_height d in
     w \<le> VENUS_Y_STRIDE demo_venus w \<and> VENUS_Y_STRIDE demo_venus w \<le> 16384 \<and>
     h \<le> VENUS_Y_SCANLINES demo_venus h \<and> VENUS_Y_SCANLINES demo_venus h \<le> 16384 \<and>
     4096 dvd unat (VENUS_BUFFER_SIZE demo_venus w h) \<and>
     unat (VENUS_Y_STRIDE demo_venus w) * unat (VENUS_Y_SCANLINES demo_venus h) +
     unat (VENUS_UV_STRIDE demo_venus w) * unat (VENUS_UV_SCANLINES demo_venus h) \<le>
       unat (VENUS_BUFFER_SIZE demo_venus w h)" if "dim_ok d" for d
  proof -
    note d = dim_okD [OF that]
    let ?st = "PAD_TO_SIZE (dim_width d) 64" and ?sc = "PAD_TO_SIZE (dim_height d) 32"
    have st: "unat (dim_width d) \<le> unat ?st" "unat ?st \<le> 16384"
      and sc: "unat (dim_height d) \<le> unat ?sc" "unat ?sc \<le> 16384"
      using pad_small [of 64 "dim_width d"] pad_small [of 32 "dim_height d"] d by simp_all
    note a = area [OF st(2) sc(2)]
    have t: "unat (?st * ?sc * 2) = unat (?st * ?sc) * 2"
    proof -
      have "unat (?st * ?sc) * unat (2 :: 32 word) < 2 ^ 32"
        unfolding a(1) using a(2) by (simp add: ac_simps)
      from unat_times [OF this] show ?thesis by simp
    qed
    have "unat (?st * ?sc * 2) + unat (4096 :: 32 word) \<le> 2 ^ 32"
      unfolding t a(1) using a(2) pad_ok_le [OF pad_ok_numeral(8)] by (rule two_areas)
    note p = pad_ok_numeral(8) this
    show ?thesis
      using st sc a t unat_pad [OF p]
      by (simp add: demo_venus_def Let_def word_le_nat_alt)
  qed
  then show ?thesis by (simp add: venus_ok_def)
qed



definition demo_raw :: cam_format where "demo_raw = CAM_FORMAT_BAYER MIPI_RAW BPP_10 BGGR"


text \<open>At other widths the lines of this format overlap: 26 pixels need 260 bits, the line has 256.\<close>

lemma mipi10_lines_too_short:
  "raw_layout demo_raw 26 8192 = Some (32, 262144)" "8 * (262144 :: nat) < 26 * 8192 * 10"
  by (simp_all add: demo_raw_def raw_layout_def Let_def PAD_TO_SIZE_def div_int_def signed_divide_int_def)

text \<open>Without the Venus macros the chroma plane keeps the width and height it had, and the luma plane
  gets its height.\<close>

lemma video_planes_mixed_up:
  assumes "venus B = None" "2 \<le> length (mp bp)"
  shows "mp (snd (mm_stream_calc_offset_video B d bp)) ! 0 =
      mp_plane (PAD_TO_SIZE (dim_width d * dim_height d) 2048) (dim_width d) (dim_height d)
        (dim_width d) (div_int (dim_height d) 2)"
    and "mp_width (mp (snd (mm_stream_calc_offset_video B d bp)) ! 1) = mp_width (mp bp ! 1)"
  using assms by (simp_all add: mm_stream_calc_offset_video_def packed_def Let_def)

text \<open>A layout that fails changes nothing.\<close>

definition keeps_on_error :: "'a \<Rightarrow> int \<times> 'a \<Rightarrow> bool" where
  "keeps_on_error x r \<longleftrightarrow> fst r = 0 \<or> r = (-1, x)"

lemma keeps_simps [simp]: "keeps_on_error x (0, y)" "keeps_on_error x (-1, x)"
  by (simp_all add: keeps_on_error_def)

lemma layouts_keep:
  "keeps_on_error bp (mm_stream_calc_offset_preview B si d pad bp)"
  "keeps_on_error bp (mm_stream_calc_offset_post_view B f d bp)"
  "keeps_on_error bp (mm_stream_calc_offset_raw f d pad bp)"
  "keeps_on_error bp (mm_stream_calc_offset_video B d bp)"
  "keeps_on_error bp (mm_stream_calc_offset_metadata d pad bp)"
  by (simp_all add: mm_stream_calc_offset_preview_def mm_stream_calc_offset_post_view_def
      mm_stream_calc_offset_raw_def mm_stream_calc_offset_video_def mm_stream_calc_offset_metadata_def
      Let_def split: cam_format.split option.split)

lemma snapshot_keeps: "keeps_on_error bp (mm_stream_calc_offset_snapshot B si d pad bp)"
  by (cases "snap_lines B d pad"; cases "fmt si") (simp_all add: mm_stream_calc_offset_snapshot_def Let_def)

lemma postproc_keeps: "keeps_on_error bp (mm_stream_calc_offset_postproc B si pad bp)"
proof -
  define type where
    "type = (if pp_type si = CAM_OFFLINE_REPROCESS_TYPE then offline_input_type si else online_input_stream_type si)"
  show ?thesis
    unfolding mm_stream_calc_offset_postproc_def Let_def type_def [symmetric]
    by (cases type) (simp_all add: layouts_keep snapshot_keeps)
qed

lemma calc_offset_result:
  assumes "mm_stream_calc_offset B pad si = (rc, si')"
  shows "rc = 0 \<or> rc = -1 \<and> si' = si"
proof -
  have "keeps_on_error (buf_planes si) (layout_of B pad si)"
    by (cases "stream_type si") (simp_all add: layout_of_def layouts_keep snapshot_keeps postproc_keeps)
  then show ?thesis
    using assms by (auto simp: keeps_on_error_def mm_stream_calc_offset_def split: prod.splits)
qed

end
