(* ===== verification/MmStream.thy ===== *)
theory MmStream
  imports MmOffset
begin

text \<open>
  A stream, from \<^verbatim>\<open>src/camera/QCamera2/stack/mm-camera-interface/\<close>: \<^verbatim>\<open>src/mm_camera_stream.c\<close> with the
  types of \<^verbatim>\<open>inc/mm_camera.h\<close>, and the launch and release of its command thread from
  \<^verbatim>\<open>src/mm_camera_thread.c\<close>. A stream owns the buffers of one video device node. It is driven by the
  events of its channel (\<open>mm_stream_fsm_fn\<close>), by the poll thread when the driver has filled a buffer
  (\<open>mm_stream_data_notify\<close>) and by its own command thread, which hands frames to the callbacks
  (\<open>mm_stream_dispatch_app_data\<close>). A buffer is with the driver or with the users whose references
  \<open>buf_refcnt\<close> counts, and goes back to the driver with the last reference (\<open>mm_stream_buf_done\<close>).

  What lies outside answers from the environment \<open>env\<close>: the result of a call may depend on all calls
  made before and their results, which \<open>s_log\<close> records. \<open>e_rc\<close> is the result of a system call, of a
  call into the poll thread, the server or the memory functions of the HAL, and of an allocation
  (non zero when it succeeds); \<open>e_frame\<close> is the index and the sequence number of the buffer that
  \<^verbatim>\<open>VIDIOC_DQBUF\<close> would return, \<open>e_ext_mode\<close> the stream id of the server, \<open>e_get_bufs\<close> the buffers
  the HAL allocates. What the stream hands out is recorded in order: the commands for its channel
  (\<open>s_to_channel\<close>) and for the channel it is linked to (\<open>s_to_linked\<close>), the buffers passed to callbacks
  (\<open>s_given\<close>).

  An operation returns \<open>None\<close> when the code does not come back: it follows a null pointer, indexes
  past the buffers or waits for a thread that never ends. The sections under a lock are atomic; the
  channel and the camera of a stream are set before its first event. A buffer is copied into a
  command instead of pointed to: it is written again only after the driver has had it back.
\<close>

section \<open>Types\<close>

datatype mm_stream_state =
    MM_STREAM_STATE_NOTUSED | MM_STREAM_STATE_INITED | MM_STREAM_STATE_ACQUIRED | MM_STREAM_STATE_CFG
  | MM_STREAM_STATE_BUFFED | MM_STREAM_STATE_REG | MM_STREAM_STATE_ACTIVE

record mm_stream_data_cb =
  cb :: "nat option"
  cb_count :: "8 word"

record mm_stream_buf_status =
  buf_refcnt :: "8 word"
  initial_reg_flag :: bool
  in_kernel :: bool

text \<open>Which of the cache operations the HAL has given.\<close>

record mm_camera_stream_mem_vtbl =
  has_invalidate_buf :: bool
  has_clean_invalidate_buf :: bool

record mm_camera_stream_config =
  c_stream_info :: cam_stream_info
  c_padding_info :: cam_padding_info
  c_mem_vtbl :: mm_camera_stream_mem_vtbl
  c_stream_cb :: "nat option"

datatype mm_stream_evt =
    MM_STREAM_EVT_ACQUIRE
  | MM_STREAM_EVT_RELEASE
  | MM_STREAM_EVT_SET_FMT mm_camera_stream_config
  | MM_STREAM_EVT_GET_BUF
  | MM_STREAM_EVT_PUT_BUF
  | MM_STREAM_EVT_REG_BUF
  | MM_STREAM_EVT_UNREG_BUF
  | MM_STREAM_EVT_START
  | MM_STREAM_EVT_STOP
  | MM_STREAM_EVT_QBUF mm_camera_buf_def
  | MM_STREAM_EVT_SET_PARM bool
  | MM_STREAM_EVT_GET_PARM bool
  | MM_STREAM_EVT_DO_ACTION bool
  | MM_STREAM_EVT_GET_QUEUED_BUF_COUNT

datatype v4l2_pix_fmt =
    V4L2_PIX_FMT_NONE | V4L2_PIX_FMT_NV12 | V4L2_PIX_FMT_NV21 | V4L2_PIX_FMT_SBGGR10 | V4L2_PIX_FMT_NV61
  | V4L2_PIX_FMT_YUYV | V4L2_PIX_FMT_YVYU | V4L2_PIX_FMT_UYVY | V4L2_PIX_FMT_VYUY | V4L2_PIX_FMT_NV16

datatype stream_call =
    Sys_open
  | Sys_close int
  | Io_S_PARM
  | Io_S_FMT "32 word" "32 word" v4l2_pix_fmt "32 word list"
  | Io_REQBUFS nat
  | Io_QBUF "32 word"
  | Io_DQBUF "32 word"
  | Io_STREAMON
  | Io_STREAMOFF
  | Ctrl_s_stream_parm
  | Ctrl_g_stream_parm
  | Ctrl_stream_info_sync
  | Poll_add
  | Poll_del
  | Poll_commit
  | Mem_get_bufs
  | Mem_put_bufs
  | Mem_invalidate "32 word"
  | Mem_clean_invalidate "32 word"
  | Sock_map "8 word" "32 word" "32 word" int int nat
  | Sock_unmap "8 word" "32 word" "32 word" int
  | Malloc_status
  | Malloc_cmd
  | Malloc_node
  | Malloc_exit
  | Malloc_exit_node

type_synonym stream_log = "(stream_call \<times> int) list"

record mem_bufs =
  mb_num :: "8 word"
  mb_reg_flags :: "bool list"
  mb_bufs :: "mm_camera_buf_def list"

record env =
  e_rc :: "stream_log \<Rightarrow> stream_call \<Rightarrow> int"
  e_frame :: "stream_log \<Rightarrow> 32 word \<times> 32 word"
  e_ext_mode :: "stream_log \<Rightarrow> 32 word"
  e_get_bufs :: "stream_log \<Rightarrow> mem_bufs"
  e_dev_name :: bool
  e_build :: build

record stream_obj =
  s_my_hdl :: "32 word"
  s_server_stream_id :: "32 word"
  s_fd :: int
  s_state :: mm_stream_state
  s_stream_info :: "cam_stream_info option"
  s_padding_info :: cam_padding_info
  s_frame_offset :: cam_frame_len_offset
  s_cmd_active :: bool
  s_cmds :: "mm_camera_buf_info list"
  s_buf_cb :: "mm_stream_data_cb list"
  s_buf_num :: "8 word"
  s_buf :: "mm_camera_buf_def list option"
  s_buf_status :: "mm_stream_buf_status list option"
  s_is_bundled :: bool
  s_is_linked :: bool
  s_mem_vtbl :: mm_camera_stream_mem_vtbl
  s_queued_buffer_count :: "8 word"
  s_previewSkipCnt :: "8 word"
  s_to_channel :: "mm_camera_buf_info list"
  s_to_linked :: "mm_camera_buf_info list"
  s_given :: "(nat \<times> mm_camera_buf_def) list"
  s_log :: stream_log

definition MM_CAMERA_STREAM_BUF_CB_MAX :: nat where "MM_CAMERA_STREAM_BUF_CB_MAX = 4"
definition MM_CAMERA_MAX_NUM_FRAMES :: "8 word" where "MM_CAMERA_MAX_NUM_FRAMES = 24"

definition no_cb :: mm_stream_data_cb where "no_cb = \<lparr>cb = None, cb_count = 0\<rparr>"

definition no_padding :: cam_padding_info where
  "no_padding = \<lparr>width_padding = 0, height_padding = 0, plane_padding = 0\<rparr>"

definition no_frame :: cam_frame_len_offset where
  "no_frame = \<lparr>num_planes = 0, mp = replicate 8 (mp_plane 0 0 0 0 0), frame_len = 0\<rparr>"

text \<open>\<^verbatim>\<open>memset(my_obj, 0, sizeof(mm_stream_t))\<close>: what is not part of the stream stays.\<close>

definition zero_stream :: "stream_obj \<Rightarrow> stream_obj" where
  "zero_stream st = st\<lparr>s_my_hdl := 0, s_server_stream_id := 0, s_fd := 0, s_state := MM_STREAM_STATE_NOTUSED,
     s_stream_info := None, s_padding_info := no_padding, s_frame_offset := no_frame,
     s_cmd_active := False, s_cmds := [], s_buf_cb := replicate MM_CAMERA_STREAM_BUF_CB_MAX no_cb,
     s_buf_num := 0, s_buf := None, s_buf_status := None, s_is_bundled := False, s_is_linked := False,
     s_mem_vtbl := \<lparr>has_invalidate_buf = False, has_clean_invalidate_buf = False\<rparr>,
     s_queued_buffer_count := 0\<rparr>"

definition ask :: "env \<Rightarrow> stream_call \<Rightarrow> stream_obj \<Rightarrow> int \<times> stream_obj" where
  "ask E c st = (let rc = e_rc E (s_log st) c in (rc, st\<lparr>s_log := s_log st @ [(c, rc)]\<rparr>))"

text \<open>A call whose result is not used.\<close>

definition tell :: "env \<Rightarrow> stream_call \<Rightarrow> stream_obj \<Rightarrow> stream_obj" where
  "tell E c st = snd (ask E c st)"

definition get_status :: "32 word \<Rightarrow> stream_obj \<Rightarrow> mm_stream_buf_status option" where
  "get_status idx st = (case s_buf_status st of None \<Rightarrow> None
     | Some l \<Rightarrow> if unat idx < length l then Some (l ! unat idx) else None)"

definition upd_status ::
  "32 word \<Rightarrow> (mm_stream_buf_status \<Rightarrow> mm_stream_buf_status) \<Rightarrow> stream_obj \<Rightarrow> stream_obj option" where
  "upd_status idx f st = (case s_buf_status st of None \<Rightarrow> None
     | Some l \<Rightarrow> if unat idx < length l
         then Some (st\<lparr>s_buf_status := Some (l[unat idx := f (l ! unat idx)])\<rparr>) else None)"

definition add_ref :: "32 word \<Rightarrow> stream_obj \<Rightarrow> stream_obj option" where
  "add_ref idx = upd_status idx (\<lambda>b. b\<lparr>buf_refcnt := buf_refcnt b + 1\<rparr>)"

definition has_cb :: "stream_obj \<Rightarrow> bool" where
  "has_cb st \<longleftrightarrow> list_ex (\<lambda>c. cb c \<noteq> None) (s_buf_cb st)"

section \<open>Buffers to and from the driver\<close>

definition mm_stream_qbuf :: "env \<Rightarrow> mm_camera_buf_def \<Rightarrow> stream_obj \<Rightarrow> int \<times> stream_obj" where
  "mm_stream_qbuf E buf st =
    (let i = bd_buf_idx buf;
         (rc, st) = (if has_invalidate_buf (s_mem_vtbl st) then ask E (Mem_invalidate i) st else (0, st)) in
     if rc < 0 then (rc, st)
     else
       let st = st\<lparr>s_queued_buffer_count := s_queued_buffer_count st + 1\<rparr>;
           st = (if s_queued_buffer_count st = 1 then tell E Poll_add st else st);
           (rc, st) = ask E (Io_QBUF i) st in
       if rc < 0 then
         let st = st\<lparr>s_queued_buffer_count := s_queued_buffer_count st - 1\<rparr> in
         (rc, if s_queued_buffer_count st = 0 then tell E Poll_del st else st)
       else (rc, st))"

definition mm_stream_buf_done :: "env \<Rightarrow> mm_camera_buf_def \<Rightarrow> stream_obj \<Rightarrow> (int \<times> stream_obj) option" where
  "mm_stream_buf_done E frame st =
    (let i = bd_buf_idx frame in
     get_status i st \<bind> (\<lambda>b.
       if buf_refcnt b = 0 then Some (-1, st)
       else upd_status i (\<lambda>b. b\<lparr>buf_refcnt := buf_refcnt b - 1\<rparr>) st \<bind> (\<lambda>st.
         if buf_refcnt b - 1 = 0 then
           let (rc, st) = mm_stream_qbuf E frame st in
           if rc < 0 then Some (rc, st)
           else upd_status i (\<lambda>b. b\<lparr>in_kernel := True\<rparr>) st \<bind> (\<lambda>st. Some (rc, st))
         else Some (0, st))))"

definition mm_stream_get_queued_buf_count :: "stream_obj \<Rightarrow> int" where
  "mm_stream_get_queued_buf_count st = sint (s_queued_buffer_count st)"

text \<open>The result, what is known of the buffer, and the stream.\<close>

definition mm_stream_read_msm_frame ::
  "env \<Rightarrow> stream_obj \<Rightarrow> (int \<times> mm_camera_buf_info \<times> stream_obj) option" where
  "mm_stream_read_msm_frame E st =
    (let (idx, seqn) = e_frame E (s_log st);
         (rc, st) = ask E (Io_DQBUF idx) st in
     if rc < 0 then Some (rc, no_buf_info, st)
     else
       let st = st\<lparr>s_queued_buffer_count := s_queued_buffer_count st - 1\<rparr>;
           st = (if s_queued_buffer_count st = 0 then tell E Poll_del st else st) in
       case s_buf st of
         None \<Rightarrow> None
       | Some bufs \<Rightarrow>
           if unat idx < length bufs then
             let b = (bufs ! unat idx)\<lparr>bd_stream_id := s_my_hdl st, bd_buf_idx := idx, bd_frame_idx := seqn\<rparr>;
                 bi = \<lparr>bi_stream_id = s_my_hdl st, bi_frame_idx = seqn, bi_buf = Some b\<rparr>;
                 st = st\<lparr>s_buf := Some (bufs[unat idx := b])\<rparr>;
                 (rc, st) = (if has_clean_invalidate_buf (s_mem_vtbl st)
                             then ask E (Mem_clean_invalidate idx) st else (rc, st)) in
             Some (rc, bi, st)
           else None)"

section \<open>A received frame\<close>

datatype notify_target = To_channel | To_linked

text \<open>\<open>mm_stream_notify_channel\<close> allocates the command, \<^verbatim>\<open>cam_queue_enq\<close> the node of the queue.\<close>

definition mm_stream_notify_channel ::
  "env \<Rightarrow> notify_target \<Rightarrow> mm_camera_buf_info \<Rightarrow> stream_obj \<Rightarrow> int \<times> stream_obj" where
  "mm_stream_notify_channel E t bi st =
    (let (m, st) = ask E Malloc_cmd st in
     if m = 0 then (-12, st)
     else
       let (n, st) = ask E Malloc_node st in
       (0, if n = 0 then st
           else case t of To_channel \<Rightarrow> st\<lparr>s_to_channel := s_to_channel st @ [bi]\<rparr>
                        | To_linked \<Rightarrow> st\<lparr>s_to_linked := s_to_linked st @ [bi]\<rparr>))"

text \<open>The steps of \<open>mm_stream_handle_rcvd_buf\<close>: each holds at most one lock.\<close>

definition rcvd_bundled :: "env \<Rightarrow> mm_camera_buf_info \<Rightarrow> stream_obj \<Rightarrow> stream_obj" where
  "rcvd_bundled E bi st =
    (if s_is_bundled st then snd (mm_stream_notify_channel E To_channel bi st) else st)"

definition rcvd_linked :: "env \<Rightarrow> mm_camera_buf_info \<Rightarrow> mm_camera_buf_def \<Rightarrow> stream_obj \<Rightarrow> stream_obj option" where
  "rcvd_linked E bi buf st =
    (if s_is_linked st
     then add_ref (bd_buf_idx buf) st \<bind> (\<lambda>st. Some (snd (mm_stream_notify_channel E To_linked bi st)))
     else Some st)"

definition skip_preview :: "stream_obj \<Rightarrow> bool option" where
  "skip_preview st = (if s_previewSkipCnt st = 0 then Some False
     else map_option (\<lambda>si. stream_type si = CAM_STREAM_TYPE_PREVIEW) (s_stream_info st))"

definition rcvd_app :: "env \<Rightarrow> mm_camera_buf_info \<Rightarrow> bool \<Rightarrow> stream_obj \<Rightarrow> stream_obj" where
  "rcvd_app E bi hc st =
    (if hc \<and> s_cmd_active st then
       let (m, st) = ask E Malloc_cmd st in
       if m = 0 then st
       else let (n, st) = ask E Malloc_node st in
            if n = 0 then st else st\<lparr>s_cmds := s_cmds st @ [bi]\<rparr>
     else st)"

definition mm_stream_handle_rcvd_buf ::
  "env \<Rightarrow> mm_camera_buf_info \<Rightarrow> bool \<Rightarrow> stream_obj \<Rightarrow> stream_obj option" where
  "mm_stream_handle_rcvd_buf E bi hc st =
    (case bi_buf bi of
       None \<Rightarrow> None
     | Some buf \<Rightarrow>
         rcvd_linked E bi buf (rcvd_bundled E bi st) \<bind> (\<lambda>st.
         skip_preview st \<bind> (\<lambda>skip.
           if skip then
             map_option snd (mm_stream_buf_done E buf (st\<lparr>s_previewSkipCnt := s_previewSkipCnt st - 1\<rparr>))
           else Some (rcvd_app E bi hc st))))"

definition mm_stream_data_notify :: "env \<Rightarrow> stream_obj \<Rightarrow> stream_obj option" where
  "mm_stream_data_notify E st =
    (if s_state st \<noteq> MM_STREAM_STATE_ACTIVE then Some st
     else mm_stream_read_msm_frame E st \<bind> (\<lambda>(rc, bi, st).
       if rc \<noteq> 0 then Some st
       else case bi_buf bi of
         None \<Rightarrow> None
       | Some buf \<Rightarrow>
           let hc = has_cb st;
               refs = (if s_is_bundled st then 1 else 0) + (if hc then 1 else 0) in
           upd_status (bd_buf_idx buf) (\<lambda>b. b\<lparr>in_kernel := False, buf_refcnt := buf_refcnt b + refs\<rparr>) st
           \<bind> mm_stream_handle_rcvd_buf E bi hc))"

section \<open>Frames to the callbacks\<close>

definition dispatch_cb :: "mm_camera_buf_def \<Rightarrow> nat \<Rightarrow> stream_obj \<Rightarrow> stream_obj option" where
  "dispatch_cb buf i st =
    (let c = s_buf_cb st ! i in
     case cb c of
       None \<Rightarrow> Some st
     | Some f \<Rightarrow>
         (if cb_count c \<noteq> 0
          then add_ref (bd_buf_idx buf) st \<bind> (\<lambda>st. Some (st\<lparr>s_given := s_given st @ [(f, buf)]\<rparr>))
          else Some st) \<bind> (\<lambda>st.
         Some (if 0 < sint (cb_count c)
               then let n = cb_count c - 1 in
                    st\<lparr>s_buf_cb := (s_buf_cb st)[i := if n = 0 then no_cb else c\<lparr>cb_count := n\<rparr>]\<rparr>
               else st)))"

fun dispatch_cbs :: "mm_camera_buf_def \<Rightarrow> nat list \<Rightarrow> stream_obj \<Rightarrow> stream_obj option" where
  "dispatch_cbs buf [] st = Some st"
| "dispatch_cbs buf (i # is) st = dispatch_cb buf i st \<bind> dispatch_cbs buf is"

definition mm_stream_dispatch_app_data :: "env \<Rightarrow> mm_camera_buf_info \<Rightarrow> stream_obj \<Rightarrow> stream_obj option" where
  "mm_stream_dispatch_app_data E bi st =
    (case bi_buf bi of
       None \<Rightarrow> None
     | Some buf \<Rightarrow>
         dispatch_cbs buf [0..<MM_CAMERA_STREAM_BUF_CB_MAX] st \<bind> (\<lambda>st.
         map_option snd (mm_stream_buf_done E buf st)))"

definition mm_stream_reg_buf_cb :: "mm_stream_data_cb \<Rightarrow> stream_obj \<Rightarrow> int \<times> stream_obj" where
  "mm_stream_reg_buf_cb val st =
    (let n = length (takeWhile (\<lambda>c. cb c \<noteq> None) (s_buf_cb st)) in
     if n < length (s_buf_cb st) then (0, st\<lparr>s_buf_cb := (s_buf_cb st)[n := val]\<rparr>) else (-1, st))"

section \<open>The command thread\<close>

definition mm_camera_cmd_thread_launch :: "stream_obj \<Rightarrow> stream_obj" where
  "mm_camera_cmd_thread_launch st = st\<lparr>s_cmds := [], s_cmd_active := True\<rparr>"

text \<open>One round of the thread: it takes the first command.\<close>

definition cmd_thread_step :: "env \<Rightarrow> stream_obj \<Rightarrow> stream_obj option" where
  "cmd_thread_step E st =
    (case s_cmds st of [] \<Rightarrow> Some st | bi # r \<Rightarrow> mm_stream_dispatch_app_data E bi (st\<lparr>s_cmds := r\<rparr>))"

fun cmd_thread_drain :: "nat \<Rightarrow> env \<Rightarrow> stream_obj \<Rightarrow> stream_obj option" where
  "cmd_thread_drain 0 E st = Some st"
| "cmd_thread_drain (Suc n) E st = cmd_thread_step E st \<bind> cmd_thread_drain n E"

text \<open>\<open>mm_camera_cmd_thread_release\<close>: the thread works off the commands before the exit command; without
  a node for that command the join never returns.\<close>

definition mm_camera_cmd_thread_release :: "env \<Rightarrow> stream_obj \<Rightarrow> (int \<times> stream_obj) option" where
  "mm_camera_cmd_thread_release E st =
    (let (m, st) = ask E Malloc_exit st in
     if m = 0 then Some (-1, st)
     else
       let (n, st) = ask E Malloc_exit_node st in
       if n = 0 \<and> s_cmd_active st then None
       else (if s_cmd_active st then cmd_thread_drain (length (s_cmds st)) E st else Some st)
            \<bind> (\<lambda>st. Some (0, st\<lparr>s_cmds := [], s_cmd_active := False\<rparr>)))"

section \<open>Setting up\<close>

definition mm_stream_set_ext_mode :: "env \<Rightarrow> stream_obj \<Rightarrow> int \<times> stream_obj" where
  "mm_stream_set_ext_mode E st =
    (let mode = e_ext_mode E (s_log st); (rc, st) = ask E Io_S_PARM st in
     (rc, if rc = 0 then st\<lparr>s_server_stream_id := mode\<rparr> else st))"

fun mm_stream_get_v4l2_fmt :: "cam_format \<Rightarrow> v4l2_pix_fmt" where
  "mm_stream_get_v4l2_fmt CAM_FORMAT_YUV_420_NV12 = V4L2_PIX_FMT_NV12"
| "mm_stream_get_v4l2_fmt CAM_FORMAT_YUV_420_NV12_VENUS = V4L2_PIX_FMT_NV12"
| "mm_stream_get_v4l2_fmt CAM_FORMAT_YUV_420_NV21 = V4L2_PIX_FMT_NV21"
| "mm_stream_get_v4l2_fmt (CAM_FORMAT_BAYER QCOM_RAW BPP_10 _) = V4L2_PIX_FMT_SBGGR10"
| "mm_stream_get_v4l2_fmt CAM_FORMAT_YUV_422_NV61 = V4L2_PIX_FMT_NV61"
| "mm_stream_get_v4l2_fmt CAM_FORMAT_YUV_RAW_8BIT_YUYV = V4L2_PIX_FMT_YUYV"
| "mm_stream_get_v4l2_fmt CAM_FORMAT_YUV_RAW_8BIT_YVYU = V4L2_PIX_FMT_YVYU"
| "mm_stream_get_v4l2_fmt CAM_FORMAT_YUV_RAW_8BIT_UYVY = V4L2_PIX_FMT_UYVY"
| "mm_stream_get_v4l2_fmt CAM_FORMAT_YUV_RAW_8BIT_VYUY = V4L2_PIX_FMT_VYUY"
| "mm_stream_get_v4l2_fmt CAM_FORMAT_YUV_420_YV12 = V4L2_PIX_FMT_NV12"
| "mm_stream_get_v4l2_fmt CAM_FORMAT_YUV_422_NV16 = V4L2_PIX_FMT_NV16"
| "mm_stream_get_v4l2_fmt _ = V4L2_PIX_FMT_NONE"

definition mm_stream_set_fmt :: "env \<Rightarrow> stream_obj \<Rightarrow> (int \<times> stream_obj) option" where
  "mm_stream_set_fmt E st =
    (case s_stream_info st of
       None \<Rightarrow> None
     | Some si \<Rightarrow>
         let w = dim_width (dim si); h = dim_height (dim si); f = s_frame_offset st in
         Some (if w = 0 \<or> h = 0 then (-1, st)
           else ask E (Io_S_FMT w h (mm_stream_get_v4l2_fmt (fmt si))
             (map mp_len (take (unat (num_planes f)) (mp f)))) st))"

definition mm_stream_sync_info :: "env \<Rightarrow> stream_obj \<Rightarrow> (int \<times> stream_obj) option" where
  "mm_stream_sync_info E st =
    (case s_stream_info st of
       None \<Rightarrow> None
     | Some si \<Rightarrow>
         let (rc, si) = mm_stream_calc_offset (e_build E) (s_padding_info st)
               (si\<lparr>stream_svr_id := s_server_stream_id st\<rparr>);
             st = st\<lparr>s_stream_info := Some si, s_frame_offset := buf_planes si\<rparr> in
         Some (if rc = 0 then ask E Ctrl_stream_info_sync st else (rc, st)))"

definition mm_stream_config :: "env \<Rightarrow> mm_camera_stream_config \<Rightarrow> stream_obj \<Rightarrow> (int \<times> stream_obj) option" where
  "mm_stream_config E c st =
    (let st = st\<lparr>s_stream_info := Some (c_stream_info c), s_buf_num := ucast (num_bufs (c_stream_info c)),
       s_mem_vtbl := c_mem_vtbl c, s_padding_info := c_padding_info c,
       s_buf_cb := (s_buf_cb st)[0 := \<lparr>cb = c_stream_cb c, cb_count = -1\<rparr>]\<rparr> in
     mm_stream_sync_info E st \<bind> (\<lambda>(rc, st). if rc = 0 then mm_stream_set_fmt E st else Some (rc, st)))"

definition mm_stream_release :: "env \<Rightarrow> stream_obj \<Rightarrow> int \<times> stream_obj" where
  "mm_stream_release E st =
    (0, zero_stream (if 0 < s_fd st then tell E (Sys_close (s_fd st)) st else st))"

definition mm_stream_deinit_bufs :: "env \<Rightarrow> stream_obj \<Rightarrow> int \<times> stream_obj" where
  "mm_stream_deinit_bufs E st =
    (case s_buf st of
       None \<Rightarrow> (0, st)
     | Some _ \<Rightarrow>
         let (rc, st) = ask E Mem_put_bufs st in (rc, st\<lparr>s_buf := None, s_buf_status := None\<rparr>))"

definition mm_stream_init_bufs :: "env \<Rightarrow> stream_obj \<Rightarrow> (int \<times> stream_obj) option" where
  "mm_stream_init_bufs E st =
    (let st = (if s_buf st \<noteq> None then snd (mm_stream_deinit_bufs E st) else st);
         m = e_get_bufs E (s_log st);
         (rc, st) = ask E Mem_get_bufs st in
     if rc \<noteq> 0 then Some (rc, st)
     else
       let st = st\<lparr>s_buf_num := mb_num m, s_buf := Some (mb_bufs m)\<rparr>;
           (a, st) = ask E Malloc_status st; n = unat (mb_num m) in
       if a = 0 then Some (-1, snd (mm_stream_deinit_bufs E st))
       else case s_stream_info st of
         None \<Rightarrow> None
       | Some si \<Rightarrow>
           if length (mb_bufs m) < n \<or> length (mb_reg_flags m) < n then None
           else Some (rc, st\<lparr>
             s_buf_status := Some (map (\<lambda>f. \<lparr>buf_refcnt = 0, initial_reg_flag = f, in_kernel = False\<rparr>)
                                    (take n (mb_reg_flags m))),
             s_buf := Some (map (\<lambda>b. b\<lparr>bd_stream_id := s_my_hdl st, bd_stream_type := stream_type si\<rparr>)
                              (take n (mb_bufs m)) @ drop n (mb_bufs m)),
             s_stream_info := Some (si\<lparr>num_bufs := ucast (mb_num m)\<rparr>)\<rparr>))"

definition mm_stream_request_buf :: "env \<Rightarrow> stream_obj \<Rightarrow> int \<times> stream_obj" where
  "mm_stream_request_buf E st =
    (if MM_CAMERA_MAX_NUM_FRAMES < s_buf_num st then (-1, st)
     else ask E (Io_REQBUFS (unat (s_buf_num st))) st)"

fun reg_bufs :: "env \<Rightarrow> nat list \<Rightarrow> int \<Rightarrow> stream_obj \<Rightarrow> (int \<times> stream_obj) option" where
  "reg_bufs E [] rc st = Some (rc, st)"
| "reg_bufs E (i # is) rc st =
    (case (s_buf_status st, s_buf st) of
       (Some l, Some bufs) \<Rightarrow>
         if i < length l \<and> i < length bufs then
           if initial_reg_flag (l ! i) then
             let (rc, st) = mm_stream_qbuf E (bufs ! i) st in
             if rc \<noteq> 0 then Some (rc, st)
             else upd_status (of_nat i) (\<lambda>b. b\<lparr>buf_refcnt := 0, in_kernel := True\<rparr>) st \<bind> reg_bufs E is rc
           else upd_status (of_nat i) (\<lambda>b. b\<lparr>buf_refcnt := 1, in_kernel := False\<rparr>) st \<bind> reg_bufs E is rc
         else None
     | _ \<Rightarrow> None)"

definition mm_stream_reg_buf :: "env \<Rightarrow> stream_obj \<Rightarrow> (int \<times> stream_obj) option" where
  "mm_stream_reg_buf E st =
    (let (rc, st) = mm_stream_request_buf E st in
     if rc \<noteq> 0 then Some (rc, st)
     else reg_bufs E [0..<unat (s_buf_num st)] rc (st\<lparr>s_queued_buffer_count := 0\<rparr>))"

definition mm_stream_unreg_buf :: "env \<Rightarrow> stream_obj \<Rightarrow> int \<times> stream_obj" where
  "mm_stream_unreg_buf E st =
    (let (rc, st) = ask E (Io_REQBUFS 0) st; n = unat (s_buf_num st) in
     (rc, st\<lparr>s_buf_status := map_option (\<lambda>l. map (\<lambda>b. b\<lparr>buf_refcnt := 0, in_kernel := False\<rparr>) (take n l)
                                            @ drop n l) (s_buf_status st)\<rparr>))"

definition mm_stream_streamon :: "env \<Rightarrow> stream_obj \<Rightarrow> int \<times> stream_obj" where
  "mm_stream_streamon E st =
    (let (rc, st) = ask E Io_STREAMON st in (rc, if rc < 0 then tell E Poll_del st else st))"

definition mm_stream_streamoff :: "env \<Rightarrow> stream_obj \<Rightarrow> int \<times> stream_obj" where
  "mm_stream_streamoff E st =
    (let (rc, st) = ask E Poll_del st;
         st = (if rc < 0 then tell E Poll_commit st else st) in
     ask E Io_STREAMOFF st)"

definition stream_parm :: "env \<Rightarrow> stream_call \<Rightarrow> bool \<Rightarrow> stream_obj \<Rightarrow> int \<times> stream_obj" where
  "stream_parm E c in_value st = (if in_value then ask E c st else (-1, st))"

text \<open>Messages to the server that map a buffer and unmap it; the HAL calls them while it allocates and
  frees the buffers of the stream, and for other buffers through the channel.\<close>

definition CAM_MAPPING_BUF_TYPE_STREAM_BUF :: "8 word" where "CAM_MAPPING_BUF_TYPE_STREAM_BUF = 2"

definition mm_stream_map_buf ::
  "env \<Rightarrow> 8 word \<Rightarrow> 32 word \<Rightarrow> int \<Rightarrow> int \<Rightarrow> nat \<Rightarrow> stream_obj \<Rightarrow> int \<times> stream_obj" where
  "mm_stream_map_buf E buf_type frame_idx plane_idx fd sz st =
    ask E (Sock_map buf_type (s_server_stream_id st) frame_idx plane_idx fd sz) st"

definition mm_stream_unmap_buf ::
  "env \<Rightarrow> 8 word \<Rightarrow> 32 word \<Rightarrow> int \<Rightarrow> stream_obj \<Rightarrow> int \<times> stream_obj" where
  "mm_stream_unmap_buf E buf_type frame_idx plane_idx st =
    ask E (Sock_unmap buf_type (s_server_stream_id st) frame_idx plane_idx) st"

definition mm_stream_map_buf_ops :: "env \<Rightarrow> 32 word \<Rightarrow> int \<Rightarrow> int \<Rightarrow> nat \<Rightarrow> stream_obj \<Rightarrow> int \<times> stream_obj" where
  "mm_stream_map_buf_ops E = mm_stream_map_buf E CAM_MAPPING_BUF_TYPE_STREAM_BUF"

definition mm_stream_unmap_buf_ops :: "env \<Rightarrow> 32 word \<Rightarrow> int \<Rightarrow> stream_obj \<Rightarrow> int \<times> stream_obj" where
  "mm_stream_unmap_buf_ops E = mm_stream_unmap_buf E CAM_MAPPING_BUF_TYPE_STREAM_BUF"

section \<open>The state machine\<close>

definition enter :: "mm_stream_state \<Rightarrow> int \<times> stream_obj \<Rightarrow> int \<times> stream_obj" where
  "enter s r = (fst r, (snd r)\<lparr>s_state := s\<rparr>)"

definition enter_if_ok :: "mm_stream_state \<Rightarrow> int \<times> stream_obj \<Rightarrow> int \<times> stream_obj" where
  "enter_if_ok s r = (if fst r = 0 then enter s r else r)"

definition mm_stream_fsm_inited :: "env \<Rightarrow> mm_stream_evt \<Rightarrow> stream_obj \<Rightarrow> int \<times> stream_obj" where
  "mm_stream_fsm_inited E evt st =
    (if \<not> e_dev_name E then (-1, st)
     else case evt of
       MM_STREAM_EVT_ACQUIRE \<Rightarrow>
         let (fd, st) = ask E Sys_open st; st = st\<lparr>s_fd := fd\<rparr> in
         if fd \<le> 0 then (-1, st)
         else
           let (rc, st) = mm_stream_set_ext_mode E st in
           if rc = 0 then (rc, st\<lparr>s_state := MM_STREAM_STATE_ACQUIRED\<rparr>)
           else (rc, (tell E (Sys_close fd) st)\<lparr>s_fd := 0\<rparr>)
     | _ \<Rightarrow> (0, st))"

definition mm_stream_fsm_acquired :: "env \<Rightarrow> mm_stream_evt \<Rightarrow> stream_obj \<Rightarrow> (int \<times> stream_obj) option" where
  "mm_stream_fsm_acquired E evt st =
    (case evt of
       MM_STREAM_EVT_SET_FMT c \<Rightarrow> map_option (enter MM_STREAM_STATE_CFG) (mm_stream_config E c st)
     | MM_STREAM_EVT_RELEASE \<Rightarrow> Some (enter MM_STREAM_STATE_NOTUSED (mm_stream_release E st))
     | MM_STREAM_EVT_SET_PARM p \<Rightarrow> Some (stream_parm E Ctrl_s_stream_parm p st)
     | MM_STREAM_EVT_GET_PARM p \<Rightarrow> Some (stream_parm E Ctrl_g_stream_parm p st)
     | _ \<Rightarrow> Some (0, st))"

definition mm_stream_fsm_cfg :: "env \<Rightarrow> mm_stream_evt \<Rightarrow> stream_obj \<Rightarrow> (int \<times> stream_obj) option" where
  "mm_stream_fsm_cfg E evt st =
    (case evt of
       MM_STREAM_EVT_SET_FMT c \<Rightarrow> map_option (enter MM_STREAM_STATE_CFG) (mm_stream_config E c st)
     | MM_STREAM_EVT_RELEASE \<Rightarrow> Some (enter MM_STREAM_STATE_NOTUSED (mm_stream_release E st))
     | MM_STREAM_EVT_SET_PARM p \<Rightarrow> Some (stream_parm E Ctrl_s_stream_parm p st)
     | MM_STREAM_EVT_GET_PARM p \<Rightarrow> Some (stream_parm E Ctrl_g_stream_parm p st)
     | MM_STREAM_EVT_GET_BUF \<Rightarrow> map_option (enter_if_ok MM_STREAM_STATE_BUFFED) (mm_stream_init_bufs E st)
     | _ \<Rightarrow> Some (0, st))"

definition mm_stream_fsm_buffed :: "env \<Rightarrow> mm_stream_evt \<Rightarrow> stream_obj \<Rightarrow> (int \<times> stream_obj) option" where
  "mm_stream_fsm_buffed E evt st =
    (case evt of
       MM_STREAM_EVT_PUT_BUF \<Rightarrow> Some (enter MM_STREAM_STATE_CFG (mm_stream_deinit_bufs E st))
     | MM_STREAM_EVT_REG_BUF \<Rightarrow> map_option (enter_if_ok MM_STREAM_STATE_REG) (mm_stream_reg_buf E st)
     | MM_STREAM_EVT_SET_PARM p \<Rightarrow> Some (stream_parm E Ctrl_s_stream_parm p st)
     | MM_STREAM_EVT_GET_PARM p \<Rightarrow> Some (stream_parm E Ctrl_g_stream_parm p st)
     | _ \<Rightarrow> Some (0, st))"

definition stream_start :: "env \<Rightarrow> stream_obj \<Rightarrow> (int \<times> stream_obj) option" where
  "stream_start E st =
    (let hc = has_cb st;
         st = (if hc then mm_camera_cmd_thread_launch st else st)\<lparr>s_state := MM_STREAM_STATE_ACTIVE\<rparr>;
         (rc, st) = mm_stream_streamon E st in
     if rc \<noteq> 0 then
       (if hc then map_option snd (mm_camera_cmd_thread_release E st) else Some st) \<bind>
       (\<lambda>st. Some (rc, st\<lparr>s_state := MM_STREAM_STATE_REG\<rparr>))
     else Some (rc, st))"

definition stream_stop :: "env \<Rightarrow> stream_obj \<Rightarrow> (int \<times> stream_obj) option" where
  "stream_stop E st =
    (let (rc, st) = mm_stream_streamoff E st in
     (if has_cb st then map_option snd (mm_camera_cmd_thread_release E st) else Some st) \<bind>
     (\<lambda>st. Some (rc, st\<lparr>s_state := MM_STREAM_STATE_REG\<rparr>)))"

definition mm_stream_fsm_reg :: "env \<Rightarrow> mm_stream_evt \<Rightarrow> stream_obj \<Rightarrow> (int \<times> stream_obj) option" where
  "mm_stream_fsm_reg E evt st =
    (case evt of
       MM_STREAM_EVT_UNREG_BUF \<Rightarrow> Some (enter MM_STREAM_STATE_BUFFED (mm_stream_unreg_buf E st))
     | MM_STREAM_EVT_START \<Rightarrow> stream_start E st
     | MM_STREAM_EVT_SET_PARM p \<Rightarrow> Some (stream_parm E Ctrl_s_stream_parm p st)
     | MM_STREAM_EVT_GET_PARM p \<Rightarrow> Some (stream_parm E Ctrl_g_stream_parm p st)
     | _ \<Rightarrow> Some (0, st))"

definition mm_stream_fsm_active :: "env \<Rightarrow> mm_stream_evt \<Rightarrow> stream_obj \<Rightarrow> (int \<times> stream_obj) option" where
  "mm_stream_fsm_active E evt st =
    (case evt of
       MM_STREAM_EVT_QBUF b \<Rightarrow> mm_stream_buf_done E b st
     | MM_STREAM_EVT_GET_QUEUED_BUF_COUNT \<Rightarrow> Some (mm_stream_get_queued_buf_count st, st)
     | MM_STREAM_EVT_STOP \<Rightarrow> stream_stop E st
     | MM_STREAM_EVT_SET_PARM p \<Rightarrow> Some (stream_parm E Ctrl_s_stream_parm p st)
     | MM_STREAM_EVT_GET_PARM p \<Rightarrow> Some (stream_parm E Ctrl_g_stream_parm p st)
     | MM_STREAM_EVT_DO_ACTION p \<Rightarrow> Some (stream_parm E Ctrl_s_stream_parm p st)
     | _ \<Rightarrow> Some (0, st))"

definition mm_stream_fsm_fn :: "env \<Rightarrow> mm_stream_evt \<Rightarrow> stream_obj \<Rightarrow> (int \<times> stream_obj) option" where
  "mm_stream_fsm_fn E evt st =
    (case s_state st of
       MM_STREAM_STATE_NOTUSED \<Rightarrow> Some (-1, st)
     | MM_STREAM_STATE_INITED \<Rightarrow> Some (mm_stream_fsm_inited E evt st)
     | MM_STREAM_STATE_ACQUIRED \<Rightarrow> mm_stream_fsm_acquired E evt st
     | MM_STREAM_STATE_CFG \<Rightarrow> mm_stream_fsm_cfg E evt st
     | MM_STREAM_STATE_BUFFED \<Rightarrow> mm_stream_fsm_buffed E evt st
     | MM_STREAM_STATE_REG \<Rightarrow> mm_stream_fsm_reg E evt st
     | MM_STREAM_STATE_ACTIVE \<Rightarrow> mm_stream_fsm_active E evt st)"

end
