(* ===== verification/MmStreamInv.thy ===== *)
theory MmStreamInv
  imports MmStream "HOL-Library.Multiset"
begin

text \<open>
  What the operations of a running stream do to its buffers. The calls recorded in \<open>s_log\<close> say which
  buffers the driver has (\<open>driver_bufs\<close>); \<open>handed\<close> counts the references the stream has given to its
  channel, to a linked channel and to callbacks. The invariant \<open>own\<close> relates both to the reference
  counts: a buffer in the driver has no reference. Each operation has one lemma on its effect and one
  on the invariant.
\<close>

section \<open>The buffers the driver has\<close>

fun driver_step :: "stream_call \<times> int \<Rightarrow> 32 word list \<Rightarrow> 32 word list" where
  "driver_step (Io_QBUF i, rc) k = (if rc < 0 then k else k @ [i])"
| "driver_step (Io_DQBUF i, rc) k = (if rc < 0 then k else remove1 i k)"
| "driver_step (Io_REQBUFS n, rc) k = (if rc < 0 then k else [])"
| "driver_step (Io_STREAMOFF, rc) k = (if rc < 0 then k else [])"
| "driver_step (Sys_close fd, rc) k = []"
| "driver_step _ k = k"

definition driver_bufs :: "stream_log \<Rightarrow> 32 word list" where
  "driver_bufs log = fold driver_step log []"

lemma driver_bufs_append [simp]: "driver_bufs (log @ xs) = fold driver_step xs (driver_bufs log)"
  by (simp add: driver_bufs_def)

definition static ::
  "stream_obj \<Rightarrow> (32 word \<times> 32 word \<times> int \<times> mm_stream_state \<times> cam_stream_info option \<times> bool \<times>
     mm_stream_data_cb list) \<times> 8 word \<times> bool \<times> bool \<times> mm_camera_stream_mem_vtbl" where
  "static st = ((s_my_hdl st, s_server_stream_id st, s_fd st, s_state st, s_stream_info st, s_cmd_active st,
     s_buf_cb st), s_buf_num st, s_is_bundled st, s_is_linked st, s_mem_vtbl st)"

lemma ask_eq: "ask E c st = (e_rc E (s_log st) c, st\<lparr>s_log := s_log st @ [(c, e_rc E (s_log st) c)]\<rparr>)"
  by (simp add: ask_def Let_def)

lemma tell_eq: "tell E c st = st\<lparr>s_log := s_log st @ [(c, e_rc E (s_log st) c)]\<rparr>"
  by (simp add: tell_def ask_eq)

lemma static_simps [simp]:
  "static (st\<lparr>s_log := l\<rparr>) = static st" "static (st\<lparr>s_queued_buffer_count := q\<rparr>) = static st"
  "static (st\<lparr>s_buf_status := b\<rparr>) = static st" "static (st\<lparr>s_buf := u\<rparr>) = static st"
  "static (st\<lparr>s_cmds := c\<rparr>) = static st" "static (st\<lparr>s_to_channel := t\<rparr>) = static st"
  "static (st\<lparr>s_to_linked := t\<rparr>) = static st" "static (st\<lparr>s_given := g\<rparr>) = static st"
  "static (st\<lparr>s_previewSkipCnt := p\<rparr>) = static st"
  by (simp_all add: static_def)

text \<open>The references handed out so far, by the index of the buffer.\<close>

definition info_idx :: "mm_camera_buf_info \<Rightarrow> 32 word" where
  "info_idx bi = bd_buf_idx (the (bi_buf bi))"

definition handed :: "stream_obj \<Rightarrow> 32 word multiset" where
  "handed st = mset (map info_idx (s_to_channel st)) + mset (map info_idx (s_to_linked st)) +
     mset (map (bd_buf_idx \<circ> snd) (s_given st))"

definition queued_refs :: "stream_obj \<Rightarrow> 32 word \<Rightarrow> nat" where
  "queued_refs st i = count (mset (map info_idx (s_cmds st))) i"

text \<open>What a call leaves as it is, but for the driver's queue.\<close>

definition same_refs :: "stream_obj \<Rightarrow> stream_obj \<Rightarrow> bool" where
  "same_refs st st' \<longleftrightarrow> static st' = static st \<and> s_cmds st' = s_cmds st \<and> handed st' = handed st \<and>
     s_previewSkipCnt st' = s_previewSkipCnt st"

lemma qbuf_effect:
  assumes "mm_stream_qbuf E b st = (rc, st')"
  shows "same_refs st st'" "s_buf st' = s_buf st" "s_buf_status st' = s_buf_status st"
    "driver_bufs (s_log st') = driver_bufs (s_log st) @ (if rc < 0 then [] else [bd_buf_idx b])"
    "s_queued_buffer_count st' = s_queued_buffer_count st + (if rc < 0 then 0 else 1)"
  using assms
  by (auto simp: mm_stream_qbuf_def Let_def ask_eq tell_eq same_refs_def handed_def split: if_splits)

section \<open>A stream with its buffers\<close>

definition cmd_in :: "nat \<Rightarrow> mm_camera_buf_info \<Rightarrow> bool" where
  "cmd_in n bi \<longleftrightarrow> bi_buf bi \<noteq> None \<and> unat (info_idx bi) < n"

definition bufs_in :: "nat \<Rightarrow> stream_obj \<Rightarrow> bool" where
  "bufs_in n st \<longleftrightarrow> (\<exists>bs l. s_buf st = Some bs \<and> s_buf_status st = Some l \<and> length bs = n \<and> length l = n \<and>
     (\<forall>i < n. bd_buf_idx (bs ! i) = of_nat i))"

definition cbs_ok :: "mm_stream_data_cb list \<Rightarrow> bool" where
  "cbs_ok cs \<longleftrightarrow> length cs = MM_CAMERA_STREAM_BUF_CB_MAX \<and> list_all (\<lambda>c. cb c \<noteq> None \<longrightarrow> cb_count c = -1) cs"

definition live :: "nat \<Rightarrow> stream_obj \<Rightarrow> bool" where
  "live n st \<longleftrightarrow> n \<le> 24 \<and> bufs_in n st \<and> cbs_ok (s_buf_cb st) \<and> list_all (cmd_in n) (s_cmds st) \<and>
     list_all (\<lambda>i. unat i < n) (driver_bufs (s_log st)) \<and> s_stream_info st \<noteq> None"

definition stat :: "stream_obj \<Rightarrow> 32 word \<Rightarrow> mm_stream_buf_status" where
  "stat st i = the (get_status i st)"

lemma live_get_status: "live n st \<Longrightarrow> unat i < n \<Longrightarrow> get_status i st = Some (stat st i)"
  by (auto simp: live_def bufs_in_def get_status_def stat_def)

lemma unat_eq: "unat (i :: 32 word) = unat j \<longleftrightarrow> i = j"
  by (auto intro: unsigned_word_eqI)

lemma upd_status_live:
  assumes "live n st" "unat i < n"
  shows "returns (upd_status i f st) (\<lambda>st'. live n st' \<and> same_refs st st' \<and> s_log st' = s_log st \<and>
    s_buf st' = s_buf st \<and> s_queued_buffer_count st' = s_queued_buffer_count st \<and> stat st' = (stat st)(i := f (stat st i)))"
proof -
  obtain bs l where l: "s_buf st = Some bs" "s_buf_status st = Some l" "length bs = n" "length l = n"
    "\<forall>i < n. bd_buf_idx (bs ! i) = of_nat i"
    using assms(1) by (auto simp: live_def bufs_in_def)
  have "stat (st\<lparr>s_buf_status := Some (l[unat i := f (l ! unat i)])\<rparr>) = (stat st)(i := f (stat st i))"
    using l assms(2) by (auto simp: stat_def get_status_def fun_eq_iff nth_list_update unat_eq)
  then show ?thesis
    using assms l by (simp add: upd_status_def live_def bufs_in_def same_refs_def handed_def static_def)
qed

definition refs :: "stream_obj \<Rightarrow> (32 word \<Rightarrow> int) \<Rightarrow> 32 word \<Rightarrow> int" where
  "refs st base i = int (count (handed st) i + queued_refs st i) + base i"

text \<open>The references to a buffer are at most its count, which is at most seven, also when the commands
  of the stream have been dispatched; a buffer in the driver has none. \<open>strict\<close> says that no call
  fails: then the count is exact and a buffer without references is in the driver.\<close>

definition count_ok :: "bool \<Rightarrow> (32 word \<Rightarrow> int) \<Rightarrow> stream_obj \<Rightarrow> 32 word \<Rightarrow> bool" where
  "count_ok strict base st i \<longleftrightarrow> (let b = stat st i; k = set (driver_bufs (s_log st)) in
     refs st base i \<le> uint (buf_refcnt b) \<and>
     unat (buf_refcnt b) + 4 * queued_refs st i \<le> 7 \<and>
     (i \<in> k \<longrightarrow> in_kernel b \<and> buf_refcnt b = 0) \<and>
     (strict \<longrightarrow> refs st base i = uint (buf_refcnt b) \<and> (buf_refcnt b = 0 \<longrightarrow> i \<in> k)))"

definition own :: "bool \<Rightarrow> nat \<Rightarrow> (32 word \<Rightarrow> int) \<Rightarrow> stream_obj \<Rightarrow> bool" where
  "own strict n base st \<longleftrightarrow> (\<forall>i. unat i < n \<longrightarrow> count_ok strict base st i) \<and>
     distinct (driver_bufs (s_log st)) \<and> unat (s_queued_buffer_count st) = length (driver_bufs (s_log st))"

lemma own_slot: "own strict n base st \<Longrightarrow> unat i < n \<Longrightarrow> count_ok strict base st i"
  by (simp add: own_def)

lemma driver_bufs_length:
  assumes "live n st" "own strict n base st"
  shows "length (driver_bufs (s_log st)) \<le> 24"
proof -
  let ?k = "driver_bufs (s_log st)"
  have "inj_on unat (set ?k)" by (simp add: inj_on_def unat_eq)
  moreover have "unat ` set ?k \<subseteq> {..<n}"
    using assms(1) by (auto simp: live_def list_all_iff)
  ultimately have "card (set ?k) \<le> n"
    using card_inj_on_le [of unat "set ?k" "{..<n}"] by simp
  then show ?thesis
    using assms by (simp add: own_def live_def distinct_card)
qed

text \<open>What the environment promises: the driver returns only buffers it has, and the exit command of
  the command thread finds memory. A reliable environment fails in nothing that takes a buffer.\<close>

definition driver_ok :: "env \<Rightarrow> bool" where
  "driver_ok E \<longleftrightarrow> (\<forall>log. 0 \<le> e_rc E log (Io_DQBUF (fst (e_frame E log))) \<longrightarrow>
     fst (e_frame E log) \<in> set (driver_bufs log))"

definition exit_ok :: "env \<Rightarrow> bool" where
  "exit_ok E \<longleftrightarrow> (\<forall>log. e_rc E log Malloc_exit \<noteq> 0 \<and> e_rc E log Malloc_exit_node \<noteq> 0)"

definition reliable :: "env \<Rightarrow> bool" where
  "reliable E \<longleftrightarrow> (\<forall>log i. e_rc E log (Io_QBUF i) = 0 \<and> 0 \<le> e_rc E log (Mem_invalidate i) \<and>
     e_rc E log (Io_DQBUF i) \<le> 0 \<and> e_rc E log (Mem_clean_invalidate i) = 0 \<and>
     e_rc E log Malloc_cmd \<noteq> 0 \<and> e_rc E log Malloc_node \<noteq> 0)"

lemma reliableD:
  assumes "reliable E"
  shows "e_rc E log (Io_QBUF i) = 0" "\<not> e_rc E log (Mem_invalidate i) < 0" "e_rc E log (Io_DQBUF i) \<le> 0"
    "e_rc E log (Mem_clean_invalidate i) = 0" "e_rc E log Malloc_cmd \<noteq> 0" "e_rc E log Malloc_node \<noteq> 0"
  using assms by (auto simp: reliable_def not_less)

lemma reliable_qbuf: "reliable E \<Longrightarrow> mm_stream_qbuf E b st = (rc, st') \<Longrightarrow> rc = 0"
  by (auto simp: mm_stream_qbuf_def Let_def ask_eq tell_eq reliableD split: if_splits)

section \<open>Giving a reference back\<close>

text \<open>An operation on one buffer: the others are as before.\<close>

lemma own_update:
  assumes "own strict n base st"
    and "\<And>j. j \<noteq> i \<Longrightarrow> base' j = base j \<and> count (handed st') j = count (handed st) j \<and>
      queued_refs st' j = queued_refs st j \<and> stat st' j = stat st j \<and>
      (j \<in> set (driver_bufs (s_log st')) \<longleftrightarrow> j \<in> set (driver_bufs (s_log st)))"
    and "count_ok strict base' st' i"
    and "distinct (driver_bufs (s_log st'))"
      "unat (s_queued_buffer_count st') = length (driver_bufs (s_log st'))"
  shows "own strict n base' st'"
proof -
  have "count_ok strict base' st' j" if "unat j < n" for j
  proof (cases "j = i")
    case False
    then show ?thesis
      using own_slot [OF assms(1) that] assms(2) [OF False] by (simp add: count_ok_def refs_def Let_def)
  qed (simp add: assms(3))
  then show ?thesis using assms(4,5) by (simp add: own_def)
qed

lemma same_refs_simps:
  assumes "same_refs st st'"
  shows "static st' = static st" "s_cmds st' = s_cmds st" "handed st' = handed st"
    "queued_refs st' = queued_refs st" "refs st' = refs st"
  using assms by (auto simp: same_refs_def queued_refs_def refs_def fun_eq_iff)

lemma same_refs_refl [simp]: "same_refs st st" and same_refs_trans: "same_refs a b \<Longrightarrow> same_refs b c \<Longrightarrow> same_refs a c"
  by (auto simp: same_refs_def)

lemma staticD:
  assumes "static st' = static st"
  shows "s_my_hdl st' = s_my_hdl st" "s_state st' = s_state st" "s_fd st' = s_fd st"
    "s_stream_info st' = s_stream_info st" "s_cmd_active st' = s_cmd_active st" "s_buf_cb st' = s_buf_cb st"
    "s_buf_num st' = s_buf_num st" "s_is_bundled st' = s_is_bundled st" "s_is_linked st' = s_is_linked st"
    "s_mem_vtbl st' = s_mem_vtbl st"
  using assms by (simp_all add: static_def)

lemma live_same:
  assumes "live n st" "same_refs st st'" "s_buf st' = s_buf st" "s_buf_status st' = s_buf_status st"
    "set (driver_bufs (s_log st')) \<subseteq> insert i (set (driver_bufs (s_log st)))" "unat i < n"
  shows "live n st'"
  using assms staticD [of st' st] by (auto simp: live_def bufs_in_def same_refs_def list_all_iff)

lemma stat_same: "s_buf_status st' = s_buf_status st \<Longrightarrow> stat st' = stat st"
  by (simp add: stat_def get_status_def fun_eq_iff)

text \<open>A buffer nobody has goes to the driver.\<close>

lemma qbuf_last:
  assumes st: "live n st" "unat i < n" and i: "bd_buf_idx b = i"
    and qb: "mm_stream_qbuf E b st = (rc, st1)" "\<not> rc < 0"
  shows "returns (upd_status i (\<lambda>b. b\<lparr>in_kernel := True\<rparr>) st1) (\<lambda>st2. live n st2 \<and> same_refs st st2 \<and>
    s_buf st2 = s_buf st \<and> driver_bufs (s_log st2) = driver_bufs (s_log st) @ [i] \<and>
    s_queued_buffer_count st2 = s_queued_buffer_count st + 1 \<and>
    stat st2 = (stat st)(i := (stat st i)\<lparr>in_kernel := True\<rparr>))"
proof -
  note q = qbuf_effect [OF qb(1)]
  have l1: "live n st1" using st i q qb(2) by (intro live_same [OF st(1) q(1-3) _ st(2)]) auto
  show ?thesis
    using upd_status_live [OF l1 st(2), of "\<lambda>b. b\<lparr>in_kernel := True\<rparr>"] q i qb(2) stat_same [OF q(3)]
    by (auto elim!: returns_mono intro: same_refs_trans)
qed

lemma unat_minus_one_8: "(w :: 8 word) \<noteq> 0 \<Longrightarrow> unat (w - 1) = unat w - 1"
  by (rule unat_minus_one)

lemma uint_unat_8: "uint (w :: 8 word) = int (unat w)"
  by simp

lemma unat_plus_8: "unat q \<le> 24 \<Longrightarrow> unat (q + 1 :: 8 word) = unat q + 1"
  using unat_add_lem [of q 1] by simp

lemma buf_done_live:
  assumes st: "live n st" and i: "i = bd_buf_idx b" "unat i < n"
  shows "returns (mm_stream_buf_done E b st) (\<lambda>(rc, st'). live n st' \<and> same_refs st st' \<and>
    (\<forall>strict base. own strict n (base(i := base i + 1)) st \<longrightarrow>
       (strict \<longrightarrow> reliable E \<and> 0 \<le> refs st base i) \<longrightarrow> own strict n base st'))"
proof -
  let ?own = "\<lambda>st'. \<forall>strict base. own strict n (base(i := base i + 1)) st \<longrightarrow>
       (strict \<longrightarrow> reliable E \<and> 0 \<le> refs st base i) \<longrightarrow> own strict n base st'"
  note g = live_get_status [OF st i(2)]
  show ?thesis
  proof (cases "buf_refcnt (stat st i) = 0")
    case True
    have "?own st"
    proof (intro allI impI)
      fix strict base
      assume o: "own strict n (base(i := base i + 1)) st" and r: "strict \<longrightarrow> reliable E \<and> 0 \<le> refs st base i"
      note s = own_slot [OF o i(2)]
      show "own strict n base st"
        by (rule own_update [OF o, of i])
          (use s r True o in \<open>auto simp: count_ok_def refs_def Let_def own_def\<close>)
    qed
    then show ?thesis
      using st g i True by (simp add: mm_stream_buf_done_def)
  next
    case False
    let ?dec = "\<lambda>b. b\<lparr>buf_refcnt := buf_refcnt b - 1\<rparr>"
    obtain st1 where u1: "upd_status i ?dec st = Some st1" and l1: "live n st1" "same_refs st st1"
      "s_log st1 = s_log st" "s_buf st1 = s_buf st" "s_queued_buffer_count st1 = s_queued_buffer_count st"
      "stat st1 = (stat st)(i := ?dec (stat st i))"
      using upd_status_live [OF st i(2), of ?dec] by (auto simp: returns_iff)
    note rs = same_refs_simps [OF l1(2)]
    have dec: "unat (buf_refcnt (stat st i) - 1) = unat (buf_refcnt (stat st i)) - 1"
      "0 < unat (buf_refcnt (stat st i))"
      using False by (simp_all add: unat_minus_one_8 unat_gt_0)
    show ?thesis
    proof (cases "buf_refcnt (stat st i) - 1 = 0")
      case False
      have "?own st1"
      proof (intro allI impI)
        fix strict base
        assume o: "own strict n (base(i := base i + 1)) st"
          and r: "strict \<longrightarrow> reliable E \<and> 0 \<le> refs st base i"
        note s = own_slot [OF o i(2)]
        have "count_ok strict base st1 i"
          using s dec False
          unfolding count_ok_def Let_def l1(3,6) rs(4,5) refs_def uint_unat_8 by (auto simp: rs)
        then show "own strict n base st1"
          by (rule own_update [OF o, of i, rotated]) (use o l1 rs in \<open>auto simp: own_def\<close>)
      qed
      then show ?thesis
        using g i u1 False \<open>buf_refcnt (stat st i) \<noteq> 0\<close> l1 by (simp add: mm_stream_buf_done_def)
    next
      case True
      obtain rc st2 where qb: "mm_stream_qbuf E b st1 = (rc, st2)" by fastforce
      note q = qbuf_effect [OF qb]
      have rc1: "buf_refcnt (stat st i) = 1" using True by simp
      show ?thesis
      proof (cases "rc < 0")
        case rc: True
        have l2: "live n st2"
          using i q by (intro live_same [OF l1(1) q(1-3) _ i(2)]) auto
        have "?own st2"
        proof (intro allI impI)
          fix strict base
          assume o: "own strict n (base(i := base i + 1)) st"
            and r: "strict \<longrightarrow> reliable E \<and> 0 \<le> refs st base i"
          note s = own_slot [OF o i(2)]
          have ns: "\<not> strict" using r rc reliable_qbuf [OF _ qb] by auto
          note rs2 = same_refs_simps [OF q(1)]
          have "count_ok strict base st2 i"
            using s dec ns rc q(4) rc1
            unfolding count_ok_def Let_def rs2(4,5) stat_same [OF q(3)] l1(3,6) rs(4,5) refs_def uint_unat_8
            by auto
          then show "own strict n base st2"
            by (rule own_update [OF o, of i, rotated])
              (use o l1 rs rs2 q rc stat_same [OF q(3)] in \<open>auto simp: own_def\<close>)
        qed
        then show ?thesis
          using g i u1 rc qb rc1 l1 l2 q(1) same_refs_trans [OF l1(2)]
          by (simp add: mm_stream_buf_done_def)
      next
        case rc: False
        obtain st3 where u3: "upd_status i (\<lambda>b. b\<lparr>in_kernel := True\<rparr>) st2 = Some st3"
          and l3: "live n st3" "same_refs st1 st3" "driver_bufs (s_log st3) = driver_bufs (s_log st1) @ [i]"
            "s_queued_buffer_count st3 = s_queued_buffer_count st1 + 1"
            "stat st3 = (stat st1)(i := (stat st1 i)\<lparr>in_kernel := True\<rparr>)"
          using qbuf_last [OF l1(1) i(2) i(1) [symmetric] qb rc] by (auto simp: returns_iff)
        note rs3 = same_refs_simps [OF same_refs_trans [OF l1(2) l3(2)]]
        have "?own st3"
        proof (intro allI impI)
          fix strict base
          assume o: "own strict n (base(i := base i + 1)) st"
            and r: "strict \<longrightarrow> reliable E \<and> 0 \<le> refs st base i"
          note s = own_slot [OF o i(2)]
          have k: "i \<notin> set (driver_bufs (s_log st))" using s rc1 by (simp add: count_ok_def Let_def)
          have len: "unat (s_queued_buffer_count st + 1) = unat (s_queued_buffer_count st) + 1"
            using driver_bufs_length [OF st o] o by (intro unat_plus_8) (simp add: own_def)
          have "count_ok strict base st3 i"
            using s rc1
            unfolding count_ok_def Let_def rs3(4,5) l3(3,5) l1(3,6) refs_def uint_unat_8 by auto
          then show "own strict n base st3"
            by (rule own_update [OF o, of i, rotated])
              (use o l1 rs3 l3 k len in \<open>auto simp: own_def\<close>)
        qed
        then show ?thesis
          using g i u1 u3 rc qb rc1 l3(1) same_refs_trans [OF l1(2) l3(2)]
          by (simp add: mm_stream_buf_done_def)
      qed
    qed
  qed
qed

section \<open>A received frame\<close>

text \<open>Everything but the counts and what has been handed out.\<close>

definition rest :: "stream_obj \<Rightarrow> _ " where
  "rest st = (static st, s_cmds st, s_buf st, driver_bufs (s_log st), s_queued_buffer_count st, s_previewSkipCnt st)"

lemma live_rest:
  assumes "live n st" "rest st' = rest st" "s_buf_status st' = s_buf_status st"
  shows "live n st'"
  using assms staticD [of st' st] by (simp add: live_def bufs_in_def rest_def)

lemma notify_effect:
  assumes "mm_stream_notify_channel E t bi st = (rc, st')"
  obtains a where "a \<le> 1" "reliable E \<Longrightarrow> a = 1" "rest st' = rest st" "s_buf_status st' = s_buf_status st"
    "handed st' = handed st + replicate_mset a (info_idx bi)"
proof
  let ?a = "if handed st' = handed st then 0 else 1 :: nat"
  show "?a \<le> 1" "rest st' = rest st" "s_buf_status st' = s_buf_status st"
    "handed st' = handed st + replicate_mset ?a (info_idx bi)" "reliable E \<Longrightarrow> ?a = 1"
    using assms
    by (auto simp: mm_stream_notify_channel_def Let_def ask_eq rest_def handed_def reliableD
        split: if_splits notify_target.splits)
qed

lemma read_frame:
  assumes st: "live n st" and "driver_ok E"
  shows "returns (mm_stream_read_msm_frame E st) (\<lambda>(rc, bi, st'). live n st' \<and> same_refs st st' \<and>
    s_buf_status st' = s_buf_status st \<and>
    (rc < 0 \<and> driver_bufs (s_log st') = driver_bufs (s_log st) \<and> s_queued_buffer_count st' = s_queued_buffer_count st \<or>
     (\<exists>b i. bi_buf bi = Some b \<and> bd_buf_idx b = i \<and> i \<in> set (driver_bufs (s_log st)) \<and>
       driver_bufs (s_log st') = remove1 i (driver_bufs (s_log st)) \<and>
       s_queued_buffer_count st' = s_queued_buffer_count st - 1 \<and> (reliable E \<longrightarrow> rc = 0))))"
proof -
  obtain i seqn where f: "e_frame E (s_log st) = (i, seqn)" by fastforce
  obtain bs l where bs: "s_buf st = Some bs" "s_buf_status st = Some l" "length bs = n" "length l = n"
    "\<forall>i < n. bd_buf_idx (bs ! i) = of_nat i"
    using st by (auto simp: live_def bufs_in_def)
  show ?thesis
  proof (cases "e_rc E (s_log st) (Io_DQBUF i) < 0")
    case True
    then show ?thesis
      using f st by (simp add: mm_stream_read_msm_frame_def ask_eq same_refs_def handed_def live_def bufs_in_def
          static_def)
  next
    case False
    then have k: "i \<in> set (driver_bufs (s_log st))" "unat i < n"
      using assms f by (auto simp: driver_ok_def not_less live_def list_all_iff dest!: spec [of _ "s_log st"])
    have kr: "list_all (\<lambda>i. unat i < n) (remove1 i (driver_bufs (s_log st)))"
      using st by (auto simp: live_def list_all_iff dest: in_set_remove1 notin_set_remove1)
    have idx: "of_nat (unat i) = i" by simp
    show ?thesis
      using f False bs k kr st
      by (auto simp: mm_stream_read_msm_frame_def ask_eq tell_eq Let_def same_refs_def handed_def static_def
          live_def bufs_in_def nth_list_update reliableD(4) intro: antisym reliableD(3))
  qed
qed

lemma rest_upd_status:
  assumes "same_refs st st'" "s_log st' = s_log st" "s_buf st' = s_buf st"
    "s_queued_buffer_count st' = s_queued_buffer_count st"
  shows "rest st' = rest st"
  using assms by (simp add: rest_def same_refs_def)

lemma replicate_mset_add: "replicate_mset (a + c) i = replicate_mset a i + replicate_mset c i"
  by (rule multiset_eqI) simp

definition shares :: "stream_obj \<Rightarrow> nat" where
  "shares st = of_bool (s_is_bundled st) + of_bool (s_is_linked st)"

lemma rcvd_steps:
  assumes st: "live n st" and bi: "bi_buf bi = Some buf" "bd_buf_idx buf = i" "unat i < n"
  shows "returns (rcvd_linked E bi buf (rcvd_bundled E bi st)) (\<lambda>st'. live n st' \<and> rest st' = rest st \<and>
    stat st' = (stat st)(i := (stat st i)\<lparr>buf_refcnt := buf_refcnt (stat st i) + of_bool (s_is_linked st)\<rparr>) \<and>
    (\<exists>a \<le> shares st. (reliable E \<longrightarrow> a = shares st) \<and> handed st' = handed st + replicate_mset a i))"
proof -
  have idx: "info_idx bi = i" using bi by (simp add: info_idx_def)
  let ?st1 = "rcvd_bundled E bi st"
  obtain a where a: "a \<le> of_bool (s_is_bundled st)" "reliable E \<longrightarrow> a = of_bool (s_is_bundled st)"
    and r1: "rest ?st1 = rest st" "s_buf_status ?st1 = s_buf_status st"
      "handed ?st1 = handed st + replicate_mset a i"
  proof (cases "s_is_bundled st")
    case True
    obtain rc st1 where nt: "mm_stream_notify_channel E To_channel bi st = (rc, st1)" by fastforce
    then have "?st1 = st1" using True by (simp add: rcvd_bundled_def)
    with notify_effect [OF nt] show ?thesis
      using that True idx by (metis of_bool_eq(2))
  qed (use that [of 0] in \<open>simp add: rcvd_bundled_def\<close>)
  have l1: "live n ?st1" by (rule live_rest [OF st r1(1,2)])
  have lk: "s_is_linked ?st1 = s_is_linked st"
    using r1(1) staticD(9) [of ?st1 st] by (simp add: rest_def)
  show ?thesis
  proof (cases "s_is_linked st")
    case False
    then show ?thesis
      using l1 r1 a lk stat_same [OF r1(2)]
      by (auto simp: rcvd_linked_def shares_def intro!: exI [of _ a])
  next
    case True
    obtain st2 where u: "add_ref i ?st1 = Some st2" and l2: "live n st2" "same_refs ?st1 st2"
      "s_log st2 = s_log ?st1" "s_buf st2 = s_buf ?st1"
      "s_queued_buffer_count st2 = s_queued_buffer_count ?st1"
      "stat st2 = (stat ?st1)(i := (stat ?st1 i)\<lparr>buf_refcnt := buf_refcnt (stat ?st1 i) + 1\<rparr>)"
      using upd_status_live [OF l1 bi(3), of "\<lambda>b. b\<lparr>buf_refcnt := buf_refcnt b + 1\<rparr>"]
      by (auto simp: returns_iff add_ref_def)
    obtain rc st3 where nt: "mm_stream_notify_channel E To_linked bi st2 = (rc, st3)" by fastforce
    obtain c where c: "c \<le> 1" "reliable E \<Longrightarrow> c = 1" "rest st3 = rest st2" "s_buf_status st3 = s_buf_status st2"
      "handed st3 = handed st2 + replicate_mset c i"
      using notify_effect [OF nt] idx by metis
    have "live n st3" by (rule live_rest [OF l2(1) c(3,4)])
    moreover have "rest st3 = rest st"
      using rest_upd_status [OF l2(2-5)] r1(1) c(3) by simp
    moreover have "handed st3 = handed st + replicate_mset (a + c) i"
      using c(5) l2(2) r1(3) by (simp add: same_refs_def replicate_mset_add)
    ultimately show ?thesis
      using True u nt lk bi(2) a c l2(6) stat_same [OF r1(2)] stat_same [OF c(4)]
      by (auto simp: rcvd_linked_def shares_def intro!: exI [of _ "a + c"])
  qed
qed

lemma app_effect:
  obtains c where "c \<le> of_bool hc" "reliable E \<and> (hc \<longrightarrow> s_cmd_active st) \<longrightarrow> c = of_bool hc"
    "static (rcvd_app E bi hc st) = static st" "handed (rcvd_app E bi hc st) = handed st"
    "s_buf (rcvd_app E bi hc st) = s_buf st" "s_buf_status (rcvd_app E bi hc st) = s_buf_status st"
    "driver_bufs (s_log (rcvd_app E bi hc st)) = driver_bufs (s_log st)"
    "s_queued_buffer_count (rcvd_app E bi hc st) = s_queued_buffer_count st"
    "s_cmds (rcvd_app E bi hc st) = s_cmds st @ replicate c bi" "s_cmd_active st \<or> c = 0"
proof
  let ?c = "if s_cmds (rcvd_app E bi hc st) = s_cmds st then 0 else 1 :: nat"
  show "?c \<le> of_bool hc" "reliable E \<and> (hc \<longrightarrow> s_cmd_active st) \<longrightarrow> ?c = of_bool hc"
    "static (rcvd_app E bi hc st) = static st" "handed (rcvd_app E bi hc st) = handed st"
    "s_buf (rcvd_app E bi hc st) = s_buf st" "s_buf_status (rcvd_app E bi hc st) = s_buf_status st"
    "driver_bufs (s_log (rcvd_app E bi hc st)) = driver_bufs (s_log st)"
    "s_queued_buffer_count (rcvd_app E bi hc st) = s_queued_buffer_count st"
    "s_cmds (rcvd_app E bi hc st) = s_cmds st @ replicate ?c bi" "s_cmd_active st \<or> ?c = 0"
    by (auto simp: rcvd_app_def Let_def ask_eq handed_def reliableD)
qed

definition skip_ok :: "stream_obj \<Rightarrow> bool" where
  "skip_ok st \<longleftrightarrow> (skip_preview st = Some True \<longrightarrow> has_cb st)"

definition outside_ok :: "(32 word \<Rightarrow> int) \<Rightarrow> stream_obj \<Rightarrow> bool" where
  "outside_ok base st \<longleftrightarrow> (\<forall>i. 0 \<le> int (count (handed st) i) + base i)"

lemma own_cong:
  assumes "own strict n base st" "same_refs st st'" "s_buf_status st' = s_buf_status st"
    "driver_bufs (s_log st') = driver_bufs (s_log st)" "s_queued_buffer_count st' = s_queued_buffer_count st"
  shows "own strict n base st'"
  using assms same_refs_simps [OF assms(2)] stat_same [OF assms(3)]
  by (simp add: own_def count_ok_def Let_def)

text \<open>A buffer that has just come from the driver: nobody has a reference.\<close>

lemma own_fresh:
  assumes "own strict n base st" "outside_ok base st" "unat i < n" "i \<in> set (driver_bufs (s_log st))"
  shows "refs st base i = 0" "queued_refs st i = 0" "buf_refcnt (stat st i) = 0"
    "int (count (handed st) i) + base i = 0"
proof -
  have s: "refs st base i \<le> 0" "buf_refcnt (stat st i) = 0"
    using own_slot [OF assms(1,3)] assms(4) by (auto simp: count_ok_def Let_def)
  moreover have "0 \<le> int (count (handed st) i) + base i"
    using assms(2) by (simp add: outside_ok_def)
  ultimately show "refs st base i = 0" "queued_refs st i = 0" "buf_refcnt (stat st i) = 0"
    "int (count (handed st) i) + base i = 0"
    unfolding refs_def by linarith+
qed

lemma unat_8_small: "unat (of_bool a + of_bool b + of_bool c :: 8 word) = of_bool a + of_bool b + of_bool c"
  by (cases a; cases b; cases c) simp_all

text \<open>After a buffer has come from the driver and the references have been counted.\<close>

definition got_frame :: "env \<Rightarrow> stream_obj \<Rightarrow> 32 word \<Rightarrow> stream_obj \<Rightarrow> bool" where
  "got_frame E st i st' \<longleftrightarrow> i \<in> set (driver_bufs (s_log st)) \<and> static st' = static st \<and> s_cmds st' = s_cmds st \<and>
     s_previewSkipCnt st' = s_previewSkipCnt st \<and>
     driver_bufs (s_log st') = remove1 i (driver_bufs (s_log st)) \<and>
     s_queued_buffer_count st' = s_queued_buffer_count st - 1 \<and>
     stat st' = (stat st)(i := (stat st i)\<lparr>in_kernel := False, buf_refcnt := buf_refcnt (stat st i) +
       (of_bool (s_is_bundled st) + of_bool (s_is_linked st) + of_bool (has_cb st))\<rparr>) \<and>
     (\<exists>a \<le> shares st. (reliable E \<longrightarrow> a = shares st) \<and> handed st' = handed st + replicate_mset a i)"

definition notify_fits :: "bool \<Rightarrow> env \<Rightarrow> stream_obj \<Rightarrow> bool" where
  "notify_fits strict E st \<longleftrightarrow> (strict \<longrightarrow> reliable E \<and> (has_cb st \<longrightarrow> s_cmd_active st) \<and>
     (s_is_bundled st \<or> s_is_linked st \<or> has_cb st))"

lemma got_frame_own:
  assumes o: "own strict n base st" and out: "outside_ok base st" and n: "unat i < n" and st: "live n st"
    and g: "got_frame E st i st3" and fits: "notify_fits strict E st"
    and st': "static st' = static st3" "handed st' = handed st3" "s_buf_status st' = s_buf_status st3"
      "driver_bufs (s_log st') = driver_bufs (s_log st3)" "s_queued_buffer_count st' = s_queued_buffer_count st3"
      "s_cmds st' = s_cmds st3 @ replicate c bi" "info_idx bi = i"
    and c: "c \<le> of_bool (has_cb st)" and d: "c + d = of_bool (has_cb st) \<or> c + d \<le> of_bool (has_cb st) \<and> \<not> strict"
  shows "own strict n (base(i := base i + int d)) st'"
proof -
  note k = g [unfolded got_frame_def]
  note f = own_fresh [OF o out n conjunct1 [OF k]]
  obtain a where a: "a \<le> shares st" "reliable E \<longrightarrow> a = shares st" "handed st3 = handed st + replicate_mset a i"
    using k by blast
  note sm = stat_same [OF st'(3)]
  have q: "queued_refs st' i = c" "\<And>j. j \<noteq> i \<Longrightarrow> queued_refs st' j = queued_refs st j"
    using st'(6,7) k f(2) by (auto simp: queued_refs_def)
  have rc: "unat (buf_refcnt (stat st' i)) = shares st + of_bool (has_cb st)"
    using k f(3) unat_8_small [of "s_is_bundled st" "s_is_linked st" "has_cb st"] by (simp add: sm shares_def)
  have nk: "i \<notin> set (driver_bufs (s_log st'))"
    using o k st'(4) by (simp add: own_def)
  have pos: "0 < length (driver_bufs (s_log st))"
    using conjunct1 [OF k] by (rule length_pos_if_in_set)
  then have "s_queued_buffer_count st \<noteq> 0"
    using o by (auto simp: own_def)
  then have len: "unat (s_queued_buffer_count st - 1) = length (driver_bufs (s_log st)) - 1"
    using o by (simp add: unat_minus_one_8 own_def)
  have r: "refs st' (base(i := base i + int d)) i = int (a + c + d)"
    using f a(3) st'(2) q(1) by (simp add: refs_def)
  have "count_ok strict (base(i := base i + int d)) st' i"
  proof -
    have le: "a + c + d \<le> shares st + of_bool (has_cb st)" using a(1) d by auto
    have b: "shares st + of_bool (has_cb st) + 4 * c \<le> 7"
      using c by (auto simp: shares_def split: if_splits)
    have "strict \<Longrightarrow> a + c + d = shares st + of_bool (has_cb st) \<and> 0 < shares st + of_bool (has_cb st)"
      using fits a(2) d by (auto simp: notify_fits_def shares_def)
    moreover have "buf_refcnt (stat st' i) = 0 \<longleftrightarrow> shares st + of_bool (has_cb st) = 0"
      using rc by (metis unat_eq_zero)
    ultimately show ?thesis
      using le b nk unfolding count_ok_def Let_def r q(1) uint_unat_8 rc by auto
  qed
  then show ?thesis
    by (rule own_update [OF o, of i, rotated])
      (use st' k q(2) sm a(3) o len in \<open>auto simp: own_def length_remove1 len\<close>)
qed

lemma live_cmds:
  assumes "live n st" "static st' = static st" "s_buf st' = s_buf st" "s_buf_status st' = s_buf_status st"
    "driver_bufs (s_log st') = driver_bufs (s_log st)" "list_all (cmd_in n) (s_cmds st')"
  shows "live n st'"
  using assms staticD [OF assms(2)] by (simp add: live_def bufs_in_def)

text \<open>From the driver to the counts: reading the frame, then counting and handing out.\<close>

lemma got_frameI:
  assumes st: "live n st" and rd: "live n st1" "same_refs st st1" "s_buf_status st1 = s_buf_status st"
    and k: "i \<in> set (driver_bufs (s_log st))" "driver_bufs (s_log st1) = remove1 i (driver_bufs (s_log st))"
      "s_queued_buffer_count st1 = s_queued_buffer_count st - 1"
    and bi: "bi_buf bi = Some buf" "bd_buf_idx buf = i"
    and refs: "refs8 = of_bool (s_is_bundled st) + of_bool (has_cb st)"
  shows "returns (upd_status i (\<lambda>b. b\<lparr>in_kernel := False, buf_refcnt := buf_refcnt b + refs8\<rparr>) st1 \<bind>
      (\<lambda>st2. rcvd_linked E bi buf (rcvd_bundled E bi st2)))
    (\<lambda>st3. live n st3 \<and> got_frame E st i st3)"
proof -
  have n: "unat i < n" using st k(1) by (auto simp: live_def list_all_iff)
  let ?f = "\<lambda>b. b\<lparr>in_kernel := False, buf_refcnt := buf_refcnt b + refs8\<rparr>"
  obtain st2 where u: "upd_status i ?f st1 = Some st2" and l2: "live n st2" "same_refs st1 st2"
    "s_log st2 = s_log st1" "s_buf st2 = s_buf st1" "s_queued_buffer_count st2 = s_queued_buffer_count st1"
    "stat st2 = (stat st1)(i := ?f (stat st1 i))"
    using upd_status_live [OF rd(1) n, of ?f] by (auto simp: returns_iff)
  have sr: "same_refs st st2" by (rule same_refs_trans [OF rd(2) l2(2)])
  note s2 = staticD [OF same_refs_simps(1) [OF sr]]
  have r: "rest st2 = (static st, s_cmds st, s_buf st1, remove1 i (driver_bufs (s_log st)),
      s_queued_buffer_count st - 1, s_previewSkipCnt st)"
    using sr l2 k by (simp add: rest_def same_refs_def)
  have sh: "shares st2 = shares st" by (simp add: shares_def s2)
  show ?thesis
    using rcvd_steps [OF l2(1) bi n, of E] u r sr refs l2(6) stat_same [OF rd(3)] k(1)
    by (auto simp: got_frame_def rest_def s2 sh same_refs_def add.assoc add.left_commute add.commute elim!: returns_mono)
qed

lemma skip_preview_live:
  assumes "live n st"
  obtains b where "skip_preview st = Some b"
proof -
  have "skip_preview st \<noteq> None" using assms by (auto simp: skip_preview_def live_def)
  then show ?thesis using that by blast
qed

lemma skip_static:
  "static st' = static st \<Longrightarrow> s_previewSkipCnt st' = s_previewSkipCnt st \<Longrightarrow> skip_preview st' = skip_preview st"
  by (simp add: skip_preview_def static_def)

text \<open>New references are to buffers of the stream only.\<close>

definition grew :: "nat \<Rightarrow> stream_obj \<Rightarrow> stream_obj \<Rightarrow> bool" where
  "grew n st st' \<longleftrightarrow> (\<exists>m. handed st' = handed st + m \<and> (\<forall>i \<in># m. unat i < n))"

lemma grew_same [simp]: "handed st' = handed st \<Longrightarrow> grew n st st'"
  by (simp add: grew_def)

lemma grew_replicate: "handed st' = handed st + replicate_mset c i \<Longrightarrow> unat i < n \<Longrightarrow> grew n st st'"
  by (auto simp: grew_def intro!: exI [of _ "replicate_mset c i"])

lemma grew_cong: "grew n st st' \<Longrightarrow> handed st2 = handed st' \<Longrightarrow> grew n st st2"
  by (simp add: grew_def)

lemma grew_frame: "got_frame E st i st' \<Longrightarrow> unat i < n \<Longrightarrow> grew n st st'"
  by (auto simp: got_frame_def intro: grew_replicate)

lemma handed_mono: "got_frame E st i st' \<Longrightarrow> handed st \<subseteq># handed st'"
  by (auto simp: got_frame_def)

text \<open>What is left of a frame once the channels have been told: the callbacks, or the skipped preview.\<close>

lemma rcvd_rest:
  assumes st: "live n st" and st3: "live n st3" and g: "got_frame E st i st3"
    and bi: "bi_buf bi = Some buf" "bd_buf_idx buf = i" and hc: "hc = has_cb st"
  shows "returns (skip_preview st3 \<bind> (\<lambda>skip.
      if skip then map_option snd (mm_stream_buf_done E buf (st3\<lparr>s_previewSkipCnt := s_previewSkipCnt st3 - 1\<rparr>))
      else Some (rcvd_app E bi hc st3)))
    (\<lambda>st'. live n st' \<and> static st' = static st \<and> grew n st st' \<and>
      (s_cmd_active st \<or> s_cmds st' = s_cmds st) \<and>
      (\<forall>strict base. own strict n base st \<longrightarrow> outside_ok base st \<longrightarrow> skip_ok st \<longrightarrow> notify_fits strict E st \<longrightarrow>
         own strict n base st'))"
proof -
  have i: "i \<in> set (driver_bufs (s_log st))" "static st3 = static st" "s_previewSkipCnt st3 = s_previewSkipCnt st"
    "s_cmds st3 = s_cmds st"
    using g by (simp_all add: got_frame_def)
  have n: "unat i < n" using st i(1) by (auto simp: live_def list_all_iff)
  have idx: "info_idx bi = i" using bi by (simp add: info_idx_def)
  obtain b where b: "skip_preview st3 = Some b" using skip_preview_live [OF st3] .
  show ?thesis
  proof (cases b)
    case True
    let ?st = "st3\<lparr>s_previewSkipCnt := s_previewSkipCnt st3 - 1\<rparr>"
    have l: "live n ?st"
      by (rule live_cmds [OF st3]) (use st3 in \<open>simp_all add: live_def\<close>)
    have own: "own strict n (base(i := base i + 1)) ?st"
      if o: "own strict n base st" and out: "outside_ok base st" and sk: "skip_ok st" and f: "notify_fits strict E st"
      for strict base
    proof -
      have "has_cb st" using sk b True skip_static [OF i(2,3)] by (simp add: skip_ok_def)
      then show ?thesis
        using got_frame_own [OF o out n st g f, of ?st 0 bi 1] idx by (simp add: handed_def)
    qed
    have nonneg: "0 \<le> refs ?st base i" if "outside_ok base st" for base
    proof -
      have "0 \<le> int (count (handed st3) i) + base i"
        using that handed_mono [OF g, THEN mset_subset_eq_count, of i]
        by (auto simp: outside_ok_def dest!: spec [of _ i])
      then show ?thesis by (simp add: refs_def handed_def)
    qed
    show ?thesis
      using buf_done_live [OF l bi(2) [symmetric] n, of E] b True i(2,4) grew_frame [OF g n] own nonneg
      by (auto simp: same_refs_def handed_def notify_fits_def intro!: returns_mapI elim!: returns_mono
          intro: grew_cong)
  next
    case False
    obtain c where c: "c \<le> of_bool hc" "reliable E \<and> (hc \<longrightarrow> s_cmd_active st3) \<longrightarrow> c = of_bool hc"
      and a: "static (rcvd_app E bi hc st3) = static st3" "handed (rcvd_app E bi hc st3) = handed st3"
        "s_buf (rcvd_app E bi hc st3) = s_buf st3" "s_buf_status (rcvd_app E bi hc st3) = s_buf_status st3"
        "driver_bufs (s_log (rcvd_app E bi hc st3)) = driver_bufs (s_log st3)"
        "s_queued_buffer_count (rcvd_app E bi hc st3) = s_queued_buffer_count st3"
        "s_cmds (rcvd_app E bi hc st3) = s_cmds st3 @ replicate c bi" "s_cmd_active st3 \<or> c = 0"
      by (rule app_effect)
    have "cmd_in n bi" using bi idx n by (simp add: cmd_in_def)
    then have l: "live n (rcvd_app E bi hc st3)"
      using st3 a by (intro live_cmds [OF st3]) (auto simp: live_def list_all_iff)
    have "own strict n base (rcvd_app E bi hc st3)"
      if o: "own strict n base st" and out: "outside_ok base st" and f: "notify_fits strict E st" for strict base
    proof -
      have "c = of_bool (has_cb st) \<or> c \<le> of_bool (has_cb st) \<and> \<not> strict"
        using c hc f staticD(5) [OF i(2)] by (auto simp: notify_fits_def)
      then show ?thesis
        using got_frame_own [OF o out n st g f a(1,2,4-7) idx, of 0] c hc by simp
    qed
    then show ?thesis
      using b False l a i(2,4) grew_cong [OF grew_frame [OF g n]] staticD(5) [OF i(2)] by auto
  qed
qed

lemma own_dropped:
  assumes o: "own False n base st" and i: "i \<in> set (driver_bufs (s_log st))" "unat i < n"
    and st': "same_refs st st'" "s_buf_status st' = s_buf_status st"
      "driver_bufs (s_log st') = remove1 i (driver_bufs (s_log st))"
      "s_queued_buffer_count st' = s_queued_buffer_count st - 1"
  shows "own False n base st'"
proof -
  note rs = same_refs_simps [OF st'(1)] and sm = stat_same [OF st'(2)]
  have pos: "0 < length (driver_bufs (s_log st))" using i(1) by (rule length_pos_if_in_set)
  then have "s_queued_buffer_count st \<noteq> 0" using o by (auto simp: own_def)
  then have len: "unat (s_queued_buffer_count st - 1) = length (driver_bufs (s_log st)) - 1"
    using o by (simp add: unat_minus_one_8 own_def)
  have "count_ok False base st' i"
    using own_slot [OF o i(2)] o st'(3) by (simp add: count_ok_def Let_def rs sm own_def)
  then show ?thesis
    by (rule own_update [OF o, of i, rotated])
      (use st' rs sm o i len in \<open>auto simp: own_def length_remove1\<close>)
qed

lemma data_notify_live:
  assumes st: "live n st" and drv: "driver_ok E"
  shows "returns (mm_stream_data_notify E st) (\<lambda>st'. live n st' \<and> static st' = static st \<and>
    grew n st st' \<and> (s_cmd_active st \<or> s_cmds st' = s_cmds st) \<and>
    (\<forall>strict base. own strict n base st \<longrightarrow> outside_ok base st \<longrightarrow> skip_ok st \<longrightarrow> notify_fits strict E st \<longrightarrow>
       own strict n base st'))"
proof (cases "s_state st = MM_STREAM_STATE_ACTIVE")
  case active: True
  obtain rc bi st1 where rd: "mm_stream_read_msm_frame E st = Some (rc, bi, st1)"
    and l1: "live n st1" and sr: "same_refs st st1" and sm: "s_buf_status st1 = s_buf_status st"
    and d: "rc < 0 \<and> driver_bufs (s_log st1) = driver_bufs (s_log st) \<and>
        s_queued_buffer_count st1 = s_queued_buffer_count st \<or>
     (\<exists>b i. bi_buf bi = Some b \<and> bd_buf_idx b = i \<and> i \<in> set (driver_bufs (s_log st)) \<and>
       driver_bufs (s_log st1) = remove1 i (driver_bufs (s_log st)) \<and>
       s_queued_buffer_count st1 = s_queued_buffer_count st - 1 \<and> (reliable E \<longrightarrow> rc = 0))"
    using read_frame [OF st drv] by (auto simp: returns_iff)
  note s1 = staticD [OF same_refs_simps(1) [OF sr]]
  show ?thesis
  proof (cases "rc = 0")
    case False
    have "own strict n base st1" if o: "own strict n base st" and f: "notify_fits strict E st" for strict base
      using d
    proof (elim disjE exE conjE)
      assume "driver_bufs (s_log st1) = driver_bufs (s_log st)"
        "s_queued_buffer_count st1 = s_queued_buffer_count st"
      then show ?thesis by (intro own_cong [OF o sr sm])
    next
      fix b i
      assume i: "i \<in> set (driver_bufs (s_log st))"
        "driver_bufs (s_log st1) = remove1 i (driver_bufs (s_log st))"
        "s_queued_buffer_count st1 = s_queued_buffer_count st - 1" "reliable E \<longrightarrow> rc = 0"
      have "unat i < n" using st i(1) by (auto simp: live_def list_all_iff)
      moreover have "\<not> strict" using f False i(4) by (auto simp: notify_fits_def)
      ultimately show ?thesis using own_dropped [of n base st i st1] o i sr sm by auto
    qed
    then show ?thesis
      using active rd False l1 sr by (simp add: mm_stream_data_notify_def same_refs_def)
  next
    case True
    then obtain buf i where bi: "bi_buf bi = Some buf" "bd_buf_idx buf = i"
      and k: "i \<in> set (driver_bufs (s_log st))" "driver_bufs (s_log st1) = remove1 i (driver_bufs (s_log st))"
        "s_queued_buffer_count st1 = s_queued_buffer_count st - 1"
      using d by auto
    let ?r = "of_bool (s_is_bundled st) + of_bool (has_cb st) :: 8 word"
    have hc: "has_cb st1 = has_cb st" by (simp add: has_cb_def s1)
    have r: "(if s_is_bundled st then 1 else 0) + (if has_cb st then 1 else 0) = ?r"
      by simp
    have h: "mm_stream_handle_rcvd_buf E bi b = (\<lambda>st2. rcvd_linked E bi buf (rcvd_bundled E bi st2) \<bind>
      (\<lambda>st3. skip_preview st3 \<bind> (\<lambda>skip. if skip then map_option snd
          (mm_stream_buf_done E buf (st3\<lparr>s_previewSkipCnt := s_previewSkipCnt st3 - 1\<rparr>))
        else Some (rcvd_app E bi b st3))))" for b
      by (simp add: mm_stream_handle_rcvd_buf_def bi fun_eq_iff)
    note g = got_frameI [OF st l1 sr sm k bi refl]
    have eq: "mm_stream_data_notify E st =
      (upd_status i (\<lambda>b. b\<lparr>in_kernel := False, buf_refcnt := buf_refcnt b + ?r\<rparr>) st1 \<bind>
       (\<lambda>st2. rcvd_linked E bi buf (rcvd_bundled E bi st2))) \<bind>
      (\<lambda>st3. skip_preview st3 \<bind> (\<lambda>skip. if skip then map_option snd
          (mm_stream_buf_done E buf (st3\<lparr>s_previewSkipCnt := s_previewSkipCnt st3 - 1\<rparr>))
        else Some (rcvd_app E bi (has_cb st) st3)))"
      using active rd True bi
      by (simp add: mm_stream_data_notify_def h Let_def hc s1 r cong: if_cong)
    show ?thesis
      unfolding eq
      by (rule returns_bindI [OF g], elim conjE) (rule rcvd_rest [OF st _ _ bi refl])
  qed
next
  case False
  then show ?thesis using st by (simp add: mm_stream_data_notify_def)
qed

section \<open>Frames to the callbacks\<close>

text \<open>Each callback takes a reference of its own.\<close>

definition took_refs :: "32 word \<Rightarrow> nat \<Rightarrow> stream_obj \<Rightarrow> stream_obj \<Rightarrow> bool" where
  "took_refs i m st st' \<longleftrightarrow> rest st' = rest st \<and> (\<exists>c \<le> m. handed st' = handed st + replicate_mset c i \<and>
     stat st' = (stat st)(i := (stat st i)\<lparr>buf_refcnt := buf_refcnt (stat st i) + of_nat c\<rparr>))"

lemma took_refs_refl: "took_refs i 0 st st"
  by (simp add: took_refs_def)

lemma took_refs_trans:
  assumes "took_refs i m a b" "took_refs i m' b c"
  shows "took_refs i (m + m') a c"
proof -
  obtain x y where "x \<le> m" "y \<le> m'"
    and "handed b = handed a + replicate_mset x i" "handed c = handed b + replicate_mset y i"
    and "stat b = (stat a)(i := (stat a i)\<lparr>buf_refcnt := buf_refcnt (stat a i) + of_nat x\<rparr>)"
      "stat c = (stat b)(i := (stat b i)\<lparr>buf_refcnt := buf_refcnt (stat b i) + of_nat y\<rparr>)"
    using assms by (auto simp: took_refs_def)
  then show ?thesis
    using assms by (auto simp: took_refs_def replicate_mset_add add.assoc intro!: exI [of _ "x + y"])
qed

lemma dispatch_cb_live:
  assumes st: "live n st" and i: "unat (bd_buf_idx buf) < n" and k: "k < MM_CAMERA_STREAM_BUF_CB_MAX"
  shows "returns (dispatch_cb buf k st) (\<lambda>st'. live n st' \<and> took_refs (bd_buf_idx buf) 1 st st')"
proof (cases "cb (s_buf_cb st ! k)")
  case None
  then show ?thesis
    using st by (auto simp: dispatch_cb_def took_refs_def intro!: exI [of _ 0])
next
  case (Some f)
  have "cb_count (s_buf_cb st ! k) = -1"
    using st k Some by (auto simp: live_def cbs_ok_def list_all_length)
  then have c: "cb_count (s_buf_cb st ! k) \<noteq> 0" "\<not> 0 < sint (cb_count (s_buf_cb st ! k))"
    by simp_all
  let ?i = "bd_buf_idx buf"
  obtain st1 where u: "add_ref ?i st = Some st1" and l1: "live n st1" "same_refs st st1"
    "s_log st1 = s_log st" "s_buf st1 = s_buf st" "s_queued_buffer_count st1 = s_queued_buffer_count st"
    "stat st1 = (stat st)(?i := (stat st ?i)\<lparr>buf_refcnt := buf_refcnt (stat st ?i) + 1\<rparr>)"
    using upd_status_live [OF st i, of "\<lambda>b. b\<lparr>buf_refcnt := buf_refcnt b + 1\<rparr>"]
    by (auto simp: returns_iff add_ref_def)
  let ?st = "st1\<lparr>s_given := s_given st1 @ [(f, buf)]\<rparr>"
  have r: "rest ?st = rest st" using rest_upd_status [OF l1(2-5)] by (simp add: rest_def)
  have "live n ?st" by (rule live_rest [OF l1(1)]) (simp_all add: rest_def)
  moreover have "handed ?st = handed st + replicate_mset 1 ?i"
    using l1(2) by (simp add: same_refs_def handed_def)
  moreover have "stat ?st = stat st1" by (rule stat_same) simp
  ultimately show ?thesis
    using Some c u r l1(6) by (auto simp: dispatch_cb_def Let_def took_refs_def intro!: exI [of _ 1])
qed

lemma dispatch_cbs_live:
  assumes "live n st" "unat (bd_buf_idx buf) < n" "\<forall>k \<in> set ks. k < MM_CAMERA_STREAM_BUF_CB_MAX"
  shows "returns (dispatch_cbs buf ks st) (\<lambda>st'. live n st' \<and> took_refs (bd_buf_idx buf) (length ks) st st')"
  using assms
proof (induction ks arbitrary: st)
  case Nil
  then show ?case by (simp add: took_refs_refl)
next
  case (Cons k ks)
  have "returns (dispatch_cb buf k st) (\<lambda>st'. live n st' \<and> took_refs (bd_buf_idx buf) 1 st st')"
    using Cons.prems by (intro dispatch_cb_live) simp_all
  then show ?case
    unfolding dispatch_cbs.simps
  proof (rule returns_bindI)
    fix st1
    assume st1: "live n st1 \<and> took_refs (bd_buf_idx buf) 1 st st1"
    then have "returns (dispatch_cbs buf ks st1)
        (\<lambda>st'. live n st' \<and> took_refs (bd_buf_idx buf) (length ks) st1 st')"
      using Cons.prems by (intro Cons.IH) simp_all
    then show "returns (dispatch_cbs buf ks st1)
        (\<lambda>st'. live n st' \<and> took_refs (bd_buf_idx buf) (length (k # ks)) st st')"
      using st1 took_refs_trans [of _ 1 st st1] by (auto elim!: returns_mono)
  qed
qed

text \<open>The thread takes a command, calls back and gives up its own reference.\<close>

lemma unat_add_8: "unat a \<le> 3 \<Longrightarrow> c \<le> 4 \<Longrightarrow> unat (a + of_nat c :: 8 word) = unat a + c"
proof -
  assume a: "unat a \<le> 3" "c \<le> 4"
  then have c: "unat (of_nat c :: 8 word) = c" by (simp add: unat_of_nat)
  show ?thesis using unat_add_lem [of a "of_nat c"] a c by simp
qed

lemma cmd_thread_step_live:
  assumes st: "live n st"
  shows "returns (cmd_thread_step E st) (\<lambda>st'. live n st' \<and> static st' = static st \<and> s_cmds st' = tl (s_cmds st) \<and>
    grew n st st' \<and>
    (\<forall>strict base. own strict n base st \<longrightarrow> outside_ok base st \<longrightarrow> (strict \<longrightarrow> reliable E) \<longrightarrow>
       own strict n base st'))"
proof (cases "s_cmds st")
  case Nil
  then show ?thesis using st by (simp add: cmd_thread_step_def)
next
  case (Cons bi r)
  have ci: "cmd_in n bi" "list_all (cmd_in n) r" using st Cons by (simp_all add: live_def)
  then obtain buf where bi: "bi_buf bi = Some buf" by (auto simp: cmd_in_def)
  let ?i = "bd_buf_idx buf"
  have i: "unat ?i < n" using ci(1) bi by (simp add: cmd_in_def info_idx_def)
  let ?st = "st\<lparr>s_cmds := r\<rparr>"
  have l0: "live n ?st" by (rule live_cmds [OF st]) (simp_all add: ci)
  obtain st1 where d: "dispatch_cbs buf [0..<MM_CAMERA_STREAM_BUF_CB_MAX] ?st = Some st1"
    and l1: "live n st1" "took_refs ?i MM_CAMERA_STREAM_BUF_CB_MAX ?st st1"
    using dispatch_cbs_live [OF l0 i, of "[0..<MM_CAMERA_STREAM_BUF_CB_MAX]"] by (auto simp: returns_iff)
  obtain c where c: "c \<le> MM_CAMERA_STREAM_BUF_CB_MAX" "handed st1 = handed st + replicate_mset c ?i"
    "stat st1 = (stat ?st)(?i := (stat ?st ?i)\<lparr>buf_refcnt := buf_refcnt (stat ?st ?i) + of_nat c\<rparr>)"
    using l1(2) by (auto simp: took_refs_def handed_def)
  have st0: "stat ?st = stat st" by (rule stat_same) simp
  have r1: "static st1 = static st" "s_cmds st1 = r" "driver_bufs (s_log st1) = driver_bufs (s_log st)"
    "s_queued_buffer_count st1 = s_queued_buffer_count st"
    using l1(2) by (simp_all add: took_refs_def rest_def)
  have q: "queued_refs st ?i = Suc (queued_refs st1 ?i)" "\<And>j. j \<noteq> ?i \<Longrightarrow> queued_refs st1 j = queued_refs st j"
    using Cons r1(2) bi by (auto simp: queued_refs_def info_idx_def)
  have own: "own strict n (base(?i := base ?i + 1)) st1"
    if o: "own strict n base st" and out: "outside_ok base st" for strict base
  proof -
    note s = own_slot [OF o i, unfolded count_ok_def Let_def uint_unat_8]
    have pos: "1 \<le> refs st base ?i"
      using out q(1) by (auto simp: outside_ok_def refs_def dest!: spec [of _ ?i])
    have nd: "?i \<notin> set (driver_bufs (s_log st1))" using s pos r1(3) by auto
    have le: "unat (buf_refcnt (stat st ?i)) \<le> 3" using s q(1) by simp
    have rc: "unat (buf_refcnt (stat st1 ?i)) = unat (buf_refcnt (stat st ?i)) + c"
      using le c(1) unat_add_8 [of "buf_refcnt (stat st ?i)" c] by (simp add: c(3) st0 MM_CAMERA_STREAM_BUF_CB_MAX_def)
    have rf: "refs st1 (base(?i := base ?i + 1)) ?i = refs st base ?i + int c"
      using q(1) c(2) by (simp add: refs_def)
    have "count_ok strict (base(?i := base ?i + 1)) st1 ?i"
      using s pos nd q(1) c(1) r1(3)
      unfolding count_ok_def Let_def rf uint_unat_8 rc
      by (auto simp: rc MM_CAMERA_STREAM_BUF_CB_MAX_def unat_eq_zero [symmetric])
    then show ?thesis
      by (rule own_update [OF o, of ?i, rotated])
        (use c q(2) r1 st0 o in \<open>auto simp: own_def\<close>)
  qed
  have nonneg: "0 \<le> refs st1 base ?i" if "outside_ok base st" for base
    using that c(2) by (auto simp: outside_ok_def refs_def dest!: spec [of _ ?i])
  obtain rc st2 where bd: "mm_stream_buf_done E buf st1 = Some (rc, st2)" and l2: "live n st2" "same_refs st1 st2"
    and o2: "\<forall>strict base. own strict n (base(?i := base ?i + 1)) st1 \<longrightarrow>
      (strict \<longrightarrow> reliable E \<and> 0 \<le> refs st1 base ?i) \<longrightarrow> own strict n base st2"
    using buf_done_live [OF l1(1) refl i, of E] by (auto simp: returns_iff)
  have "own strict n base st2"
    if "own strict n base st" "outside_ok base st" "strict \<longrightarrow> reliable E" for strict base
    using o2 own [OF that(1,2)] nonneg [OF that(2)] that(3) by blast
  moreover have "grew n st st2"
    by (rule grew_replicate [OF _ i]) (use c(2) l2(2) in \<open>simp add: same_refs_def\<close>)
  ultimately show ?thesis
    using Cons bi d bd l2 r1 c(2)
    by (auto simp: cmd_thread_step_def mm_stream_dispatch_app_data_def same_refs_def)
qed

end
