(* ===== verification/MmStreamFsm.thy ===== *)
theory MmStreamFsm
  imports MmStreamInv
begin

text \<open>
  The life of a stream. \<open>stream_wf\<close> says which resources it holds in each state; every event keeps it
  and comes back, and so do the frames of the driver and the rounds of the command thread. Between
  the registration of the buffers and the stop the stream is in a session, in which the invariant
  \<open>own\<close> of \<^verbatim>\<open>MmStreamInv\<close> holds.
\<close>

section \<open>Ending the command thread\<close>

lemma drain_live:
  "live n st \<Longrightarrow> length (s_cmds st) = m \<Longrightarrow>
   returns (cmd_thread_drain m E st) (\<lambda>st'. live n st' \<and> static st' = static st \<and> s_cmds st' = [])"
proof (induction m arbitrary: st)
  case 0
  then show ?case by simp
next
  case (Suc m)
  have "returns (cmd_thread_step E st) (\<lambda>st'. live n st' \<and> static st' = static st \<and> s_cmds st' = tl (s_cmds st))"
    using cmd_thread_step_live [OF Suc.prems(1), of E] by (auto elim!: returns_mono)
  then show ?case
    unfolding cmd_thread_drain.simps
  proof (rule returns_bindI)
    fix st1
    assume "live n st1 \<and> static st1 = static st \<and> s_cmds st1 = tl (s_cmds st)"
    then show "returns (cmd_thread_drain m E st1) (\<lambda>st'. live n st' \<and> static st' = static st \<and> s_cmds st' = [])"
      using Suc.IH [of st1] Suc.prems(2) by simp
  qed
qed

text \<open>What stays when the thread has gone.\<close>

definition kept :: "stream_obj \<Rightarrow> stream_obj \<Rightarrow> bool" where
  "kept st st' \<longleftrightarrow> s_state st' = s_state st \<and> s_fd st' = s_fd st \<and> s_my_hdl st' = s_my_hdl st \<and>
     s_buf_num st' = s_buf_num st \<and> s_buf_cb st' = s_buf_cb st \<and> s_stream_info st' = s_stream_info st"

lemma kept_refl [simp]: "kept st st" and kept_trans: "kept a b \<Longrightarrow> kept b c \<Longrightarrow> kept a c"
  by (auto simp: kept_def)

lemma kept_static: "static st' = static st \<Longrightarrow> kept st st'"
  by (simp add: kept_def static_def)

lemma live_log:
  assumes "live n st" "list_all (\<lambda>i. unat i < n) (driver_bufs log)"
  shows "live n (st\<lparr>s_log := log\<rparr>)"
  using assms by (simp add: live_def bufs_in_def)

lemma release_live:
  assumes st: "live n st" and ex: "exit_ok E"
  shows "returns (mm_camera_cmd_thread_release E st)
    (\<lambda>(rc, st'). live n st' \<and> kept st st' \<and> s_cmds st' = [] \<and> \<not> s_cmd_active st')"
proof -
  let ?l1 = "s_log st @ [(Malloc_exit, e_rc E (s_log st) Malloc_exit)]"
  let ?st = "st\<lparr>s_log := ?l1 @ [(Malloc_exit_node, e_rc E ?l1 Malloc_exit_node)]\<rparr>"
  have l: "live n ?st" using st by (intro live_log) (simp_all add: live_def)
  have eq: "mm_camera_cmd_thread_release E st =
      (if s_cmd_active st then cmd_thread_drain (length (s_cmds ?st)) E ?st else Some ?st) \<bind>
      (\<lambda>st. Some (0, st\<lparr>s_cmds := [], s_cmd_active := False\<rparr>))"
    using ex by (simp add: mm_camera_cmd_thread_release_def ask_eq exit_ok_def)
  have fin: "live n (st'\<lparr>s_cmds := [], s_cmd_active := False\<rparr>)" if "live n st'" for st'
    using that by (simp add: live_def bufs_in_def)
  have "returns (if s_cmd_active st then cmd_thread_drain (length (s_cmds ?st)) E ?st else Some ?st)
      (\<lambda>st'. live n st' \<and> static st' = static ?st)"
    using l drain_live [OF l refl, of E] by (auto elim!: returns_mono)
  then show ?thesis
    unfolding eq by (rule returns_bindI) (auto simp: fin kept_def static_def)
qed

section \<open>Registering the buffers\<close>

lemma reg_bufs_live:
  assumes "live n st" "\<forall>i \<in> set is. i < n"
  shows "returns (reg_bufs E is rc st) (\<lambda>(rc, st'). live n st' \<and> same_refs st st')"
  using assms
proof (induction "is" arbitrary: rc st)
  case Nil
  then show ?case by simp
next
  case (Cons i "is")
  obtain bs l where l: "s_buf st = Some bs" "s_buf_status st = Some l" "length bs = n" "length l = n"
    "bd_buf_idx (bs ! i) = of_nat i"
    using Cons.prems by (auto simp: live_def bufs_in_def)
  have i: "i < n" "n \<le> 24" using Cons.prems by (simp_all add: live_def)
  then have u: "unat (of_nat i :: 32 word) < n" by (simp add: unat_of_nat)
  have IH: "returns (upd_status (of_nat i) f st1 \<bind> reg_bufs E is rc1) (\<lambda>(rc, st'). live n st' \<and> same_refs st st')"
    if "live n st1" "same_refs st st1" for f st1 rc1
  proof (rule returns_bindI)
    show "returns (upd_status (of_nat i) f st1) (\<lambda>st'. live n st' \<and> same_refs st1 st')"
      by (rule returns_mono [OF upd_status_live [OF that(1) u]]) blast
    fix st2
    assume "live n st2 \<and> same_refs st1 st2"
    then show "returns (reg_bufs E is rc1 st2) (\<lambda>(rc, st'). live n st' \<and> same_refs st st')"
      using Cons.IH [of st2 rc1] Cons.prems(2) same_refs_trans [OF that(2)]
      by (auto elim!: returns_mono intro: same_refs_trans)
  qed
  obtain rc1 st1 where qb: "mm_stream_qbuf E (bs ! i) st = (rc1, st1)" by fastforce
  note q = qbuf_effect [OF qb]
  have "live n st1"
    by (rule live_same [OF Cons.prems(1) q(1-3) _ u]) (auto simp: q(4) l(5))
  then show ?case
    using l i qb q(1) IH [of st1] IH [of st] Cons.prems(1) by simp
qed

section \<open>What a stream holds in each state\<close>

fun has_fd :: "mm_stream_state \<Rightarrow> bool" where
  "has_fd MM_STREAM_STATE_NOTUSED = False"
| "has_fd MM_STREAM_STATE_INITED = False"
| "has_fd _ = True"

fun has_format :: "mm_stream_state \<Rightarrow> bool" where
  "has_format MM_STREAM_STATE_ACQUIRED = False"
| "has_format s = has_fd s"

fun has_bufs :: "mm_stream_state \<Rightarrow> bool" where
  "has_bufs MM_STREAM_STATE_CFG = False"
| "has_bufs s = has_format s"

fun has_reg :: "mm_stream_state \<Rightarrow> bool" where
  "has_reg MM_STREAM_STATE_BUFFED = False"
| "has_reg s = has_bufs s"

definition stream_wf :: "stream_obj \<Rightarrow> bool" where
  "stream_wf st \<longleftrightarrow> (let s = s_state st; n = unat (s_buf_num st) in
     cbs_ok (s_buf_cb st) \<and>
     (has_fd s \<longrightarrow> 0 < s_fd st) \<and>
     (has_format s \<longrightarrow> s_stream_info st \<noteq> None) \<and>
     (if has_bufs s then bufs_in n st else s_buf st = None \<and> s_buf_status st = None) \<and>
     (has_reg s \<longrightarrow> n \<le> 24 \<and> list_all (\<lambda>i. unat i < n) (driver_bufs (s_log st))) \<and>
     list_all (cmd_in n) (s_cmds st) \<and>
     (s_cmd_active st \<longleftrightarrow> s = MM_STREAM_STATE_ACTIVE \<and> has_cb st) \<and>
     (s_cmd_active st \<or> s_cmds st = []))"

text \<open>What the memory functions of the HAL return when they succeed.\<close>

definition hal_ok :: "env \<Rightarrow> bool" where
  "hal_ok E \<longleftrightarrow> (\<forall>log. let m = e_get_bufs E log; n = unat (mb_num m) in
     length (mb_bufs m) = n \<and> length (mb_reg_flags m) = n \<and>
     list_all (\<lambda>i. bd_buf_idx (mb_bufs m ! i) = of_nat i) [0..<n])"

definition env_ok :: "env \<Rightarrow> bool" where
  "env_ok E \<longleftrightarrow> driver_ok E \<and> exit_ok E \<and> hal_ok E"

text \<open>The buffer of a \<open>QBUF\<close> event is one of the stream.\<close>

fun evt_ok :: "stream_obj \<Rightarrow> mm_stream_evt \<Rightarrow> bool" where
  "evt_ok st (MM_STREAM_EVT_QBUF b) = (unat (bd_buf_idx b) < unat (s_buf_num st))"
| "evt_ok st _ = True"

lemma wf_live:
  assumes "stream_wf st" "has_reg (s_state st)"
  shows "live (unat (s_buf_num st)) st"
  using assms by (cases "s_state st") (auto simp: stream_wf_def live_def Let_def)

lemma live_wf:
  assumes "live (unat (s_buf_num st)) st" "has_bufs (s_state st)" "0 < s_fd st"
    and "s_cmd_active st \<longleftrightarrow> s_state st = MM_STREAM_STATE_ACTIVE \<and> has_cb st" "s_cmd_active st \<or> s_cmds st = []"
  shows "stream_wf st"
  using assms by (cases "s_state st") (auto simp: stream_wf_def live_def Let_def)

lemma wf_log:
  assumes "stream_wf st" "has_reg (s_state st) \<longrightarrow> driver_bufs log = driver_bufs (s_log st)"
  shows "stream_wf (st\<lparr>s_log := log\<rparr>)"
  using assms by (cases "s_state st") (auto simp: stream_wf_def Let_def bufs_in_def has_cb_def)

text \<open>The operations of the running stream.\<close>

lemma active_wf:
  assumes "stream_wf st" "s_state st = MM_STREAM_STATE_ACTIVE"
    and "live (unat (s_buf_num st)) st'" "static st' = static st" "s_cmd_active st \<or> s_cmds st' = []"
  shows "stream_wf st'"
proof -
  note s = staticD [OF assms(4)]
  show ?thesis
    using assms s by (intro live_wf) (auto simp: stream_wf_def Let_def has_cb_def)
qed

lemma parm_wf:
  assumes "stream_wf st" "c = Ctrl_s_stream_parm \<or> c = Ctrl_g_stream_parm"
  shows "returns (Some (stream_parm E c p st)) (\<lambda>(rc, st'). stream_wf st')"
  using assms by (auto simp: stream_parm_def ask_eq intro!: wf_log)

lemma sync_info_result:
  assumes "s_stream_info st = Some si"
  obtains rc si' off log where "mm_stream_sync_info E st =
    Some (rc, st\<lparr>s_stream_info := Some si', s_frame_offset := off, s_log := log\<rparr>)"
proof -
  obtain rc si' where c: "mm_stream_calc_offset (e_build E) (s_padding_info st)
      (si\<lparr>stream_svr_id := s_server_stream_id st\<rparr>) = (rc, si')" by fastforce
  show ?thesis
  proof (cases "rc = 0")
    case True
    then show ?thesis using assms c that by (simp add: mm_stream_sync_info_def ask_eq)
  next
    case False
    have "mm_stream_sync_info E st = Some (rc, st\<lparr>s_stream_info := Some si', s_frame_offset := buf_planes si',
        s_log := s_log st\<rparr>)"
      using assms c False by (simp add: mm_stream_sync_info_def)
    then show ?thesis by (rule that)
  qed
qed

lemma set_fmt_result:
  assumes "s_stream_info st = Some si"
  obtains rc log where "mm_stream_set_fmt E st = Some (rc, st\<lparr>s_log := log\<rparr>)"
proof (cases "dim_width (dim si) = 0 \<or> dim_height (dim si) = 0")
  case True
  then have "mm_stream_set_fmt E st = Some (-1, st\<lparr>s_log := s_log st\<rparr>)"
    using assms by (simp add: mm_stream_set_fmt_def Let_def)
  then show ?thesis by (rule that)
next
  case False
  then have "mm_stream_set_fmt E st = Some (ask E (Io_S_FMT (dim_width (dim si)) (dim_height (dim si))
      (mm_stream_get_v4l2_fmt (fmt si))
      (map mp_len (take (unat (num_planes (s_frame_offset st))) (mp (s_frame_offset st))))) st)"
    using assms by (simp add: mm_stream_set_fmt_def Let_def)
  then show ?thesis unfolding ask_eq by (rule that)
qed

lemma config_result:
  obtains rc si' off log where "mm_stream_config E c st =
    Some (rc, st\<lparr>s_buf_num := ucast (num_bufs (c_stream_info c)),
      s_mem_vtbl := c_mem_vtbl c, s_padding_info := c_padding_info c,
      s_buf_cb := (s_buf_cb st)[0 := \<lparr>cb = c_stream_cb c, cb_count = -1\<rparr>],
      s_stream_info := Some si', s_frame_offset := off, s_log := log\<rparr>)"
proof -
  let ?st = "st\<lparr>s_stream_info := Some (c_stream_info c), s_buf_num := ucast (num_bufs (c_stream_info c)),
      s_mem_vtbl := c_mem_vtbl c, s_padding_info := c_padding_info c,
      s_buf_cb := (s_buf_cb st)[0 := \<lparr>cb = c_stream_cb c, cb_count = -1\<rparr>]\<rparr>"
  obtain rc si' off log where s: "mm_stream_sync_info E ?st =
      Some (rc, ?st\<lparr>s_stream_info := Some si', s_frame_offset := off, s_log := log\<rparr>)"
    by (rule sync_info_result [of ?st "c_stream_info c" E]) simp_all
  let ?st' = "?st\<lparr>s_stream_info := Some si', s_frame_offset := off, s_log := log\<rparr>"
  obtain rc' log' where f: "mm_stream_set_fmt E ?st' = Some (rc', ?st'\<lparr>s_log := log'\<rparr>)"
    by (rule set_fmt_result [of ?st' si' E]) simp_all
  show ?thesis
  proof (cases "rc = 0")
    case True
    then have "mm_stream_config E c st = Some (rc', ?st'\<lparr>s_log := log'\<rparr>)"
      using s f by (simp add: mm_stream_config_def Let_def)
    then show ?thesis using that by simp
  next
    case False
    then have "mm_stream_config E c st = Some (rc, ?st')"
      using s by (simp add: mm_stream_config_def Let_def)
    then show ?thesis using that by simp
  qed
qed

lemma config_wf:
  assumes "stream_wf st" "s_state st = MM_STREAM_STATE_ACQUIRED \<or> s_state st = MM_STREAM_STATE_CFG"
  shows "returns (map_option (enter MM_STREAM_STATE_CFG) (mm_stream_config E c st)) (\<lambda>(rc, st'). stream_wf st')"
proof -
  have "cbs_ok ((s_buf_cb st)[0 := \<lparr>cb = c_stream_cb c, cb_count = - 1\<rparr>])"
    using assms(1) by (auto simp: stream_wf_def Let_def cbs_ok_def list_all_length nth_list_update)
  moreover obtain rc si' off log where "mm_stream_config E c st =
    Some (rc, st\<lparr>s_buf_num := ucast (num_bufs (c_stream_info c)),
      s_mem_vtbl := c_mem_vtbl c, s_padding_info := c_padding_info c,
      s_buf_cb := (s_buf_cb st)[0 := \<lparr>cb = c_stream_cb c, cb_count = -1\<rparr>],
      s_stream_info := Some si', s_frame_offset := off, s_log := log\<rparr>)"
    by (rule config_result)
  ultimately show ?thesis
    using assms by (auto simp: enter_def stream_wf_def Let_def)
qed

lemma zero_wf: "stream_wf (zero_stream st)"
proof -
  have "cbs_ok (replicate MM_CAMERA_STREAM_BUF_CB_MAX no_cb)"
    by (simp add: cbs_ok_def list_all_length no_cb_def)
  then show ?thesis by (simp add: stream_wf_def zero_stream_def)
qed

lemma zero_state: "enter MM_STREAM_STATE_NOTUSED (rc, zero_stream st) = (rc, zero_stream st)"
  by (simp add: enter_def zero_stream_def)

lemma release_wf:
  "returns (Some (enter MM_STREAM_STATE_NOTUSED (mm_stream_release E st))) (\<lambda>(rc, st'). stream_wf st')"
  by (simp add: mm_stream_release_def zero_state zero_wf)

lemma deinit_result:
  assumes "s_buf st = None \<longrightarrow> s_buf_status st = None"
  obtains rc log where "mm_stream_deinit_bufs E st = (rc, st\<lparr>s_buf := None, s_buf_status := None, s_log := log\<rparr>)"
proof (cases "s_buf st")
  case None
  then have "mm_stream_deinit_bufs E st = (0, st\<lparr>s_buf := None, s_buf_status := None, s_log := s_log st\<rparr>)"
    using assms by (simp add: mm_stream_deinit_bufs_def)
  then show ?thesis by (rule that)
next
  case (Some b)
  then have "mm_stream_deinit_bufs E st =
      (e_rc E (s_log st) Mem_put_bufs, st\<lparr>s_buf := None, s_buf_status := None,
        s_log := s_log st @ [(Mem_put_bufs, e_rc E (s_log st) Mem_put_bufs)]\<rparr>)"
    by (simp add: mm_stream_deinit_bufs_def ask_eq)
  then show ?thesis by (rule that)
qed

lemma put_buf_wf:
  assumes "stream_wf st" "s_state st = MM_STREAM_STATE_BUFFED"
  shows "returns (Some (enter MM_STREAM_STATE_CFG (mm_stream_deinit_bufs E st))) (\<lambda>(rc, st'). stream_wf st')"
proof -
  have "s_buf st = None \<longrightarrow> s_buf_status st = None"
    using assms by (auto simp: stream_wf_def Let_def bufs_in_def)
  then obtain rc log where
    d: "mm_stream_deinit_bufs E st = (rc, st\<lparr>s_buf := None, s_buf_status := None, s_log := log\<rparr>)"
    by (rule deinit_result)
  show ?thesis
    using assms unfolding d by (auto simp: enter_def stream_wf_def Let_def)
qed

text \<open>Buffers are allocated in the state CFG, where the stream has none.\<close>

lemma get_buf_wf:
  assumes wf: "stream_wf st" "s_state st = MM_STREAM_STATE_CFG" and E: "hal_ok E"
  shows "returns (map_option (enter_if_ok MM_STREAM_STATE_BUFFED) (mm_stream_init_bufs E st))
    (\<lambda>(rc, st'). stream_wf st')"
proof -
  have st: "s_buf st = None" "s_buf_status st = None" "s_cmds st = []" "\<not> s_cmd_active st"
    using wf by (auto simp: stream_wf_def Let_def)
  obtain si where si: "s_stream_info st = Some si" using wf by (auto simp: stream_wf_def Let_def)
  define m where "m = e_get_bufs E (s_log st)"
  let ?n = "unat (mb_num m)"
  have m: "length (mb_bufs m) = ?n" "length (mb_reg_flags m) = ?n"
    "\<forall>i < ?n. bd_buf_idx (mb_bufs m ! i) = of_nat i"
    using E by (auto simp: hal_ok_def m_def Let_def list_all_iff dest!: spec [of _ "s_log st"])
  let ?rc = "e_rc E (s_log st) Mem_get_bufs"
  let ?log = "s_log st @ [(Mem_get_bufs, ?rc)]"
  let ?log2 = "?log @ [(Malloc_status, e_rc E ?log Malloc_status)]"
  have base: "stream_wf (st\<lparr>s_log := log\<rparr>)" "stream_wf (st\<lparr>s_buf_num := k, s_log := log\<rparr>)" for log k
    using wf st by (simp_all add: stream_wf_def Let_def has_cb_def)
  show ?thesis
  proof (cases "?rc = 0")
    case False
    then show ?thesis
      using st base by (simp add: mm_stream_init_bufs_def ask_eq enter_if_ok_def m_def)
  next
    case rc: True
    let ?st2 = "st\<lparr>s_buf_num := mb_num m, s_buf := Some (mb_bufs m), s_log := ?log2\<rparr>"
    show ?thesis
    proof (cases "e_rc E ?log Malloc_status = 0")
      case True
      obtain rc' log' where
        d: "mm_stream_deinit_bufs E ?st2 = (rc', ?st2\<lparr>s_buf := None, s_buf_status := None, s_log := log'\<rparr>)"
        by (rule deinit_result [of ?st2 E]) simp
      have "mm_stream_init_bufs E st = Some (-1, snd (mm_stream_deinit_bufs E ?st2))"
        using st rc True by (simp add: mm_stream_init_bufs_def ask_eq m_def Let_def)
      then show ?thesis
        unfolding d using wf st by (simp add: enter_if_ok_def stream_wf_def Let_def has_cb_def)
    next
      case False
      then show ?thesis
        using wf st si m rc
        by (auto simp: mm_stream_init_bufs_def ask_eq m_def [symmetric] Let_def enter_if_ok_def enter_def
            stream_wf_def bufs_in_def has_cb_def)
    qed
  qed
qed

lemma reg_buf_wf:
  assumes wf: "stream_wf st" "s_state st = MM_STREAM_STATE_BUFFED"
  shows "returns (map_option (enter_if_ok MM_STREAM_STATE_REG) (mm_stream_reg_buf E st))
    (\<lambda>(rc, st'). stream_wf st')"
proof -
  let ?n = "unat (s_buf_num st)"
  have st: "bufs_in ?n st" "s_cmds st = []" "\<not> s_cmd_active st" "cbs_ok (s_buf_cb st)"
    "s_stream_info st \<noteq> None" "0 < s_fd st"
    using wf by (auto simp: stream_wf_def Let_def)
  obtain rc st1 where rq: "mm_stream_request_buf E st = (rc, st1)" by fastforce
  show ?thesis
  proof (cases "rc = 0")
    case False
    then have "mm_stream_reg_buf E st = Some (rc, st1)"
      using rq by (simp add: mm_stream_reg_buf_def)
    moreover have "stream_wf st1"
      using rq wf by (auto simp: mm_stream_request_buf_def ask_eq split: if_splits intro!: wf_log)
    ultimately show ?thesis using False by (simp add: enter_if_ok_def)
  next
    case True
    have n: "?n \<le> 24" and st1: "st1 = st\<lparr>s_log := s_log st @ [(Io_REQBUFS ?n, 0)]\<rparr>"
      using rq True by (auto simp: mm_stream_request_buf_def ask_eq MM_CAMERA_MAX_NUM_FRAMES_def
          word_less_nat_alt not_less split: if_splits)
    let ?st = "st1\<lparr>s_queued_buffer_count := 0\<rparr>"
    have l: "live ?n ?st" using st n by (simp add: live_def st1 bufs_in_def)
    have "returns (reg_bufs E [0..<?n] rc ?st) (\<lambda>(rc, st'). live ?n st' \<and> same_refs ?st st')"
      by (rule reg_bufs_live [OF l]) simp
    then obtain rc' st2 where r: "reg_bufs E [0..<?n] rc ?st = Some (rc', st2)" and l2: "live ?n st2"
      and sr: "same_refs ?st st2"
      by (auto simp: returns_iff)
    have "mm_stream_reg_buf E st = Some (rc', st2)"
      using rq True r by (simp add: mm_stream_reg_buf_def st1)
    moreover have s2: "s_fd st2 = s_fd st" "s_state st2 = s_state st" "s_buf_num st2 = s_buf_num st"
      "s_cmds st2 = []" "\<not> s_cmd_active st2"
      using staticD [OF same_refs_simps(1) [OF sr]] same_refs_simps(2) [OF sr] st by (simp_all add: st1)
    have "stream_wf (st2\<lparr>s_state := MM_STREAM_STATE_REG\<rparr>)"
      by (rule live_wf) (use l2 s2 st in \<open>simp_all add: live_def bufs_in_def\<close>)
    moreover have "stream_wf st2"
      by (rule live_wf) (use l2 s2 st wf in simp_all)
    ultimately show ?thesis by (simp add: enter_if_ok_def enter_def)
  qed
qed

lemma unreg_buf_wf:
  assumes wf: "stream_wf st" "s_state st = MM_STREAM_STATE_REG"
  shows "returns (Some (enter MM_STREAM_STATE_BUFFED (mm_stream_unreg_buf E st))) (\<lambda>(rc, st'). stream_wf st')"
  using wf by (auto simp: mm_stream_unreg_buf_def ask_eq enter_def stream_wf_def Let_def bufs_in_def)

lemma driver_bufs_off:
  assumes "mm_stream_streamoff E st = (rc, st')"
  shows "static st' = static st" "s_cmds st' = s_cmds st" "s_buf st' = s_buf st"
    "s_buf_status st' = s_buf_status st" "set (driver_bufs (s_log st')) \<subseteq> set (driver_bufs (s_log st))"
  using assms by (auto simp: mm_stream_streamoff_def ask_eq tell_eq Let_def split: if_splits)

lemma driver_bufs_on:
  assumes "mm_stream_streamon E st = (rc, st')"
  shows "static st' = static st" "s_cmds st' = s_cmds st" "s_buf st' = s_buf st"
    "s_buf_status st' = s_buf_status st" "driver_bufs (s_log st') = driver_bufs (s_log st)"
    "handed st' = handed st" "s_queued_buffer_count st' = s_queued_buffer_count st"
  using assms by (auto simp: mm_stream_streamon_def ask_eq tell_eq Let_def handed_def split: if_splits)

lemma live_subset:
  assumes "live n st" "static st' = static st" "s_cmds st' = s_cmds st" "s_buf st' = s_buf st"
    "s_buf_status st' = s_buf_status st" "set (driver_bufs (s_log st')) \<subseteq> set (driver_bufs (s_log st))"
  shows "live n st'"
  using assms staticD [OF assms(2)] by (auto simp: live_def bufs_in_def list_all_iff)

text \<open>The thread is released, when there is one, and the stream is off.\<close>

lemma off_wf:
  assumes st: "live (unat (s_buf_num st)) st" "0 < s_fd st" and ex: "exit_ok E"
    and a: "hc \<or> \<not> s_cmd_active st \<and> s_cmds st = []"
  shows "returns ((if hc then map_option snd (mm_camera_cmd_thread_release E st) else Some st) \<bind>
    (\<lambda>st. Some (rc, st\<lparr>s_state := MM_STREAM_STATE_REG\<rparr>))) (\<lambda>(rc, st'). stream_wf st')"
proof -
  have "returns (if hc then map_option snd (mm_camera_cmd_thread_release E st) else Some st)
      (\<lambda>st'. live (unat (s_buf_num st)) st' \<and> kept st st' \<and> s_cmds st' = [] \<and> \<not> s_cmd_active st')"
    using release_live [OF st(1) ex] st a by (auto intro!: returns_mapI elim!: returns_mono)
  then show ?thesis
  proof (rule returns_bindI)
    fix st'
    assume st': "live (unat (s_buf_num st)) st' \<and> kept st st' \<and> s_cmds st' = [] \<and> \<not> s_cmd_active st'"
    have "stream_wf (st'\<lparr>s_state := MM_STREAM_STATE_REG\<rparr>)"
      by (rule live_wf) (use st' st in \<open>auto simp: kept_def live_def bufs_in_def\<close>)
    then show "returns (Some (rc, st'\<lparr>s_state := MM_STREAM_STATE_REG\<rparr>)) (\<lambda>(rc, st'). stream_wf st')"
      by simp
  qed
qed

lemma stop_wf:
  assumes wf: "stream_wf st" "s_state st = MM_STREAM_STATE_ACTIVE" and ex: "exit_ok E"
  shows "returns (stream_stop E st) (\<lambda>(rc, st'). stream_wf st')"
proof -
  have l: "live (unat (s_buf_num st)) st" using wf by (intro wf_live) simp_all
  have a: "s_cmd_active st \<longleftrightarrow> has_cb st" "s_cmd_active st \<or> s_cmds st = []" "0 < s_fd st"
    using wf by (auto simp: stream_wf_def Let_def)
  obtain rc st1 where off: "mm_stream_streamoff E st = (rc, st1)" by fastforce
  note o = driver_bufs_off [OF off]
  note s1 = staticD [OF o(1)]
  have "live (unat (s_buf_num st1)) st1" using live_subset [OF l o] s1 by simp
  moreover have "has_cb st1 = has_cb st" by (simp add: has_cb_def s1)
  ultimately show ?thesis
    using off_wf [of st1 E "has_cb st" rc] ex a s1 o(2)
    by (auto simp: stream_stop_def off)
qed

lemma start_wf:
  assumes wf: "stream_wf st" "s_state st = MM_STREAM_STATE_REG" and ex: "exit_ok E"
  shows "returns (stream_start E st) (\<lambda>(rc, st'). stream_wf st')"
proof -
  let ?n = "unat (s_buf_num st)"
  have l: "live ?n st" using wf by (intro wf_live) simp_all
  have a: "\<not> s_cmd_active st" "s_cmds st = []" "0 < s_fd st" using wf by (auto simp: stream_wf_def Let_def)
  let ?st = "(if has_cb st then mm_camera_cmd_thread_launch st else st)\<lparr>s_state := MM_STREAM_STATE_ACTIVE\<rparr>"
  have l1: "live ?n ?st" using l by (auto simp: live_def bufs_in_def mm_camera_cmd_thread_launch_def)
  have s: "s_cmd_active ?st \<longleftrightarrow> has_cb st" "s_cmds ?st = []" "s_fd ?st = s_fd st" "s_buf_num ?st = s_buf_num st"
    "s_buf_cb ?st = s_buf_cb st" "s_state ?st = MM_STREAM_STATE_ACTIVE"
    using a by (simp_all add: mm_camera_cmd_thread_launch_def)
  obtain rc st1 where on: "mm_stream_streamon E ?st = (rc, st1)" by fastforce
  note o = driver_bufs_on [OF on]
  note s1 = staticD [OF o(1)] s o(2)
  have l2: "live (unat (s_buf_num st1)) st1" using live_subset [OF l1 o(1-4)] o(5) s1 by simp
  show ?thesis
  proof (cases "rc = 0")
    case True
    have "stream_wf st1"
      by (rule live_wf [OF l2]) (use s1 a(3) in \<open>simp_all add: has_cb_def\<close>)
    then show ?thesis using on True by (simp add: stream_start_def Let_def)
  next
    case False
    then show ?thesis
      using off_wf [of st1 E "has_cb st" rc] l2 ex a(3) s1 on by (simp add: stream_start_def Let_def)
  qed
qed

section \<open>Every event\<close>

lemma acquire_wf:
  assumes wf: "stream_wf st" "s_state st = MM_STREAM_STATE_INITED"
  shows "stream_wf (snd (mm_stream_fsm_inited E e st))"
  using wf
  by (auto simp: mm_stream_fsm_inited_def mm_stream_set_ext_mode_def ask_eq tell_eq Let_def stream_wf_def
      has_cb_def split: mm_stream_evt.splits)

lemma qbuf_evt_wf:
  assumes wf: "stream_wf st" "s_state st = MM_STREAM_STATE_ACTIVE" and i: "unat (bd_buf_idx b) < unat (s_buf_num st)"
  shows "returns (mm_stream_buf_done E b st) (\<lambda>(rc, st'). stream_wf st')"
proof -
  have l: "live (unat (s_buf_num st)) st" using wf by (intro wf_live) simp_all
  have c: "s_cmd_active st \<or> s_cmds st = []" using wf(1) by (auto simp: stream_wf_def Let_def)
  show ?thesis
    using buf_done_live [OF l refl i, of E]
    using c by (auto simp: same_refs_def elim!: returns_mono intro!: active_wf [OF wf])
qed

lemma fsm_wf:
  assumes wf: "stream_wf st" and E: "env_ok E" and e: "evt_ok st e"
  shows "returns (mm_stream_fsm_fn E e st) (\<lambda>(rc, st'). stream_wf st')"
proof -
  have id: "returns (Some (rc, st)) (\<lambda>(rc, st'). stream_wf st')" for rc :: int using wf by simp
  note ops = id parm_wf [OF wf] config_wf [OF wf] release_wf put_buf_wf [OF wf] reg_buf_wf [OF wf]
    unreg_buf_wf [OF wf] get_buf_wf [OF wf] start_wf [OF wf] stop_wf [OF wf] qbuf_evt_wf [OF wf]
  have Es: "exit_ok E" "hal_ok E" using E by (simp_all add: env_ok_def)
  show ?thesis
  proof (cases "s_state st")
    case MM_STREAM_STATE_INITED
    then show ?thesis
      using acquire_wf [OF wf, of E e] by (simp add: mm_stream_fsm_fn_def case_prod_beta)
  next
    case MM_STREAM_STATE_ACQUIRED
    then show ?thesis by (cases e) (simp_all add: mm_stream_fsm_fn_def mm_stream_fsm_acquired_def ops del: returns_Some)
  next
    case MM_STREAM_STATE_CFG
    then show ?thesis by (cases e) (simp_all add: mm_stream_fsm_fn_def mm_stream_fsm_cfg_def ops Es del: returns_Some)
  next
    case MM_STREAM_STATE_BUFFED
    then show ?thesis by (cases e) (simp_all add: mm_stream_fsm_fn_def mm_stream_fsm_buffed_def ops del: returns_Some)
  next
    case MM_STREAM_STATE_REG
    then show ?thesis by (cases e) (simp_all add: mm_stream_fsm_fn_def mm_stream_fsm_reg_def ops Es del: returns_Some)
  next
    case MM_STREAM_STATE_ACTIVE
    then show ?thesis
      using e by (cases e) (simp_all add: mm_stream_fsm_fn_def mm_stream_fsm_active_def ops Es del: returns_Some)
  qed (simp add: mm_stream_fsm_fn_def wf)
qed

lemma data_notify_wf:
  assumes wf: "stream_wf st" and E: "env_ok E"
  shows "returns (mm_stream_data_notify E st) stream_wf"
proof (cases "s_state st = MM_STREAM_STATE_ACTIVE")
  case True
  have l: "live (unat (s_buf_num st)) st" using wf True by (intro wf_live) simp_all
  have "driver_ok E" using E by (simp add: env_ok_def)
  from data_notify_live [OF l this]
  obtain st' where st': "mm_stream_data_notify E st = Some st'" "live (unat (s_buf_num st)) st'"
    "static st' = static st" and c: "s_cmd_active st \<or> s_cmds st' = s_cmds st"
    by (auto simp: returns_iff)
  have "s_cmd_active st \<or> s_cmds st' = []"
  proof (cases "s_cmd_active st")
    case False
    then have "s_cmds st = []" using wf by (auto simp: stream_wf_def Let_def)
    then show ?thesis using c by auto
  qed simp
  then show ?thesis
    using st' active_wf [OF wf True st'(2,3)] by simp
next
  case False
  then show ?thesis using wf by (simp add: mm_stream_data_notify_def)
qed

end
