(* ===== verification/MmStreamRuns.thy ===== *)
theory MmStreamRuns
  imports MmStreamFsm
begin

text \<open>
  Runs of a stream. \<open>stream_reachable\<close> takes the events of the channel, the frames of the driver, the
  rounds of the command thread and the flags the channel sets, in any order. \<open>session\<close> follows one
  start of the stream until it is stopped and keeps the references that are outside of it: with the
  channels, with the callbacks and with the HAL. \<open>stream_next\<close> is the state machine as a table.
\<close>

section \<open>The table of the state machine\<close>

fun stream_accepts :: "mm_stream_state \<Rightarrow> mm_stream_evt \<Rightarrow> bool" where
  "stream_accepts MM_STREAM_STATE_NOTUSED e = False"
| "stream_accepts MM_STREAM_STATE_INITED e = (case e of MM_STREAM_EVT_ACQUIRE \<Rightarrow> True | _ \<Rightarrow> False)"
| "stream_accepts s e = (case e of
      MM_STREAM_EVT_SET_PARM p \<Rightarrow> True
    | MM_STREAM_EVT_GET_PARM p \<Rightarrow> True
    | MM_STREAM_EVT_SET_FMT c \<Rightarrow> s = MM_STREAM_STATE_ACQUIRED \<or> s = MM_STREAM_STATE_CFG
    | MM_STREAM_EVT_RELEASE \<Rightarrow> s = MM_STREAM_STATE_ACQUIRED \<or> s = MM_STREAM_STATE_CFG
    | MM_STREAM_EVT_GET_BUF \<Rightarrow> s = MM_STREAM_STATE_CFG
    | MM_STREAM_EVT_PUT_BUF \<Rightarrow> s = MM_STREAM_STATE_BUFFED
    | MM_STREAM_EVT_REG_BUF \<Rightarrow> s = MM_STREAM_STATE_BUFFED
    | MM_STREAM_EVT_UNREG_BUF \<Rightarrow> s = MM_STREAM_STATE_REG
    | MM_STREAM_EVT_START \<Rightarrow> s = MM_STREAM_STATE_REG
    | MM_STREAM_EVT_STOP \<Rightarrow> s = MM_STREAM_STATE_ACTIVE
    | MM_STREAM_EVT_QBUF b \<Rightarrow> s = MM_STREAM_STATE_ACTIVE
    | MM_STREAM_EVT_DO_ACTION p \<Rightarrow> s = MM_STREAM_STATE_ACTIVE
    | MM_STREAM_EVT_GET_QUEUED_BUF_COUNT \<Rightarrow> s = MM_STREAM_STATE_ACTIVE
    | MM_STREAM_EVT_ACQUIRE \<Rightarrow> False)"

text \<open>The state after an accepted event that succeeded or failed.\<close>

fun stream_next :: "mm_stream_state \<Rightarrow> mm_stream_evt \<Rightarrow> bool \<Rightarrow> mm_stream_state" where
  "stream_next s MM_STREAM_EVT_ACQUIRE ok = (if ok then MM_STREAM_STATE_ACQUIRED else s)"
| "stream_next s MM_STREAM_EVT_RELEASE ok = MM_STREAM_STATE_NOTUSED"
| "stream_next s (MM_STREAM_EVT_SET_FMT c) ok = MM_STREAM_STATE_CFG"
| "stream_next s MM_STREAM_EVT_GET_BUF ok = (if ok then MM_STREAM_STATE_BUFFED else s)"
| "stream_next s MM_STREAM_EVT_PUT_BUF ok = MM_STREAM_STATE_CFG"
| "stream_next s MM_STREAM_EVT_REG_BUF ok = (if ok then MM_STREAM_STATE_REG else s)"
| "stream_next s MM_STREAM_EVT_UNREG_BUF ok = MM_STREAM_STATE_BUFFED"
| "stream_next s MM_STREAM_EVT_START ok = (if ok then MM_STREAM_STATE_ACTIVE else s)"
| "stream_next s MM_STREAM_EVT_STOP ok = MM_STREAM_STATE_REG"
| "stream_next s _ ok = s"

lemma upd_status_state: "upd_status i f st = Some st' \<Longrightarrow> s_state st' = s_state st"
  by (auto simp: upd_status_def split: if_splits option.splits)

lemma qbuf_state: "mm_stream_qbuf E b st = (rc, st') \<Longrightarrow> s_state st' = s_state st"
  by (auto simp: mm_stream_qbuf_def Let_def ask_eq tell_eq split: if_splits)

lemma buf_done_state: "mm_stream_buf_done E b st = Some (rc, st') \<Longrightarrow> s_state st' = s_state st"
  by (auto simp: mm_stream_buf_done_def Let_def split: if_splits prod.splits Option.bind_splits
      dest!: upd_status_state qbuf_state)

lemma reg_bufs_state: "reg_bufs E is rc st = Some (rc', st') \<Longrightarrow> s_state st' = s_state st"
  by (induction E "is" rc st rule: reg_bufs.induct)
    (auto split: if_splits option.splits prod.splits Option.bind_splits dest!: upd_status_state qbuf_state)

lemma reg_buf_state: "mm_stream_reg_buf E st = Some (rc, st') \<Longrightarrow> s_state st' = s_state st"
  by (auto simp: mm_stream_reg_buf_def mm_stream_request_buf_def ask_eq split: if_splits dest!: reg_bufs_state)

lemma deinit_state: "s_state (snd (mm_stream_deinit_bufs E st)) = s_state st"
  by (auto simp: mm_stream_deinit_bufs_def ask_eq split: option.split)

lemma init_bufs_state: "mm_stream_init_bufs E st = Some (rc, st') \<Longrightarrow> s_state st' = s_state st"
  by (auto simp: mm_stream_init_bufs_def Let_def ask_eq deinit_state split: if_splits option.splits)

lemmas op_states = buf_done_state reg_buf_state init_bufs_state

text \<open>An operation that goes on to its state in any case, and one that does so when it succeeds.\<close>

lemma enter_result:
  "map_option (enter s) r = Some (rc, st') \<Longrightarrow> s_state st' = s"
  "enter s r' = (rc, st') \<Longrightarrow> s_state st' = s"
  by (auto simp: enter_def)

lemma enter_if_ok_result:
  assumes "map_option (enter_if_ok s) r = Some (rc, st')" "\<And>rc st'. r = Some (rc, st') \<Longrightarrow> s_state st' = s0"
  shows "s_state st' = (if rc = 0 then s else s0)"
proof (cases r)
  case (Some x)
  then have "(rc, st') = enter_if_ok s x" "s_state (snd x) = s0"
    using assms by (cases x; simp)+
  then show ?thesis by (cases x; cases "fst x = 0") (simp_all add: enter_if_ok_def enter_def)
qed (use assms(1) in simp)

lemma parm_state: "stream_parm E c p st = (rc, st') \<Longrightarrow> s_state st' = s_state st"
  by (auto simp: stream_parm_def ask_eq split: if_splits)

lemma start_state: "stream_start E st = Some (rc, st') \<Longrightarrow> s_state st = MM_STREAM_STATE_REG \<Longrightarrow>
    s_state st' = (if rc = 0 then MM_STREAM_STATE_ACTIVE else MM_STREAM_STATE_REG)"
  by (auto simp: stream_start_def Let_def mm_stream_streamon_def ask_eq tell_eq split: if_splits Option.bind_splits)

lemma stop_state: "stream_stop E st = Some (rc, st') \<Longrightarrow> s_state st' = MM_STREAM_STATE_REG"
  by (auto simp: stream_stop_def split: prod.splits Option.bind_splits if_splits)

lemma acquire_state:
  "mm_stream_fsm_inited E MM_STREAM_EVT_ACQUIRE st = (rc, st') \<Longrightarrow> e_dev_name E \<Longrightarrow>
    s_state st' = (if rc = 0 then MM_STREAM_STATE_ACQUIRED else s_state st)"
  by (auto simp: mm_stream_fsm_inited_def mm_stream_set_ext_mode_def ask_eq tell_eq Let_def split: if_splits)

lemma release_state: "enter MM_STREAM_STATE_NOTUSED r = (rc, st') \<Longrightarrow> s_state st' = MM_STREAM_STATE_NOTUSED"
  by (rule enter_result)

definition follows_table :: "mm_stream_evt \<Rightarrow> stream_obj \<Rightarrow> int \<times> stream_obj \<Rightarrow> bool" where
  "follows_table e st r \<longleftrightarrow> (if stream_accepts (s_state st) e
     then s_state (snd r) = stream_next (s_state st) e (fst r = 0)
     else snd r = st \<and> (fst r = 0 \<or> fst r = -1))"

lemma fsm_follows_table:
  assumes "mm_stream_fsm_fn E e st = Some (rc, st')" "e_dev_name E"
  shows "follows_table e st (rc, st')"
proof (cases "s_state st")
  case MM_STREAM_STATE_NOTUSED
  then show ?thesis using assms by (simp add: follows_table_def mm_stream_fsm_fn_def)
next
  case MM_STREAM_STATE_INITED
  then show ?thesis
    using assms acquire_state [of E st rc st']
    by (cases e) (simp_all add: follows_table_def mm_stream_fsm_fn_def mm_stream_fsm_inited_def)
next
  case MM_STREAM_STATE_ACQUIRED
  then show ?thesis
    using assms by (cases e)
      (auto simp: follows_table_def mm_stream_fsm_fn_def mm_stream_fsm_acquired_def dest: enter_result parm_state)
next
  case MM_STREAM_STATE_CFG
  then show ?thesis
    using assms enter_if_ok_result [OF _ op_states(3)] by (cases e)
      (auto simp: follows_table_def mm_stream_fsm_fn_def mm_stream_fsm_cfg_def dest: enter_result parm_state)
next
  case MM_STREAM_STATE_BUFFED
  then show ?thesis
    using assms enter_if_ok_result [OF _ op_states(2)] by (cases e)
      (auto simp: follows_table_def mm_stream_fsm_fn_def mm_stream_fsm_buffed_def dest: enter_result parm_state)
next
  case MM_STREAM_STATE_REG
  then show ?thesis
    using assms by (cases e)
      (auto simp: follows_table_def mm_stream_fsm_fn_def mm_stream_fsm_reg_def dest: enter_result parm_state start_state)
next
  case MM_STREAM_STATE_ACTIVE
  then show ?thesis
    using assms by (cases e)
      (auto simp: follows_table_def mm_stream_fsm_fn_def mm_stream_fsm_active_def
        dest: parm_state stop_state op_states(1))
qed

section \<open>Everything that can happen to a stream\<close>

text \<open>The stream as \<open>mm_channel_add_stream\<close> fills it in before the first event. The channel bundles its
  streams, links them and asks to skip preview frames; a client registers further callbacks.\<close>

definition stream_opened :: "stream_obj \<Rightarrow> bool" where
  "stream_opened st \<longleftrightarrow> s_state st = MM_STREAM_STATE_INITED \<and> s_buf_cb st = replicate MM_CAMERA_STREAM_BUF_CB_MAX no_cb \<and>
     s_buf st = None \<and> s_buf_status st = None \<and> \<not> s_cmd_active st \<and> s_cmds st = []"

inductive stream_reachable :: "env \<Rightarrow> stream_obj \<Rightarrow> bool" for E where
  opened: "stream_opened st \<Longrightarrow> stream_reachable E st"
| event: "stream_reachable E st \<Longrightarrow> evt_ok st e \<Longrightarrow> mm_stream_fsm_fn E e st = Some (rc, st') \<Longrightarrow>
    stream_reachable E st'"
| frame: "stream_reachable E st \<Longrightarrow> mm_stream_data_notify E st = Some st' \<Longrightarrow> stream_reachable E st'"
| callback: "stream_reachable E st \<Longrightarrow> cmd_thread_step E st = Some st' \<Longrightarrow> stream_reachable E st'"
| flags: "stream_reachable E st \<Longrightarrow>
    stream_reachable E (st\<lparr>s_is_bundled := b, s_is_linked := l, s_previewSkipCnt := k\<rparr>)"
| register: "stream_reachable E st \<Longrightarrow> s_state st \<noteq> MM_STREAM_STATE_ACTIVE \<Longrightarrow> cb_count val = -1 \<Longrightarrow>
    mm_stream_reg_buf_cb val st = (rc, st') \<Longrightarrow> stream_reachable E st'"

lemma cmd_step_wf:
  assumes wf: "stream_wf st"
  shows "returns (cmd_thread_step E st) stream_wf"
proof (cases "s_cmds st")
  case Nil
  then show ?thesis using wf by (simp add: cmd_thread_step_def)
next
  case (Cons b r)
  then have a: "s_cmd_active st" "s_state st = MM_STREAM_STATE_ACTIVE" using wf by (auto simp: stream_wf_def Let_def)
  have l: "live (unat (s_buf_num st)) st" using wf a(2) by (intro wf_live) simp_all
  show ?thesis
    by (rule returns_mono [OF cmd_thread_step_live [OF l, of E]]) (use active_wf [OF wf a(2)] a(1) in blast)
qed

lemma cbs_ok_update: "cbs_ok cs \<Longrightarrow> cb_count val = -1 \<Longrightarrow> cbs_ok (cs[k := val])"
  by (cases "k < length cs") (auto simp: cbs_ok_def list_all_length nth_list_update)

lemma reg_cb_wf:
  assumes "stream_wf st" "s_state st \<noteq> MM_STREAM_STATE_ACTIVE" "cb_count val = -1"
    and "mm_stream_reg_buf_cb val st = (rc, st')"
  shows "stream_wf st'"
proof -
  have "stream_wf (st\<lparr>s_buf_cb := (s_buf_cb st)[k := val]\<rparr>)" for k
    using assms(1-3) by (auto simp: stream_wf_def Let_def bufs_in_def cbs_ok_update)
  then show ?thesis
    using assms(1,4) by (auto simp: mm_stream_reg_buf_cb_def Let_def split: if_splits)
qed

lemma flags_wf:
  assumes "stream_wf st"
  shows "stream_wf (st\<lparr>s_is_bundled := b, s_is_linked := l, s_previewSkipCnt := k\<rparr>)" (is "stream_wf ?st")
proof -
  have "bufs_in n ?st \<longleftrightarrow> bufs_in n st" "has_cb ?st \<longleftrightarrow> has_cb st" for n
    by (simp_all add: bufs_in_def has_cb_def)
  then show ?thesis using assms by (auto simp: stream_wf_def Let_def)
qed

lemma opened_wf: "stream_opened st \<Longrightarrow> stream_wf st"
  by (simp add: stream_opened_def stream_wf_def Let_def cbs_ok_def list_all_length no_cb_def)

lemma reachable_wf:
  assumes "stream_reachable E st" "env_ok E"
  shows "stream_wf st"
  using assms
proof (induction rule: stream_reachable.induct)
  case (event st e rc st')
  then show ?case using fsm_wf [of st E e] by (auto simp: returns_iff)
next
  case (frame st st')
  then show ?case using data_notify_wf [of st E] by (auto simp: returns_iff)
next
  case (callback st st')
  then show ?case using cmd_step_wf [of st E] by (auto simp: returns_iff)
next
  case (flags st b l k)
  then show ?case using flags_wf by simp
next
  case (register st val rc st')
  then show ?case using reg_cb_wf by blast
qed (simp add: opened_wf)

section \<open>A session\<close>

text \<open>The HAL keeps the buffers whose registration is deferred: it queues them later.\<close>

definition flagged :: "stream_obj \<Rightarrow> 32 word \<Rightarrow> bool" where
  "flagged st i = initial_reg_flag (stat st i)"

definition idxs :: "stream_obj \<Rightarrow> 32 word list" where
  "idxs st = map of_nat [0..<unat (s_buf_num st)]"

definition deferred :: "stream_obj \<Rightarrow> 32 word multiset" where
  "deferred st = mset (filter (\<lambda>i. \<not> flagged st i) (idxs st))"

text \<open>A preview stream has a callback, as the HAL registers one with it.\<close>

definition preview_shown :: "stream_obj \<Rightarrow> bool" where
  "preview_shown st \<longleftrightarrow> has_cb st \<or> (case s_stream_info st of None \<Rightarrow> True
     | Some si \<Rightarrow> stream_type si \<noteq> CAM_STREAM_TYPE_PREVIEW)"

definition new_out :: "32 word multiset \<Rightarrow> stream_obj \<Rightarrow> stream_obj \<Rightarrow> 32 word multiset" where
  "new_out out st st' = out + (handed st' - handed st)"

fun ends_session :: "mm_stream_evt \<Rightarrow> bool" where
  "ends_session MM_STREAM_EVT_STOP = True"
| "ends_session (MM_STREAM_EVT_QBUF b) = True"
| "ends_session _ = False"

text \<open>The references outside: those of the deferred buffers, and each one handed out, until it is given
  back with \<open>QBUF\<close>.\<close>

inductive session :: "env \<Rightarrow> stream_obj \<Rightarrow> 32 word multiset \<Rightarrow> bool" for E where
  started: "stream_wf st0 \<Longrightarrow> s_state st0 = MM_STREAM_STATE_BUFFED \<Longrightarrow> preview_shown st0 \<Longrightarrow>
    mm_stream_fsm_fn E MM_STREAM_EVT_REG_BUF st0 = Some (0, st1) \<Longrightarrow>
    mm_stream_fsm_fn E MM_STREAM_EVT_START st1 = Some (0, st2) \<Longrightarrow> session E st2 (deferred st0)"
| frame: "session E st out \<Longrightarrow> mm_stream_data_notify E st = Some st' \<Longrightarrow> session E st' (new_out out st st')"
| callback: "session E st out \<Longrightarrow> cmd_thread_step E st = Some st' \<Longrightarrow> session E st' (new_out out st st')"
| give_back: "session E st out \<Longrightarrow> bd_buf_idx b \<in># out \<Longrightarrow>
    mm_stream_fsm_fn E (MM_STREAM_EVT_QBUF b) st = Some (rc, st') \<Longrightarrow> session E st' (out - {#bd_buf_idx b#})"
| other: "session E st out \<Longrightarrow> \<not> ends_session e \<Longrightarrow> mm_stream_fsm_fn E e st = Some (rc, st') \<Longrightarrow>
    session E st' out"
| flags: "session E st out \<Longrightarrow> session E (st\<lparr>s_is_linked := l, s_previewSkipCnt := k\<rparr>) out"

text \<open>The buffers are registered: those flagged go to the driver, the others to the HAL.\<close>

definition registered :: "bool \<Rightarrow> mm_stream_buf_status \<Rightarrow> mm_stream_buf_status" where
  "registered f = (\<lambda>b. b\<lparr>buf_refcnt := if f then 0 else 1, in_kernel := f\<rparr>)"

lemma reg_bufs_own:
  assumes "live n st" "\<forall>i \<in> set is. i < n" "distinct is" "reg_bufs E is rc st = Some (0, st')"
  shows "driver_bufs (s_log st') = driver_bufs (s_log st) @ filter (flagged st) (map of_nat is) \<and>
    s_queued_buffer_count st' = s_queued_buffer_count st + of_nat (length (filter (flagged st) (map of_nat is))) \<and>
    stat st' = (\<lambda>i. if i \<in> of_nat ` set is then registered (flagged st i) (stat st i) else stat st i)"
  using assms
proof (induction "is" arbitrary: rc st)
  case Nil
  then show ?case by (simp add: fun_eq_iff)
next
  case (Cons i "is")
  obtain bs l where l: "s_buf st = Some bs" "s_buf_status st = Some l" "length bs = n" "length l = n"
    "bd_buf_idx (bs ! i) = of_nat i"
    using Cons.prems by (auto simp: live_def bufs_in_def)
  have i: "i < n" "n \<le> 24" using Cons.prems by (simp_all add: live_def)
  then have u: "unat (of_nat i :: 32 word) = i" "unat (of_nat i :: 32 word) < n" by (simp_all add: unat_of_nat)
  have fl: "flagged st (of_nat i) \<longleftrightarrow> initial_reg_flag (l ! i)"
    using l i(1) u by (simp add: flagged_def stat_def get_status_def)
  have ni: "of_nat i \<notin> (of_nat ` set is :: 32 word set)"
  proof
    assume "of_nat i \<in> (of_nat ` set is :: 32 word set)"
    then obtain j where j: "j \<in> set is" "(of_nat i :: 32 word) = of_nat j" by auto
    then have "unat (of_nat j :: 32 word) = i" using u(1) by simp
    moreover have "j < n" "j \<noteq> i" using Cons.prems(2,3) j(1) by auto
    ultimately show False using i(2) by (simp add: unat_of_nat)
  qed
  obtain rc1 st1 st2 where st1: "live n st1" "s_buf_status st1 = s_buf_status st"
      "driver_bufs (s_log st1) = driver_bufs (s_log st) @ (if flagged st (of_nat i) then [of_nat i] else [])"
      "s_queued_buffer_count st1 = s_queued_buffer_count st + (if flagged st (of_nat i) then 1 else 0)"
    and u2: "upd_status (of_nat i) (registered (flagged st (of_nat i))) st1 = Some st2"
    and r: "reg_bufs E is rc1 st2 = Some (0, st')"
  proof (cases "flagged st (of_nat i)")
    case False
    then show ?thesis
      using that [of st _ rc] Cons.prems l i(1) fl
      by (auto simp: registered_def split: Option.bind_splits)
  next
    case True
    obtain rc1 st1 where qb: "mm_stream_qbuf E (bs ! i) st = (rc1, st1)" by fastforce
    note q = qbuf_effect [OF qb]
    have "live n st1"
      by (rule live_same [OF Cons.prems(1) q(1-3) _ u(2)]) (auto simp: q(4) l(5))
    moreover have "rc1 = 0" using Cons.prems(4) l i(1) fl True qb by (auto split: if_splits)
    ultimately show ?thesis
      using that [of st1 _ rc1] Cons.prems(4) l i(1) fl True qb q
      by (auto simp: registered_def split: Option.bind_splits)
  qed
  have st2: "live n st2" "s_log st2 = s_log st1" "s_queued_buffer_count st2 = s_queued_buffer_count st1"
    "stat st2 = (stat st)(of_nat i := registered (flagged st (of_nat i)) (stat st (of_nat i)))"
    using returnsD [OF upd_status_live [OF st1(1) u(2)] u2] stat_same [OF st1(2)] by simp_all
  have fl2: "flagged st2 = flagged st"
    by (auto simp: flagged_def st2(4) registered_def fun_eq_iff)
  show ?case
    using Cons.IH [OF st2(1) _ _ r] Cons.prems(2,3) st1(3,4) st2(2-4) ni fl2
    by (auto simp: fun_eq_iff)
qed

text \<open>The invariant of a session.\<close>

definition outside :: "32 word multiset \<Rightarrow> stream_obj \<Rightarrow> 32 word \<Rightarrow> int" where
  "outside out st i = int (count out i) - int (count (handed st) i)"

definition consumed :: "stream_obj \<Rightarrow> bool" where
  "consumed st \<longleftrightarrow> s_is_bundled st \<or> has_cb st"

definition session_ok :: "bool \<Rightarrow> stream_obj \<Rightarrow> 32 word multiset \<Rightarrow> bool" where
  "session_ok strict st out \<longleftrightarrow> stream_wf st \<and> s_state st = MM_STREAM_STATE_ACTIVE \<and> preview_shown st \<and>
     (\<forall>i \<in># out. unat i < unat (s_buf_num st)) \<and> own strict (unat (s_buf_num st)) (outside out st) st"

lemma outside_refs: "refs st (outside out st) i = int (count out i + queued_refs st i)"
  by (simp add: refs_def outside_def)

lemma outside_ok: "outside_ok (outside out st) st"
  by (simp add: outside_ok_def outside_def)

lemma outside_new: "grew n st st' \<Longrightarrow> outside (new_out out st st') st' = outside out st"
proof
  fix i
  assume "grew n st st'"
  then have "handed st \<subseteq># handed st'" by (auto simp: grew_def)
  then have "count (handed st) i \<le> count (handed st') i" by (rule mset_subset_eq_count)
  then show "outside (new_out out st st') st' i = outside out st i"
    by (simp add: outside_def new_out_def)
qed

lemma unat_idx: "j < unat (s_buf_num st) \<Longrightarrow> unat (of_nat j :: 32 word) = j"
proof -
  assume "j < unat (s_buf_num st)"
  moreover have "unat (s_buf_num st) < 2 ^ LENGTH(8)" by (rule unsigned_less)
  ultimately have "j < 256" by simp
  then show ?thesis by (simp add: unat_of_nat)
qed

lemma idxs_in: "i \<in> set (idxs st) \<longleftrightarrow> unat i < unat (s_buf_num st)"
proof
  assume "i \<in> set (idxs st)"
  then show "unat i < unat (s_buf_num st)" by (auto simp: idxs_def unat_idx)
next
  assume *: "unat i < unat (s_buf_num st)"
  have "of_nat (unat i) = i" by simp
  then show "i \<in> set (idxs st)"
    unfolding idxs_def set_map by (rule image_eqI [OF sym]) (simp add: *)
qed

lemma idxs_distinct: "distinct (idxs st)"
proof -
  have "inj_on (of_nat :: nat \<Rightarrow> 32 word) {0..<unat (s_buf_num st)}"
    by (intro inj_onI) (metis atLeastLessThan_iff unat_idx)
  then show ?thesis by (simp add: idxs_def distinct_map)
qed

text \<open>Registering and starting begins a session, whatever the environment.\<close>

lemma count_distinct: "distinct xs \<Longrightarrow> count (mset xs) i = of_bool (i \<in> set xs)"
  by (simp add: distinct_count_atmost_1)

lemma registered_own:
  assumes live: "live n st" and n: "n = unat (s_buf_num st)" and st: "s_cmds st = []" "driver_bufs (s_log st) = []"
    "s_queued_buffer_count st = 0"
    and reg: "reg_bufs E [0..<n] rc st = Some (0, st')" and sr: "same_refs st st'"
  shows "own True n (outside (deferred st) st') st'"
proof -
  have r: "driver_bufs (s_log st') = filter (flagged st) (idxs st)"
    "s_queued_buffer_count st' = of_nat (length (filter (flagged st) (idxs st)))"
    "stat st' = (\<lambda>i. if i \<in> set (idxs st) then registered (flagged st i) (stat st i) else stat st i)"
    using reg_bufs_own [OF live _ _ reg] st by (simp_all add: idxs_def n)
  have q: "queued_refs st' i = 0" for i
    using same_refs_simps(2) [OF sr] st(1) by (simp add: queued_refs_def)
  have "count_ok True (outside (deferred st) st') st' i" if "unat i < n" for i
  proof -
    have i: "i \<in> set (idxs st)" using that n by (simp add: idxs_in)
    then have "count (deferred st) i = of_bool (\<not> flagged st i)"
      using idxs_distinct [of st] by (simp add: deferred_def count_distinct)
    then show ?thesis
      using i r(1,3) by (simp add: count_ok_def Let_def outside_refs q registered_def)
  qed
  moreover have "length (filter (flagged st) (idxs st)) \<le> 24"
    using live n length_filter_le [of "flagged st" "idxs st"] by (simp add: live_def idxs_def)
  ultimately show ?thesis
    using r idxs_distinct [of st] by (simp add: own_def unat_of_nat)
qed

end
