(* ===== verification/MmStreamSession.thy ===== *)
theory MmStreamSession
  imports MmStreamRuns
begin

text \<open>
  The invariant of a session: from the registration of the buffers to the stop of the stream every
  reference is counted, so a buffer is with the driver or with those who have references to it.
\<close>

section \<open>Starting\<close>

lemma start_keeps:
  assumes "stream_start E st = Some (0, st')" "s_cmds st = []"
  shows "handed st' = handed st" "s_cmds st' = []" "s_buf_status st' = s_buf_status st"
    "driver_bufs (s_log st') = driver_bufs (s_log st)" "s_queued_buffer_count st' = s_queued_buffer_count st"
    "s_buf_num st' = s_buf_num st" "s_buf_cb st' = s_buf_cb st" "s_stream_info st' = s_stream_info st"
proof -
  let ?st = "(if has_cb st then mm_camera_cmd_thread_launch st else st)\<lparr>s_state := MM_STREAM_STATE_ACTIVE\<rparr>"
  have on: "mm_stream_streamon E ?st = (0, st')"
    using assms(1) by (auto simp: stream_start_def Let_def split: prod.splits if_splits Option.bind_splits)
  note o = driver_bufs_on [OF on] and s = staticD [OF driver_bufs_on(1) [OF on]]
  show "handed st' = handed st" "s_cmds st' = []" "s_buf_status st' = s_buf_status st"
    "driver_bufs (s_log st') = driver_bufs (s_log st)" "s_queued_buffer_count st' = s_queued_buffer_count st"
    "s_buf_num st' = s_buf_num st" "s_buf_cb st' = s_buf_cb st" "s_stream_info st' = s_stream_info st"
    using o s assms(2) by (simp_all add: mm_camera_cmd_thread_launch_def handed_def)
qed

lemma started_ok:
  assumes st0: "stream_wf st0" "s_state st0 = MM_STREAM_STATE_BUFFED" "preview_shown st0"
    and reg: "mm_stream_fsm_fn E MM_STREAM_EVT_REG_BUF st0 = Some (0, st1)"
    and start: "mm_stream_fsm_fn E MM_STREAM_EVT_START st1 = Some (0, st2)" and E: "env_ok E"
  shows "session_ok True st2 (deferred st0)"
proof -
  let ?n = "unat (s_buf_num st0)"
  have wf1: "stream_wf st1" using fsm_wf [OF st0(1) E, of MM_STREAM_EVT_REG_BUF] reg by simp
  have wf2: "stream_wf st2" using fsm_wf [OF wf1 E, of MM_STREAM_EVT_START] start by simp
  obtain st where r: "mm_stream_reg_buf E st0 = Some (0, st)" "st1 = st\<lparr>s_state := MM_STREAM_STATE_REG\<rparr>"
    using reg st0(2) by (auto simp: mm_stream_fsm_fn_def mm_stream_fsm_buffed_def enter_if_ok_def enter_def split: if_splits)
  let ?st0 = "st0\<lparr>s_log := s_log st0 @ [(Io_REQBUFS ?n, 0)], s_queued_buffer_count := 0\<rparr>"
  have rb: "reg_bufs E [0..<?n] 0 ?st0 = Some (0, st)" and n: "?n \<le> 24"
    using r(1) by (auto simp: mm_stream_reg_buf_def mm_stream_request_buf_def ask_eq MM_CAMERA_MAX_NUM_FRAMES_def
        word_less_nat_alt not_less split: if_splits)
  have l: "live ?n ?st0" and c: "s_cmds st0 = []"
    using st0(1,2) n by (auto simp: stream_wf_def Let_def live_def bufs_in_def)
  have sr: "same_refs ?st0 st"
    using reg_bufs_live [OF l, of "[0..<?n]" E 0] rb by (auto simp: returns_iff)
  have sm: "stat ?st0 = stat st0" by (rule stat_same) simp
  have df: "deferred ?st0 = deferred st0"
    by (simp add: deferred_def flagged_def sm idxs_def)
  have "own True ?n (outside (deferred st0) st) st"
    using registered_own [OF l _ _ _ _ rb sr] c df by simp
  moreover have c1: "s_cmds st1 = []" "s_state st1 = MM_STREAM_STATE_REG"
    using same_refs_simps(2) [OF sr] c r(2) by simp_all
  have s: "stream_start E st1 = Some (0, st2)"
    using start c1(2) by (simp add: mm_stream_fsm_fn_def mm_stream_fsm_reg_def)
  note k = start_keeps [OF s c1(1)]
  have sm2: "stat st2 = stat st" using stat_same [OF k(3)] r(2) by (simp add: stat_def get_status_def fun_eq_iff)
  have q: "queued_refs st2 = queued_refs st" "s_cmds st = []"
    using k(2) same_refs_simps(2) [OF sr] c by (simp_all add: queued_refs_def fun_eq_iff)
  have h: "handed st2 = handed st" using k(1) r(2) by (simp add: handed_def)
  have "own True n base st2 = own True n base st" for n base
    using k(4,5) r(2) by (simp add: own_def count_ok_def Let_def sm2 refs_def h q)
  moreover have "outside out st2 = outside out st" for out
    by (simp add: outside_def h fun_eq_iff)
  moreover have "s_buf_num st2 = s_buf_num st0" "s_buf_cb st2 = s_buf_cb st0" "s_stream_info st2 = s_stream_info st0"
    using k(6-8) r(2) staticD [OF same_refs_simps(1) [OF sr]] by simp_all
  moreover have "s_state st2 = MM_STREAM_STATE_ACTIVE"
    using start_state [OF s c1(2)] by simp
  moreover have "\<forall>i \<in># deferred st0. unat i < ?n"
    by (auto simp: deferred_def idxs_in)
  ultimately show ?thesis
    using wf2 st0(3) by (simp add: session_ok_def preview_shown_def has_cb_def)
qed

section \<open>Every step\<close>

lemma outside_cong: "handed st' = handed st \<Longrightarrow> outside out st' = outside out st"
  by (simp add: outside_def fun_eq_iff)

lemma session_range: "session_ok strict st out \<Longrightarrow> \<forall>i \<in># out. unat i < unat (s_buf_num st)"
  by (simp add: session_ok_def)

lemma session_live: "session_ok strict st out \<Longrightarrow> live (unat (s_buf_num st)) st"
  unfolding session_ok_def by (intro wf_live) auto

lemma own_weaken: "own True n base st \<Longrightarrow> own strict n base st"
  by (auto simp: own_def count_ok_def Let_def)

lemma session_weaken: "session_ok True st out \<Longrightarrow> session_ok strict st out"
  by (auto simp: session_ok_def own_weaken)

lemma preview_static: "static st' = static st \<Longrightarrow> preview_shown st' = preview_shown st"
  by (simp add: preview_shown_def has_cb_def static_def)

lemma consumed_static: "static st' = static st \<Longrightarrow> consumed st' = consumed st"
  by (simp add: consumed_def has_cb_def static_def)

lemma preview_skip: "preview_shown st \<Longrightarrow> skip_ok st"
  by (auto simp: preview_shown_def skip_ok_def skip_preview_def split: if_splits)

text \<open>What a step has to show.\<close>

lemma grew_new: "grew n st st' \<Longrightarrow> \<forall>i \<in># out. unat i < n \<Longrightarrow> \<forall>i \<in># new_out out st st'. unat i < n"
  by (auto simp: grew_def new_out_def)

lemma session_stepI:
  assumes "session_ok strict st out" "stream_wf st'" "static st' = static st"
    and "\<forall>i \<in># out'. unat i < unat (s_buf_num st)" "own strict (unat (s_buf_num st)) (outside out' st') st'"
  shows "session_ok strict st' out'"
  using assms staticD [OF assms(3)] preview_static [OF assms(3)] by (simp add: session_ok_def)

lemma frame_session:
  assumes ok: "session_ok strict st out" and E: "env_ok E" and s: "strict \<longrightarrow> reliable E \<and> consumed st"
    and step: "mm_stream_data_notify E st = Some st'"
  shows "session_ok strict st' (new_out out st st')" "static st' = static st" "grew (unat (s_buf_num st)) st st'"
proof -
  have wf: "stream_wf st" and a: "s_state st = MM_STREAM_STATE_ACTIVE" using ok by (simp_all add: session_ok_def)
  have "driver_ok E" using E by (simp add: env_ok_def)
  from returnsD [OF data_notify_live [OF session_live [OF ok] this] step]
  have d: "static st' = static st" "grew (unat (s_buf_num st)) st st'"
    and own: "\<forall>strict base. own strict (unat (s_buf_num st)) base st \<longrightarrow> outside_ok base st \<longrightarrow> skip_ok st \<longrightarrow>
      notify_fits strict E st \<longrightarrow> own strict (unat (s_buf_num st)) base st'"
    by blast+
  have "s_cmd_active st \<longleftrightarrow> has_cb st" using wf a by (auto simp: stream_wf_def Let_def)
  then have "notify_fits strict E st" using s by (auto simp: notify_fits_def consumed_def)
  then have "own strict (unat (s_buf_num st)) (outside out st) st'"
    using own ok outside_ok preview_skip by (simp add: session_ok_def)
  moreover have "\<forall>i \<in># new_out out st st'. unat i < unat (s_buf_num st)"
    by (rule grew_new [OF d(2) session_range [OF ok]])
  ultimately show "session_ok strict st' (new_out out st st')"
    using returnsD [OF data_notify_wf [OF wf E] step] d
    by (intro session_stepI [OF ok]) (simp_all add: outside_new)
  show "static st' = static st" "grew (unat (s_buf_num st)) st st'" by (fact d)+
qed

lemma callback_session:
  assumes ok: "session_ok strict st out" and s: "strict \<longrightarrow> reliable E"
    and step: "cmd_thread_step E st = Some st'"
  shows "session_ok strict st' (new_out out st st')" "static st' = static st" "grew (unat (s_buf_num st)) st st'"
proof -
  have wf: "stream_wf st" using ok by (simp add: session_ok_def)
  from returnsD [OF cmd_thread_step_live [OF session_live [OF ok], of E] step]
  have d: "static st' = static st" "grew (unat (s_buf_num st)) st st'"
    and own: "\<forall>strict base. own strict (unat (s_buf_num st)) base st \<longrightarrow> outside_ok base st \<longrightarrow>
      (strict \<longrightarrow> reliable E) \<longrightarrow> own strict (unat (s_buf_num st)) base st'"
    by blast+
  have "own strict (unat (s_buf_num st)) (outside out st) st'"
    using own ok outside_ok s by (simp add: session_ok_def)
  moreover have "\<forall>i \<in># new_out out st st'. unat i < unat (s_buf_num st)"
    by (rule grew_new [OF d(2) session_range [OF ok]])
  ultimately show "session_ok strict st' (new_out out st st')"
    using returnsD [OF cmd_step_wf [OF wf] step] d by (intro session_stepI [OF ok]) (simp_all add: outside_new)
  show "static st' = static st" "grew (unat (s_buf_num st)) st st'" by (fact d)+
qed

lemma give_back_session:
  assumes ok: "session_ok strict st out" and s: "strict \<longrightarrow> reliable E" and i: "bd_buf_idx b \<in># out"
  shows "returns (mm_stream_fsm_fn E (MM_STREAM_EVT_QBUF b) st) (\<lambda>(rc, st').
    session_ok strict st' (out - {#bd_buf_idx b#}) \<and> static st' = static st \<and> handed st' = handed st \<and>
    s_cmds st' = s_cmds st)"
proof -
  let ?i = "bd_buf_idx b" and ?n = "unat (s_buf_num st)"
  have wf: "stream_wf st" and a: "s_state st = MM_STREAM_STATE_ACTIVE" and o: "own strict ?n (outside out st) st"
    and n: "unat ?i < ?n"
    using ok i by (simp_all add: session_ok_def)
  have out: "outside out st = (outside (out - {#?i#}) st)(?i := outside (out - {#?i#}) st ?i + 1)"
    using i by (auto simp: outside_def fun_eq_iff count_greater_zero_iff [symmetric] simp del: count_greater_zero_iff)
  have pos: "0 \<le> refs st (outside (out - {#?i#}) st) ?i"
    by (simp only: outside_refs of_nat_0_le_iff)
  obtain rc st' where d: "mm_stream_buf_done E b st = Some (rc, st')" "same_refs st st'"
    and own: "own strict ?n (outside (out - {#?i#}) st) st'"
    using buf_done_live [OF session_live [OF ok] refl n, of E] o pos s out by (auto simp: returns_iff)
  note k = same_refs_simps [OF d(2)]
  have "outside (out - {#?i#}) st' = outside (out - {#?i#}) st"
    by (rule outside_cong [OF k(3)])
  moreover have "stream_wf st'"
    using qbuf_evt_wf [OF wf a n, of E] d(1) by simp
  moreover have "\<forall>j \<in># out - {#?i#}. unat j < ?n"
    using ok by (auto simp: session_ok_def dest: in_diffD)
  ultimately have "session_ok strict st' (out - {#?i#})"
    using own k(1) by (intro session_stepI [OF ok]) simp_all
  then show ?thesis
    using d(1) k a by (simp add: mm_stream_fsm_fn_def mm_stream_fsm_active_def)
qed

text \<open>Events that do not take part.\<close>

lemma own_log:
  assumes "static st' = static st" "same_refs st st'" "s_buf_status st' = s_buf_status st"
    "driver_bufs (s_log st') = driver_bufs (s_log st)" "s_queued_buffer_count st' = s_queued_buffer_count st"
    "session_ok strict st out" "stream_wf st'"
  shows "session_ok strict st' out"
proof (rule session_stepI [OF assms(6,7,1)])
  have o: "outside out st' = outside out st"
    by (rule outside_cong [OF same_refs_simps(3) [OF assms(2)]])
  have "own strict (unat (s_buf_num st)) (outside out st) st"
    using assms(6) by (simp add: session_ok_def)
  then show "own strict (unat (s_buf_num st)) (outside out st') st'"
    unfolding o by (rule own_cong [OF _ assms(2-5)])
qed (rule session_range [OF assms(6)])

lemma parm_log:
  assumes "stream_parm E c p st = (rc, st')"
  shows "\<exists>log. st' = st\<lparr>s_log := log\<rparr> \<and> (c = Ctrl_s_stream_parm \<or> c = Ctrl_g_stream_parm \<longrightarrow>
    driver_bufs log = driver_bufs (s_log st))"
proof (cases p)
  case True
  then have "st' = st\<lparr>s_log := s_log st @ [(c, rc)]\<rparr>" using assms by (auto simp: stream_parm_def ask_eq)
  then show ?thesis by (intro exI [of _ "s_log st @ [(c, rc)]"]) auto
next
  case False
  then have "st' = st\<lparr>s_log := s_log st\<rparr>" using assms by (auto simp: stream_parm_def)
  then show ?thesis by blast
qed

lemma active_log:
  assumes "mm_stream_fsm_active E e st = Some (rc, st')" "\<not> ends_session e"
  shows "\<exists>log. st' = st\<lparr>s_log := log\<rparr> \<and> driver_bufs log = driver_bufs (s_log st)"
proof -
  have "st' = st\<lparr>s_log := s_log st\<rparr> \<or>
      (\<exists>c p. (c = Ctrl_s_stream_parm \<or> c = Ctrl_g_stream_parm) \<and> stream_parm E c p st = (rc, st'))"
    using assms by (cases e) (simp_all add: mm_stream_fsm_active_def, blast+)
  then show ?thesis using parm_log by blast
qed

lemma other_session:
  assumes ok: "session_ok strict st out" and e: "\<not> ends_session e"
    and step: "mm_stream_fsm_fn E e st = Some (rc, st')"
  shows "session_ok strict st' out" "static st' = static st"
proof -
  have a: "s_state st = MM_STREAM_STATE_ACTIVE" and wf: "stream_wf st"
    using ok by (simp_all add: session_ok_def)
  obtain log where log: "st' = st\<lparr>s_log := log\<rparr>" "driver_bufs log = driver_bufs (s_log st)"
    using active_log [of E e st rc st'] step a e by (auto simp: mm_stream_fsm_fn_def)
  show s: "static st' = static st" by (simp add: log)
  have k: "driver_bufs (s_log st') = driver_bufs (s_log st)" "same_refs st st'" "s_buf_status st' = s_buf_status st"
    "s_queued_buffer_count st' = s_queued_buffer_count st"
    by (simp_all add: log same_refs_def handed_def)
  have "stream_wf st'" unfolding log(1) by (rule wf_log [OF wf]) (simp add: log)
  then show "session_ok strict st' out"
    using own_log [OF s k(2,3,1,4) ok] by simp
qed

lemma flags_session:
  assumes "session_ok strict st out"
  shows "session_ok strict (st\<lparr>s_is_linked := l, s_previewSkipCnt := k\<rparr>) out" (is "session_ok _ ?st _")
proof -
  have "stream_wf ?st" using flags_wf [of st, where b = "s_is_bundled st" and l = l and k = k] assms by (simp add: session_ok_def)
  moreover have "stat ?st = stat st" by (rule stat_same) simp
  moreover have "handed ?st = handed st" "queued_refs ?st = queued_refs st"
    by (simp_all add: handed_def queued_refs_def fun_eq_iff)
  ultimately show ?thesis
    using assms by (simp add: session_ok_def preview_shown_def has_cb_def own_def count_ok_def Let_def refs_def outside_def)
qed

section \<open>Every session\<close>

lemma session_ok:
  assumes "session E st out" "env_ok E"
  shows "session_ok (reliable E \<and> consumed st) st out"
  using assms
proof (induction rule: session.induct)
  case (started st0 st1 st2)
  then show ?case using session_weaken [OF started_ok [OF started(1-6)]] by simp
next
  case (frame st out st')
  have ok: "session_ok (reliable E \<and> consumed st) st out" by (rule frame.IH [OF frame.prems])
  show ?case
    using frame_session [OF ok frame.prems _ frame.hyps(2)] consumed_static [of st' st] by simp
next
  case (callback st out st')
  have ok: "session_ok (reliable E \<and> consumed st) st out" by (rule callback.IH [OF callback.prems])
  show ?case
    using callback_session [OF ok _ callback.hyps(2)] consumed_static [of st' st] by simp
next
  case (give_back st out b rc st')
  have ok: "session_ok (reliable E \<and> consumed st) st out" by (rule give_back.IH [OF give_back.prems])
  show ?case
    using returnsD [OF give_back_session [OF ok _ give_back.hyps(2), of E] give_back.hyps(3)]
      consumed_static [of st' st] by simp
next
  case (other st out e rc st')
  show ?case
    using other_session [OF other.IH [OF other.prems] other.hyps(2,3)] consumed_static [of st' st] by simp
next
  case (flags st out k l)
  have "consumed (st\<lparr>s_is_linked := l, s_previewSkipCnt := k\<rparr>) = consumed st"
    by (simp add: consumed_def has_cb_def)
  then show ?case using flags_session [OF flags.IH [OF flags.prems]] by simp
qed

section \<open>Giving buffers back\<close>

text \<open>Who has been given buffers relies on one law of their owner: one that is out can be given back,
  and then it is out no more. A buffer is out as often as its key is in \<open>out\<close>.\<close>

fun give_all :: "('b \<Rightarrow> 's \<Rightarrow> 's option) \<Rightarrow> 'b list \<Rightarrow> 's \<Rightarrow> 's option" where
  "give_all give [] s = Some s"
| "give_all give (b # bs) s = give b s \<bind> give_all give bs"

locale buffer_owner =
  fixes inv :: "'s \<Rightarrow> bool"
    and out :: "'s \<Rightarrow> 'k multiset"
    and key :: "'b \<Rightarrow> 'k"
    and give :: "'b \<Rightarrow> 's \<Rightarrow> 's option"
  assumes give_one: "inv s \<Longrightarrow> key b \<in># out s \<Longrightarrow> returns (give b s) (\<lambda>s'. inv s' \<and> out s' = out s - {#key b#})"
begin

lemma give_all_returns:
  "inv s \<Longrightarrow> image_mset key (mset bs) \<subseteq># out s \<Longrightarrow>
   returns (give_all give bs s) (\<lambda>s'. inv s' \<and> out s' = out s - image_mset key (mset bs))"
proof (induction bs arbitrary: s)
  case Nil
  then show ?case by simp
next
  case (Cons b bs)
  have "key b \<in># out s" using Cons.prems(2) by (auto dest: mset_subset_eqD)
  from give_one [OF Cons.prems(1) this] show ?case
    unfolding give_all.simps
  proof (rule returns_bindI)
    fix s1 assume s1: "inv s1 \<and> out s1 = out s - {#key b#}"
    then have "image_mset key (mset bs) \<subseteq># out s1"
      using Cons.prems(2) by (auto simp: insert_subset_eq_iff)
    with s1 Cons.IH [of s1] show "returns (give_all give bs s1)
        (\<lambda>s'. inv s' \<and> out s' = out s - image_mset key (mset (b # bs)))"
      by simp
  qed
qed

lemma give_all_empties:
  assumes "inv s" "image_mset key (mset bs) = out s"
  shows "returns (give_all give bs s) (\<lambda>s'. inv s' \<and> out s' = {#})"
  using give_all_returns [OF assms(1)] assms(2) by (metis diff_cancel subset_mset.order_refl)

end

text \<open>The stream in a session, with the references outside.\<close>

definition give_back :: "env \<Rightarrow> mm_camera_buf_def \<Rightarrow> stream_obj \<times> 32 word multiset \<Rightarrow>
    (stream_obj \<times> 32 word multiset) option" where
  "give_back E b s = map_option (\<lambda>(rc, st). (st, snd s - {#bd_buf_idx b#}))
     (mm_stream_fsm_fn E (MM_STREAM_EVT_QBUF b) (fst s))"

definition in_session :: "env \<Rightarrow> stream_obj \<Rightarrow> stream_obj \<times> 32 word multiset \<Rightarrow> bool" where
  "in_session E st0 s \<longleftrightarrow> env_ok E \<and> session E (fst s) (snd s) \<and> static (fst s) = static st0 \<and>
     handed (fst s) = handed st0 \<and> s_cmds (fst s) = s_cmds st0"

interpretation stream_pool: buffer_owner "in_session E st0" snd bd_buf_idx "give_back E" for E st0
proof
  fix s and b :: mm_camera_buf_def
  assume s: "in_session E st0 s" and b: "bd_buf_idx b \<in># snd s"
  have se: "session E (fst s) (snd s)" and E: "env_ok E" using s by (simp_all add: in_session_def)
  obtain rc st where st: "mm_stream_fsm_fn E (MM_STREAM_EVT_QBUF b) (fst s) = Some (rc, st)"
    and k: "static st = static (fst s)" "handed st = handed (fst s)" "s_cmds st = s_cmds (fst s)"
    using give_back_session [OF session_ok [OF se E] _ b, of E] by (auto simp: returns_iff)
  then show "returns (give_back E b s) (\<lambda>s'. in_session E st0 s' \<and> snd s' = snd s - {#bd_buf_idx b#})"
    using session.give_back [OF se b st] s by (simp add: give_back_def in_session_def)
qed

section \<open>What a session guarantees\<close>

lemma session_slot:
  assumes "session_ok strict st out" "unat i < unat (s_buf_num st)"
  shows "count_ok strict (outside out st) st i"
  using assms by (auto simp: session_ok_def intro: own_slot)

text \<open>A buffer in the driver is nowhere else.\<close>

lemma session_apart:
  assumes ok: "session_ok strict st out" and i: "i \<in> set (driver_bufs (s_log st))"
  shows "i \<notin># out" "i \<notin> info_idx ` set (s_cmds st)"
proof -
  have n: "unat i < unat (s_buf_num st)"
    using session_live [OF ok] i by (auto simp: live_def list_all_iff)
  have "count out i + queued_refs st i = 0"
    using session_slot [OF ok n] i by (auto simp: count_ok_def Let_def outside_refs)
  then show "i \<notin># out" "i \<notin> info_idx ` set (s_cmds st)"
    by (simp_all add: queued_refs_def count_eq_zero_iff)
qed

lemma session_count:
  assumes "session_ok strict st out"
  shows "mm_stream_get_queued_buf_count st = int (length (driver_bufs (s_log st)))"
    "distinct (driver_bufs (s_log st))" "length (driver_bufs (s_log st)) \<le> 24"
proof -
  have o: "unat (s_queued_buffer_count st) = length (driver_bufs (s_log st))" "distinct (driver_bufs (s_log st))"
    using assms by (simp_all add: session_ok_def own_def)
  show l: "length (driver_bufs (s_log st)) \<le> 24"
    by (rule driver_bufs_length [OF session_live [OF assms]]) (use assms in \<open>auto simp: session_ok_def\<close>)
  have u: "uint (s_queued_buffer_count st) = int (length (driver_bufs (s_log st)))"
    by (simp only: uint_unat_8 o(1))
  then have "- (2 ^ 7) \<le> uint (s_queued_buffer_count st)" "uint (s_queued_buffer_count st) < 2 ^ 7"
    using l by simp_all
  then have "sint (s_queued_buffer_count st) = uint (s_queued_buffer_count st)"
    by (simp add: sint_uint signed_take_bit_int_eq_self)
  then show "mm_stream_get_queued_buf_count st = int (length (driver_bufs (s_log st)))"
    using u by (simp add: mm_stream_get_queued_buf_count_def)
qed (use assms in \<open>simp add: session_ok_def own_def\<close>)

lemma session_exact:
  assumes "session_ok True st out" "unat i < unat (s_buf_num st)"
  shows "unat (buf_refcnt (stat st i)) = count out i + queued_refs st i" "unat (buf_refcnt (stat st i)) \<le> 7"
    "buf_refcnt (stat st i) = 0 \<longleftrightarrow> i \<in> set (driver_bufs (s_log st))"
proof -
  note c = session_slot [OF assms, unfolded count_ok_def Let_def outside_refs uint_unat_8]
  show "unat (buf_refcnt (stat st i)) = count out i + queued_refs st i" using c by (metis of_nat_eq_iff)
  show "unat (buf_refcnt (stat st i)) \<le> 7" "buf_refcnt (stat st i) = 0 \<longleftrightarrow> i \<in> set (driver_bufs (s_log st))"
    using c by auto
qed

end
