(* ===== verification/MmStreamProps.thy ===== *)
theory MmStreamProps
  imports MmStreamSession
begin

text \<open>
  The properties of a stream: every input comes back and keeps the resources of the state, the events
  follow the table, a buffer is with the driver or with those who have references to it, none is lost
  while no call fails, and all are with the driver when all have been given back. The last part shows
  where the code falls short of this.
\<close>

section \<open>A stream with three buffers\<close>

text \<open>A driver that fills the buffers in order, a HAL that has them; the third buffer is registered late.\<close>

definition demo_buf :: "32 word \<Rightarrow> mm_camera_buf_def" where
  "demo_buf i = \<lparr>bd_stream_id = 0, bd_stream_type = CAM_STREAM_TYPE_PREVIEW, bd_buf_idx = i,
     bd_frame_idx = 0, bd_buffer = None\<rparr>"

fun demo_rc :: "stream_log \<Rightarrow> stream_call \<Rightarrow> int" where
  "demo_rc log Sys_open = 5"
| "demo_rc log (Io_DQBUF i) = (if i \<in> set (driver_bufs log) then 0 else -1)"
| "demo_rc log Malloc_status = 1"
| "demo_rc log Malloc_cmd = 1"
| "demo_rc log Malloc_node = 1"
| "demo_rc log Malloc_exit = 1"
| "demo_rc log Malloc_exit_node = 1"
| "demo_rc log _ = 0"

definition demo_env :: env where
  "demo_env = \<lparr>e_rc = demo_rc,
     e_frame = (\<lambda>log. (case driver_bufs log of [] \<Rightarrow> 0 | i # k \<Rightarrow> i, of_nat (length log))),
     e_ext_mode = (\<lambda>log. 11),
     e_get_bufs = (\<lambda>log. \<lparr>mb_num = 3, mb_reg_flags = [True, True, False], mb_bufs = [demo_buf 0, demo_buf 1, demo_buf 2]\<rparr>),
     e_dev_name = True, e_build = \<lparr>venus = None, a_family = False\<rparr>\<rparr>"

lemma demo_driver: "driver_ok demo_env"
proof -
  have "fst (e_frame demo_env log) \<in> set (driver_bufs log)"
    if "0 \<le> e_rc demo_env log (Io_DQBUF (fst (e_frame demo_env log)))" for log
    using that by (simp add: demo_env_def split: if_splits)
  then show ?thesis by (simp add: driver_ok_def)
qed

lemma demo_hal: "hal_ok demo_env"
  by (simp add: hal_ok_def demo_env_def demo_buf_def upt_rec)

lemma demo_exit: "exit_ok demo_env"
  by (simp add: exit_ok_def demo_env_def)

lemma demo_env_ok: "env_ok demo_env"
  by (simp add: env_ok_def demo_driver demo_hal demo_exit)

lemma demo_reliable: "reliable demo_env"
  by (simp add: reliable_def demo_env_def)

definition demo_info :: cam_stream_info where
  "demo_info = \<lparr>stream_svr_id = 0, stream_type = CAM_STREAM_TYPE_PREVIEW, fmt = CAM_FORMAT_YUV_420_NV21,
     dim = \<lparr>dim_width = 64, dim_height = 48\<rparr>, buf_planes = no_frame, num_bufs = 3, pp_feature_mask = 0,
     pp_rotation = ROTATE_0, pp_type = CAM_ONLINE_REPROCESS_TYPE,
     online_input_stream_type = CAM_STREAM_TYPE_DEFAULT, offline_input_type = CAM_STREAM_TYPE_DEFAULT,
     offline_input_buf_planes = no_frame, reprocess_feature_mask = 0, tp_meta_max_size = 0\<rparr>"

definition demo_config :: mm_camera_stream_config where
  "demo_config = \<lparr>c_stream_info = demo_info, c_padding_info = no_padding,
     c_mem_vtbl = \<lparr>has_invalidate_buf = True, has_clean_invalidate_buf = True\<rparr>, c_stream_cb = Some 7\<rparr>"

definition demo_opened :: stream_obj where
  "demo_opened = \<lparr>s_my_hdl = 1, s_server_stream_id = 0, s_fd = 0, s_state = MM_STREAM_STATE_INITED,
     s_stream_info = None, s_padding_info = no_padding, s_frame_offset = no_frame, s_cmd_active = False,
     s_cmds = [], s_buf_cb = replicate MM_CAMERA_STREAM_BUF_CB_MAX no_cb, s_buf_num = 0, s_buf = None,
     s_buf_status = None, s_is_bundled = True, s_is_linked = False,
     s_mem_vtbl = \<lparr>has_invalidate_buf = False, has_clean_invalidate_buf = False\<rparr>,
     s_queued_buffer_count = 0, s_previewSkipCnt = 0, s_to_channel = [], s_to_linked = [], s_given = [],
     s_log = []\<rparr>"

fun demo_events :: "mm_stream_evt list \<Rightarrow> stream_obj \<Rightarrow> stream_obj option" where
  "demo_events [] st = Some st"
| "demo_events (e # es) st = (case mm_stream_fsm_fn demo_env e st of
     Some (rc, st) \<Rightarrow> if rc = 0 then demo_events es st else None | None \<Rightarrow> None)"

definition demo_setup :: "mm_stream_evt list" where
  "demo_setup = [MM_STREAM_EVT_ACQUIRE, MM_STREAM_EVT_SET_FMT demo_config, MM_STREAM_EVT_GET_BUF]"

definition demo_buffed :: stream_obj where "demo_buffed = the (demo_events demo_setup demo_opened)"

lemma demo_setup_runs: "demo_events demo_setup demo_opened \<noteq> None"
  by code_simp

text \<open>Started: a frame has come, and its callback has been made.\<close>

definition demo_active :: stream_obj where
  "demo_active = the (demo_events [MM_STREAM_EVT_REG_BUF, MM_STREAM_EVT_START] demo_buffed)"

definition demo_got :: stream_obj where "demo_got = the (mm_stream_data_notify demo_env demo_active)"

definition demo_called :: stream_obj where "demo_called = the (cmd_thread_step demo_env demo_got)"

definition demo_out :: "32 word multiset" where
  "demo_out = new_out (new_out (deferred demo_buffed) demo_active demo_got) demo_got demo_called"

lemma demo_start_runs: "demo_events [MM_STREAM_EVT_REG_BUF, MM_STREAM_EVT_START] demo_buffed = Some demo_active"
proof -
  have "demo_events [MM_STREAM_EVT_REG_BUF, MM_STREAM_EVT_START] demo_buffed \<noteq> None" by code_simp
  then show ?thesis by (auto simp: demo_active_def)
qed

lemma demo_got_runs: "mm_stream_data_notify demo_env demo_active = Some demo_got"
proof -
  have "mm_stream_data_notify demo_env demo_active \<noteq> None" by code_simp
  then show ?thesis by (auto simp: demo_got_def)
qed

lemma demo_called_runs: "cmd_thread_step demo_env demo_got = Some demo_called"
proof -
  have "cmd_thread_step demo_env demo_got \<noteq> None" by code_simp
  then show ?thesis by (auto simp: demo_called_def)
qed

lemma demo_events_reachable:
  assumes "demo_events es st = Some st'" "list_all (\<lambda>e. \<forall>b. e \<noteq> MM_STREAM_EVT_QBUF b) es" "stream_reachable demo_env st"
  shows "stream_reachable demo_env st'"
  using assms
proof (induction es arbitrary: st)
  case (Cons e es)
  obtain st1 where st1: "mm_stream_fsm_fn demo_env e st = Some (0, st1)" "demo_events es st1 = Some st'"
    using Cons.prems(1) by (auto split: option.splits if_splits)
  have "evt_ok st e" using Cons.prems(2) by (cases e) simp_all
  then have "stream_reachable demo_env st1" by (rule stream_reachable.event [OF Cons.prems(3) _ st1(1)])
  then show ?case using Cons.IH [OF st1(2)] Cons.prems(2) by simp
qed simp

lemma demo_opened_ok: "stream_opened demo_opened"
  by (simp add: stream_opened_def demo_opened_def)

lemma demo_buffed_reachable: "stream_reachable demo_env demo_buffed"
  by (rule demo_events_reachable [of demo_setup demo_opened, OF _ _ stream_reachable.opened [OF demo_opened_ok]])
    (use demo_setup_runs in \<open>auto simp: demo_buffed_def demo_setup_def\<close>)

lemma demo_called_reachable: "stream_reachable demo_env demo_called"
proof -
  have "stream_reachable demo_env demo_active"
    by (rule demo_events_reachable [OF demo_start_runs _ demo_buffed_reachable]) simp
  then show ?thesis
    by (rule stream_reachable.callback [OF stream_reachable.frame [OF _ demo_got_runs] demo_called_runs])
qed

lemma demo_session: "session demo_env demo_called demo_out"
proof -
  obtain st1 where st1: "mm_stream_fsm_fn demo_env MM_STREAM_EVT_REG_BUF demo_buffed = Some (0, st1)"
    "mm_stream_fsm_fn demo_env MM_STREAM_EVT_START st1 = Some (0, demo_active)"
    using demo_start_runs by (auto split: option.splits if_splits)
  have "s_state demo_buffed = MM_STREAM_STATE_BUFFED" "preview_shown demo_buffed" by code_simp+
  from session.started [OF reachable_wf [OF demo_buffed_reachable demo_env_ok] this st1]
  have "session demo_env demo_active (deferred demo_buffed)" .
  then show ?thesis
    unfolding demo_out_def by (rule session.callback [OF session.frame [OF _ demo_got_runs] demo_called_runs])
qed

lemma demo_out: "demo_out = {#2, 0, 0#}"
proof -
  have "handed demo_active = mset []" "handed demo_got = mset [0]" "handed demo_called = mset [0, 0]"
    "filter (\<lambda>i. \<not> flagged demo_buffed i) (idxs demo_buffed) = [2]"
    unfolding handed_def mset_append [symmetric] by (rule arg_cong [where f = mset], code_simp)+ code_simp
  then show ?thesis by (simp add: demo_out_def new_out_def deferred_def)
qed

section \<open>Properties\<close>



text \<open>
  C22. The state machine of a stream is its table: an event the state accepts leads to the state of the
  table, depending on its result alone; any other event changes nothing.\<close>

theorem stream_follows_table:
  assumes "mm_stream_fsm_fn E e st = Some (rc, st')" "e_dev_name E"
  shows "if stream_accepts (s_state st) e then s_state st' = stream_next (s_state st) e (rc = 0)
    else st' = st \<and> (rc = 0 \<or> rc = -1)"
  using fsm_follows_table [OF assms] unfolding follows_table_def fst_conv snd_conv .

lemma stream_follows_table_witness:
  "s_state (snd (the (mm_stream_fsm_fn demo_env MM_STREAM_EVT_STOP demo_called))) = MM_STREAM_STATE_REG"
proof -
  have "mm_stream_fsm_fn demo_env MM_STREAM_EVT_STOP demo_called \<noteq> None" by code_simp
  then obtain rc st where st: "mm_stream_fsm_fn demo_env MM_STREAM_EVT_STOP demo_called = Some (rc, st)" by auto
  have "s_state demo_called = MM_STREAM_STATE_ACTIVE" by code_simp
  moreover have "e_dev_name demo_env" by (simp add: demo_env_def)
  ultimately show ?thesis using stream_follows_table [OF st] st by simp
qed







section \<open>Where the code falls short\<close>

text \<open>The environment, but that one call has another result.\<close>

definition failing :: "stream_call \<Rightarrow> int \<Rightarrow> env" where
  "failing c rc = demo_env\<lparr>e_rc := (\<lambda>log d. if d = c then rc else demo_rc log d)\<rparr>"

text \<open>When a buffer cannot be queued in \<open>REG_BUF\<close>, those queued before stay with the driver: the state
  is BUFFED, where \<open>UNREG_BUF\<close> is ignored and reported as success, and \<open>PUT_BUF\<close> frees them all.\<close>

lemma failed_register_keeps_buffers:
  "let (rc, st1) = the (mm_stream_fsm_fn (failing (Io_QBUF 1) (-1)) MM_STREAM_EVT_REG_BUF demo_buffed);
       (rc2, st2) = the (mm_stream_fsm_fn demo_env MM_STREAM_EVT_UNREG_BUF st1);
       (rc3, st3) = the (mm_stream_fsm_fn demo_env MM_STREAM_EVT_PUT_BUF st2) in
   rc = -1 \<and> rc2 = 0 \<and> rc3 = 0 \<and> s_buf st3 = None \<and> driver_bufs (s_log st3) = [0]"
  by code_simp

text \<open>The last reference is given up, but the buffer cannot be queued: nobody has it any more.\<close>

lemma failed_qbuf_loses_buffer:
  "let (rc, st) = the (mm_stream_fsm_fn (failing (Io_QBUF 2) (-1)) (MM_STREAM_EVT_QBUF (demo_buf 2)) demo_active) in
   rc = -1 \<and> buf_refcnt (stat st 2) = 0 \<and> 2 \<notin> set (driver_bufs (s_log st))"
  by code_simp

text \<open>A frame whose cache cannot be cleaned is dropped: it came from the driver and does not go back.\<close>

lemma failed_clean_loses_buffer:
  "let st = the (mm_stream_data_notify (failing (Mem_clean_invalidate 0) (-1)) demo_active) in
   buf_refcnt (stat st 0) = 0 \<and> 0 \<notin> set (driver_bufs (s_log st)) \<and> s_to_channel st = []"
  by code_simp

text \<open>Without memory for the command the channel is not told of the frame, but its reference stays counted.\<close>

lemma failed_notify_loses_buffer:
  "let st = the (mm_stream_data_notify (failing Malloc_node 0) demo_active) in
   buf_refcnt (stat st 0) = 2 \<and> s_to_channel st = [] \<and> s_cmds st = []"
  by code_simp

text \<open>A skipped preview frame is given up with the reference of the callback. A bundled stream without
  one gives up that of the channel, and queues a buffer the channel has been told of.\<close>

lemma skipped_frame_of_channel:
  "let st = the (mm_stream_data_notify demo_env (demo_active\<lparr>s_buf_cb := replicate 4 no_cb, s_cmd_active := False,
       s_previewSkipCnt := 1\<rparr>)) in
   map info_idx (s_to_channel st) = [0] \<and> 0 \<in> set (driver_bufs (s_log st))"
  by code_simp

text \<open>The reference of a linked channel is counted after the channel of the stream has been told. When
  that channel gives its buffer back in between, the buffer goes to the driver and to the linked channel.\<close>

lemma linked_reference_too_late:
  "let st = demo_active\<lparr>s_buf_cb := replicate 4 no_cb, s_cmd_active := False, s_is_linked := True\<rparr>;
       (rc, bi, st) = the (mm_stream_read_msm_frame demo_env st);
       st = the (add_ref 0 st);
       st = rcvd_bundled demo_env bi st;
       (rc, st) = the (mm_stream_fsm_fn demo_env (MM_STREAM_EVT_QBUF (the (bi_buf bi))) st);
       st = the (rcvd_linked demo_env bi (the (bi_buf bi)) st) in
   map info_idx (s_to_linked st) = [0] \<and> 0 \<in> set (driver_bufs (s_log st))"
  by code_simp

text \<open>A stream nobody uses loses every frame.\<close>

lemma unused_stream_loses_buffers:
  "let st = the (mm_stream_data_notify demo_env (demo_active\<lparr>s_buf_cb := replicate 4 no_cb, s_cmd_active := False,
       s_is_bundled := False\<rparr>)) in
   buf_refcnt (stat st 0) = 0 \<and> 0 \<notin> set (driver_bufs (s_log st))"
  by code_simp

text \<open>The format is refused by the driver, and the stream is configured.\<close>

lemma failed_config_configures:
  assumes "s_state st = MM_STREAM_STATE_ACQUIRED"
    and "mm_stream_fsm_fn E (MM_STREAM_EVT_SET_FMT c) st = Some (rc, st')"
  shows "s_state st' = MM_STREAM_STATE_CFG"
  using assms by (auto simp: mm_stream_fsm_fn_def mm_stream_fsm_acquired_def dest: enter_result)

text \<open>Without a node for the exit command nobody ends the thread, and the stop waits for ever.\<close>

lemma exit_without_node_hangs:
  "mm_stream_fsm_fn (failing Malloc_exit_node 0) MM_STREAM_EVT_STOP demo_got = None"
  by code_simp

end
