(* ===== verification/Spec2Isabelle.thy ===== *)
theory Spec2Isabelle
  imports SmProps SmThread HwiApi HwiRuns CamParamsProps ExtraProps MmChannelProps MmOffsetProps
  MmStreamProps
begin

text \<open>
  The Lenovo A6010 device tree: the control core of its camera HAL (\<^verbatim>\<open>camera/QCamera2\<close>), from the entry
  points the framework calls down to the camera channels, the camera parameters
  (\<^verbatim>\<open>camera/compat\<close>), the streams, their buffers and the queue that bundles the frames of a channel
  (\<^verbatim>\<open>stack/mm-camera-interface\<close>), and the extra data of the video codecs (\<^verbatim>\<open>hardware/media/mm-video-v4l2\<close>).

  \<^bold>\<open>The program.\<close> The framework calls the static functions of \<^verbatim>\<open>QCamera2HardwareInterface\<close>
  (\<^verbatim>\<open>HAL/QCamera2HWI.cpp\<close>). Each takes the API lock, hands an event to the state machine
  (\<^verbatim>\<open>processAPI\<close>), waits for the result of that event (\<^verbatim>\<open>waitAPIResult\<close>) and returns what it says. The
  state machine (\<^verbatim>\<open>HAL/QCameraStateMachine.cpp\<close>) owns a thread and two queues
  (\<^verbatim>\<open>util/QCameraQueue.cpp\<close>, \<^verbatim>\<open>stack/common/cam_list.h\<close>), one for API calls and one for events of the
  camera daemon. For each command the handler of the present state calls methods of the
  hardware interface (the parent), changes the state and signals the result. The methods create,
  start, stop and delete the channels. The framework hands settings over as the text form of
  \<^verbatim>\<open>CameraParameters\<close> (\<^verbatim>\<open>CameraParameters.cpp\<close>), a map from keys to values. Below the channels
  \<^verbatim>\<open>mm_camera_channel.c\<close> matches the frames of the bundled streams by their index and hands complete
  super buffers to the client. Each stream (\<^verbatim>\<open>mm_camera_stream.c\<close>) is a state machine of its own that
  configures the driver, lays out its frames, registers its buffers, and passes every filled buffer
  to the channel, to its callbacks and back to the driver. In the video codecs
  \<^verbatim>\<open>extra_data_handler.cpp\<close> writes and reads the messages and tables that travel behind the payload
  of a buffer.

  \<^bold>\<open>Theories.\<close>
  \<^item> \<open>CamPrelude\<close>: addresses, status codes, the state monad; \<open>StateHoare\<close>: triples for it.
  \<^item> \<open>SmTypes\<close>: the enumerations and payloads of \<^verbatim>\<open>QCameraStateMachine.h\<close>, the calls on the parent
    (\<open>pcall\<close>) with the environment that answers them (\<open>penv\<close>), and the state \<open>sm\<close> of the machine with
    the history of its calls. \<open>SmPreview\<close>, \<open>SmCapture\<close>, \<open>SmRecording\<close>: the handlers of the eight states,
    every case of every \<^verbatim>\<open>switch\<close>, and \<open>stateMachine\<close>.
  \<^item> \<open>SmContract\<close>: the contract of a step as executable tables (next states, answers, permitted calls)
    and one lemma per handler. \<open>SmRuns\<close>: runs. \<open>SmProps\<close>: the properties of the machine.
  \<^item> \<open>SmParent\<close>: the history of a run replays on the parent; the interfaces \<open>camera_parent\<close> and
    \<open>recording_parent\<close> a parent provides, and what runs make of them.
  \<^item> \<open>CamQueue\<close>: \<^verbatim>\<open>cam_list\<close> and \<^verbatim>\<open>QCameraQueue\<close> over a heap of nodes, their refinement of lists, and
    the interface \<open>fifo_queue\<close>. A missing node is \<open>None\<close>, so a theorem that a result is \<open>Some\<close> says
    that no freed or wild pointer is followed.
  \<^item> \<open>SmThread\<close>: \<^verbatim>\<open>procAPI\<close>, \<^verbatim>\<open>procEvt\<close>, \<^verbatim>\<open>releaseThread\<close> and the loop of \<^verbatim>\<open>smEvtProcRoutine\<close>, interleaved as
    the step relation \<open>thread_step\<close>. \<open>HwiApi\<close>: the entry points as programs of API calls, the list of
    results, callers and thread interleaved as \<open>hwi_step\<close>.
  \<^item> \<open>HwiChannels\<close>, \<open>HwiDevice\<close>: the methods of the hardware interface that own the channels, over a
    backend. \<open>HwiInv\<close>, \<open>HwiProps\<close>: what each does to the channel table. \<open>HwiRuns\<close>: the machine run over
    this device, by interpretation of the interfaces of \<open>SmParent\<close>.
  \<^item> \<open>CStrings\<close>: \<^verbatim>\<open>strchr\<close>, \<^verbatim>\<open>strtol\<close>, \<^verbatim>\<open>%d\<close>, \<^verbatim>\<open>strtok_r\<close>. \<open>CamParams\<close>: every operation of \<^verbatim>\<open>CameraParameters\<close> but
    the floating point ones and the dumps, over the operations of the map class (\<open>keyed_vector_ops\<close>).
    \<open>CamParamsProps\<close>: the interface \<open>keyed_vector\<close> of that class, the sorted list that provides it, and
    the properties.
  \<^item> \<open>ExtraData\<close>: the bit reader and writer, Exp-Golomb codes, the frame packing message and its NAL
    unit. \<open>ExtraBits\<close>: bits by position, fields. \<open>ExtraSei\<close>: a message as the list of its fields.
    \<open>ExtraNal\<close>: emulation bytes and the whole unit. \<open>ExtraSections\<close>: slice tables and the loop over the
    sections of a buffer. \<open>ExtraProps\<close>: the properties and the faults.

  \<^item> \<open>MmChannel\<close>: the super buffer queue of a channel and the operations that take from it. \<open>MmMatch\<close>:
    metadata frames, the matching of an incoming frame and the handler of the command thread.
    \<open>MmQueueInv\<close>, \<open>MmMatchInv\<close>, \<open>MmRunInv\<close>: the invariant of the queue and the account of the buffers,
    one lemma per operation (\<open>evolves\<close>). \<open>MmChannelProps\<close>: the properties over runs and the faults.
  \<^item> \<open>MmOffset\<close>: \<^verbatim>\<open>mm_stream_calc_offset\<close> and its cases, the layout of a frame in memory for each type of
    stream and format. \<open>MmOffsetProps\<close>: each layout has room for its planes, and the faults.
  \<^item> \<open>MmStream\<close>: one stream over its environment (\<open>env\<close>): the driver's answers, the client's buffer
    operations and callbacks, the calls made so far (\<open>s_log\<close>). Every operation, the four handlers of the
    state machine, the command thread. \<open>MmStreamInv\<close>: what each operation does to the counts and flags
    of the buffers. \<open>MmStreamFsm\<close>: what each state keeps, and that every input returns. \<open>MmStreamRuns\<close>:
    the table of the machine, the streams runs reach, and sessions (the life of a started stream).
    \<open>MmStreamSession\<close>: the invariant of a session, and the interface \<open>buffer_owner\<close>. \<open>MmStreamProps\<close>:
    the properties and the faults.

  \<^bold>\<open>What is shown.\<close> The machine follows its diagram, which is exact; every request
  is answered once; a recording is never lost; calls are made in permitted states only; failed starts
  are undone. The threaded machine refines the sequential one for every interleaving and every failure
  of \<^verbatim>\<open>malloc\<close>; memory is neither leaked nor freed twice; every API call
  returns. On the device no channel object leaks or is deleted twice in any run, whatever the hardware
  answers, the video channel is there while recording, and preparing the preview is all or nothing. The
  parameters survive their text form after any sequence of calls with any text, and numbers and sizes
  read back as they were set. A frame packing message is read back as it was written, inside the
  buffers, and the slice table and the loop over the sections do what they promise. Every command of a
  channel's thread returns, the super buffers the client gets are complete and of one frame, no frame
  buffer is lost or used twice, and the queue keeps its limits. The layout of a frame has room for every
  plane it names. Every input of a stream's machine returns, keeps its resources in step with its
  state and moves as the table says; in a session no buffer is with the driver while someone holds it,
  its count is the number of its holders, and once all give it back the driver has it. Theorems that are not numbered show
  errors of the code (\<open>sm_register_face_unanswered\<close>,
  \<open>releaseThread_lost_exit\<close>, \<open>stale_result_taken\<close>, the last sections of
  \<open>HwiRuns\<close>, \<open>MmChannelProps\<close>, \<open>MmOffsetProps\<close> and \<open>MmStreamProps\<close>).

  \<^bold>\<open>Abstractions.\<close> What the modelled code calls and this development does not define
  (the channels and streams, \<^verbatim>\<open>mParameters\<close>, the post processor, deferred work,
  the daemon) answers as it likes, in a state of its own: \<open>p_call\<close> of \<open>penv\<close>
  for the machine alone, \<open>b_call\<close> of \<open>benv\<close> for the device. A mutex makes the
  operation it guards one step. Loops over pointers are partial functions, and the theorems that they
  return say so; so are the loops of the super buffer queue, where \<open>None\<close> is a loop that
  never ends or a null pointer. The streams of a channel answer nothing there: buffers given back are
  recorded, the stream table does not change during a run. A stream's driver, its client's buffer
  operations and its callbacks answer as they like in \<open>env\<close>; what its locks guard is one step. The state machine thread's loop is one turn
  per step. Memory of the codecs is a list of bytes with bounds, addresses have 32 bits as on the
  device, and the value of a shift by 32 or more is any function of its operands
  (\<open>oversize\<close>). Logging, power hints and members that no modelled guard reads are left out.

  \<^bold>\<open>Not modelled.\<close> Opening and closing the device, buffer allocation, stream
  callbacks, reprocessing, vendor parameters, thermal levels and torch of the camera HAL; floating point
  parameters; the state machine of a channel and the camera object in
  \<^verbatim>\<open>mm-camera-interface\<close>, its sockets and its JPEG twin; the vendored audio and
  display stacks and the codecs but for their extra data; the HIDL services; the interrupt balancer;
  data files.
\<close>

end
